(* ===== verification/Prelude.thy ===== *)
theory Prelude
  imports Complex_Main "HOL-Library.Char_ord" "HOL-Library.Code_Target_Nat"
begin

text \<open>
  Shared vocabulary of the development: the fragment of the JavaScript standard library that
  the sources use (strings, \<open>Map\<close> objects, JSON values), results of fallible code as sums, and
  the rewrite collections the component theories draw on.

  Strings are lists of 8-bit characters; case mapping covers the ASCII letters, and white space is
  what \<open>String.prototype.trim\<close> removes within that range.
\<close>

named_theorems js_string \<open>rewrite rules for string operations\<close>
named_theorems js_map \<open>rewrite rules for insertion-ordered maps\<close>

section \<open>Results\<close>

text \<open>A throwing computation returns \<open>Inl\<close> of what it throws or \<open>Inr\<close> of its value.\<close>

fun and_then :: "'e + 'a \<Rightarrow> ('a \<Rightarrow> 'e + 'b) \<Rightarrow> 'e + 'b" where
  "and_then (Inl e) f = Inl e"
| "and_then (Inr x) f = f x"

lemma and_then_Inr_iff: "and_then r f = Inr y \<longleftrightarrow> (\<exists>x. r = Inr x \<and> f x = Inr y)"
  by (cases r) auto

lemma and_then_Inl_iff:
  "and_then r f = Inl e \<longleftrightarrow> r = Inl e \<or> (\<exists>x. r = Inr x \<and> f x = Inl e)"
  by (cases r) auto

fun map_result :: "('a \<Rightarrow> 'e + 'b) \<Rightarrow> 'a list \<Rightarrow> 'e + 'b list" where
  "map_result f [] = Inr []"
| "map_result f (x # xs) = and_then (f x) (\<lambda>y. and_then (map_result f xs) (\<lambda>ys. Inr (y # ys)))"

lemma map_result_all_Inr:
  "(\<And>x. x \<in> set xs \<Longrightarrow> f x = Inr (g x)) \<Longrightarrow> map_result f xs = Inr (map g xs)"
  by (induction xs) auto

lemma map_result_cong [fundef_cong]:
  "xs = ys \<Longrightarrow> (\<And>x. x \<in> set ys \<Longrightarrow> f x = g x) \<Longrightarrow> map_result f xs = map_result g ys"
  by (induction ys arbitrary: xs) auto

text \<open>A \<open>reduce\<close> whose step may throw.\<close>

fun foldl_result :: "('b \<Rightarrow> 'a \<Rightarrow> 'e + 'b) \<Rightarrow> 'b \<Rightarrow> 'a list \<Rightarrow> 'e + 'b" where
  "foldl_result f b [] = Inr b"
| "foldl_result f b (x # xs) = and_then (f b x) (\<lambda>b. foldl_result f b xs)"

lemma map_result_list_all2:
  "list_all2 (\<lambda>x i. \<exists>y. f x = Inr y \<and> Q y i) xs is \<Longrightarrow>
    \<exists>ys. map_result f xs = Inr ys \<and> list_all2 Q ys is"
  by (induction xs "is" rule: list_all2_induct) auto

section \<open>Strings\<close>

abbreviation quote_char :: char where "quote_char \<equiv> CHR 0x27"

definition is_digit_char :: "char \<Rightarrow> bool" where
  "is_digit_char c \<longleftrightarrow> CHR ''0'' \<le> c \<and> c \<le> CHR ''9''"

definition is_lower_char :: "char \<Rightarrow> bool" where
  "is_lower_char c \<longleftrightarrow> CHR ''a'' \<le> c \<and> c \<le> CHR ''z''"

definition is_upper_char :: "char \<Rightarrow> bool" where
  "is_upper_char c \<longleftrightarrow> CHR ''A'' \<le> c \<and> c \<le> CHR ''Z''"

text \<open>The regular expression class \<open>\w\<close>.\<close>

definition is_word_char :: "char \<Rightarrow> bool" where
  "is_word_char c \<longleftrightarrow> is_digit_char c \<or> is_lower_char c \<or> is_upper_char c \<or> c = CHR ''_''"

definition is_space_char :: "char \<Rightarrow> bool" where
  "is_space_char c \<longleftrightarrow>
     c \<in> {CHR '' '', CHR 0x09, CHR 0x0A, CHR 0x0B, CHR 0x0C, CHR 0x0D}"

definition upper_char :: "char \<Rightarrow> char" where
  "upper_char c = (if is_lower_char c then char_of (of_char c - 32 :: nat) else c)"

definition lower_char :: "char \<Rightarrow> char" where
  "lower_char c = (if is_upper_char c then char_of (of_char c + 32 :: nat) else c)"

definition to_upper :: "string \<Rightarrow> string" where
  "to_upper s = map upper_char s"

definition to_lower :: "string \<Rightarrow> string" where
  "to_lower s = map lower_char s"

definition trim_start :: "string \<Rightarrow> string" where
  "trim_start s = dropWhile is_space_char s"

definition trim :: "string \<Rightarrow> string" where
  "trim s = rev (trim_start (rev (trim_start s)))"

fun starts_with :: "string \<Rightarrow> string \<Rightarrow> bool" where
  "starts_with s [] = True"
| "starts_with [] (p # ps) = False"
| "starts_with (c # cs) (p # ps) = (c = p \<and> starts_with cs ps)"

fun includes_str :: "string \<Rightarrow> string \<Rightarrow> bool" where
  "includes_str [] p = (p = [])"
| "includes_str (c # cs) p = (starts_with (c # cs) p \<or> includes_str cs p)"

text \<open>\<open>s.split(c)\<close> for a one-character separator: never empty.\<close>

fun split_on :: "char \<Rightarrow> string \<Rightarrow> string list" where
  "split_on c [] = [[]]"
| "split_on c (x # xs) =
     (if x = c then [] # split_on c xs
      else (case split_on c xs of [] \<Rightarrow> [[x]] | w # ws \<Rightarrow> (x # w) # ws))"

text \<open>\<open>s.indexOf(c)\<close> for one character, \<open>None\<close> for \<open>-1\<close>.\<close>

fun index_of :: "char \<Rightarrow> string \<Rightarrow> nat option" where
  "index_of c [] = None"
| "index_of c (x # xs) = (if x = c then Some 0 else map_option Suc (index_of c xs))"

fun join :: "string \<Rightarrow> string list \<Rightarrow> string" where
  "join sep [] = []"
| "join sep [w] = w"
| "join sep (w # ws) = w @ sep @ join sep ws"

text \<open>\<open>s.slice(-n)\<close>: the last \<open>n\<close> characters.\<close>

definition slice_last :: "nat \<Rightarrow> string \<Rightarrow> string" where
  "slice_last n s = drop (length s - n) s"

lemma slice_last_append: "n \<le> length s \<Longrightarrow> slice_last n (p @ s) = slice_last n s"
  by (simp add: slice_last_def)

definition pad_start :: "nat \<Rightarrow> char \<Rightarrow> string \<Rightarrow> string" where
  "pad_start n c s = replicate (n - length s) c @ s"

definition pad_end :: "nat \<Rightarrow> char \<Rightarrow> string \<Rightarrow> string" where
  "pad_end n c s = s @ replicate (n - length s) c"

lemma starts_with_iff: "starts_with s p \<longleftrightarrow> (\<exists>t. s = p @ t)"
  by (induction s p rule: starts_with.induct) auto

lemma includes_str_iff: "includes_str s p \<longleftrightarrow> (\<exists>u v. s = u @ p @ v)"
proof (induction s)
  case (Cons c cs)
  have "(\<exists>u v. c # cs = u @ p @ v) \<longleftrightarrow> (\<exists>v. c # cs = p @ v) \<or> (\<exists>u v. cs = u @ p @ v)"
    by (metis (no_types, lifting) append_Cons append_Nil list.exhaust_sel list.inject)
  with Cons show ?case by (simp add: starts_with_iff)
qed simp

lemma length_to_upper [simp]: "length (to_upper s) = length s"
  by (simp add: to_upper_def)

lemma upper_char_idem [simp]: "upper_char (upper_char c) = upper_char c"
proof (cases "is_lower_char c")
  case True
  then have b: "97 \<le> (of_char c :: nat)" "(of_char c :: nat) \<le> 122"
    by (auto simp: is_lower_char_def less_eq_char_def)
  then have "of_char (char_of (of_char c - 32 :: nat) :: char) = (of_char c - 32 :: nat)"
    by (simp add: of_char_of take_bit_nat_eq_self)
  with b True show ?thesis by (auto simp: upper_char_def is_lower_char_def less_eq_char_def)
next
  case False
  then show ?thesis by (simp add: upper_char_def)
qed

lemma to_upper_idem [simp, js_string]: "to_upper (to_upper s) = to_upper s"
  by (simp add: to_upper_def)

lemma split_on_not_Nil [simp]: "split_on c s \<noteq> []"
  by (induction s) (auto split: list.splits)

lemma join_Cons_cons: "join sep ((x # w) # ws) = x # join sep (w # ws)"
  by (cases ws) auto

lemma join_split_on: "join [c] (split_on c s) = s"
proof (induction s)
  case (Cons x xs)
  obtain w ws where ws: "split_on c xs = w # ws"
    using split_on_not_Nil by (metis neq_Nil_conv)
  with Cons show ?case by (simp add: join_Cons_cons)
qed simp

lemma split_on_no: "c \<notin> set w \<Longrightarrow> split_on c w = [w]"
  by (induction w) auto

lemma split_on_append: "c \<notin> set w \<Longrightarrow> split_on c (w @ c # s) = w # split_on c s"
  by (induction w) auto

lemma split_on_join:
  "ws \<noteq> [] \<Longrightarrow> (\<And>w. w \<in> set ws \<Longrightarrow> c \<notin> set w) \<Longrightarrow> split_on c (join [c] ws) = ws"
proof (induction ws rule: induct_list012)
  case (3 w x ws)
  then have "split_on c (w @ c # join [c] (x # ws)) = w # split_on c (join [c] (x # ws))"
    by (intro split_on_append) simp
  with 3 show ?case by simp
qed (auto simp: split_on_no)

subsection \<open>Numerals\<close>

text \<open>\<open>Number.prototype.toString(base)\<close> of a natural number, with lower-case letters.\<close>

definition digit_char :: "nat \<Rightarrow> char" where
  "digit_char d = (if d < 10 then char_of (48 + d) else char_of (87 + d))"

fun nat_to_base :: "nat \<Rightarrow> nat \<Rightarrow> string" where
  "nat_to_base b n =
     (if n < b \<or> b < 2 then [digit_char n] else nat_to_base b (n div b) @ [digit_char (n mod b)])"

declare nat_to_base.simps [simp del]

definition nat_to_string :: "nat \<Rightarrow> string" where
  "nat_to_string n = nat_to_base 10 n"

definition int_to_string :: "int \<Rightarrow> string" where
  "int_to_string i = (if i < 0 then ''-'' @ nat_to_string (nat (- i)) else nat_to_string (nat i))"

text \<open>\<open>parseInt(s, 10)\<close> of a string of decimal digits.\<close>

definition digit_val :: "char \<Rightarrow> nat" where
  "digit_val c = of_char c - 48"

definition parse_digits :: "string \<Rightarrow> nat" where
  "parse_digits s = foldl (\<lambda>n c. 10 * n + digit_val c) 0 s"

lemma nat_to_base_not_Nil [simp]: "nat_to_base b n \<noteq> []"
  by (subst nat_to_base.simps) simp

lemma nat_to_string_not_Nil [simp]: "nat_to_string n \<noteq> []"
  by (simp add: nat_to_string_def)

lemma digit_val_digit_char [simp]: "d < 10 \<Longrightarrow> digit_val (digit_char d) = d"
  by (simp add: digit_val_def digit_char_def)

lemma is_digit_digit_char [simp]: "d < 10 \<Longrightarrow> is_digit_char (digit_char d)"
  by (simp add: is_digit_char_def digit_char_def less_eq_char_def)

lemma parse_nat_to_string [simp, js_string]: "parse_digits (nat_to_string n) = n"
proof -
  have "b = 10 \<Longrightarrow> parse_digits (nat_to_base b n) = n" for b
  proof (induction b n rule: nat_to_base.induct)
    case (1 b n)
    then show ?case
      by (subst nat_to_base.simps) (auto simp: parse_digits_def)
  qed
  then show ?thesis by (simp add: nat_to_string_def)
qed

lemma nat_to_string_inj: "nat_to_string m = nat_to_string n \<longleftrightarrow> m = n"
  by (metis parse_nat_to_string)

lemma nat_to_base_digits: "b = 10 \<Longrightarrow> \<forall>c \<in> set (nat_to_base b n). is_digit_char c"
proof (induction b n rule: nat_to_base.induct)
  case (1 b n)
  then show ?case by (subst nat_to_base.simps) auto
qed

lemma nat_to_string_digits [js_string]: "c \<in> set (nat_to_string n) \<Longrightarrow> is_digit_char c"
  using nat_to_base_digits by (simp add: nat_to_string_def)

lemma takeWhile_nat_to_string [simp]: "takeWhile is_digit_char (nat_to_string n) = nat_to_string n"
  by (auto simp: takeWhile_eq_all_conv dest: nat_to_string_digits)

lemma dropWhile_nat_to_string [simp]: "dropWhile is_digit_char (nat_to_string n) = []"
  by (auto simp: dropWhile_eq_Nil_conv dest: nat_to_string_digits)

subsection \<open>String order and fixed-width numerals\<close>

text \<open>The order \<open><\<close> of strings, by code units.\<close>

fun str_less :: "string \<Rightarrow> string \<Rightarrow> bool" where
  "str_less [] t = (t \<noteq> [])"
| "str_less (a # s) [] = False"
| "str_less (a # s) (b # t) = (a < b \<or> a = b \<and> str_less s t)"

lemma str_less_append_same [simp, js_string]: "str_less (p @ s) (p @ t) = str_less s t"
  by (induction p) auto

fun hex_digits :: "nat \<Rightarrow> nat \<Rightarrow> string" where
  "hex_digits 0 n = []"
| "hex_digits (Suc k) n = hex_digits k (n div 16) @ [digit_char (n mod 16)]"

lemma length_hex_digits [simp]: "length (hex_digits k n) = k"
  by (induction k arbitrary: n) auto

lemma digit_char_0 [simp]: "digit_char 0 = CHR ''0''"
  by code_simp

lemma hex_digits_0: "hex_digits k 0 = replicate k CHR ''0''"
  by (induction k) (simp_all add: replicate_append_same)

lemma pad_start_hex: "n < 16 ^ Suc k \<Longrightarrow> pad_start (Suc k) CHR ''0'' (nat_to_base 16 n) = hex_digits (Suc k) n"
proof (induction k arbitrary: n)
  case 0
  then show ?case by (subst nat_to_base.simps) (simp add: pad_start_def)
next
  case (Suc k)
  show ?case
  proof (cases "n < 16")
    case True
    then have "nat_to_base 16 n = [digit_char n]" by (subst nat_to_base.simps) simp
    with True show ?thesis
      by (simp add: pad_start_def hex_digits_0 replicate_append_same)
  next
    case False
    then have "nat_to_base 16 n = nat_to_base 16 (n div 16) @ [digit_char (n mod 16)]"
      by (subst nat_to_base.simps) simp
    moreover have "n div 16 < 16 ^ Suc k" using Suc.prems by simp
    note Suc.IH[OF this]
    ultimately show ?thesis by (simp add: pad_start_def)
  qed
qed

lemma digit_char_mono: "d < e \<Longrightarrow> e < 16 \<Longrightarrow> digit_char d < digit_char e"
  by (simp add: digit_char_def less_char_def)

lemma str_less_hex_digits:
  "a < b \<Longrightarrow> b < 16 ^ k \<Longrightarrow> str_less (hex_digits k a @ s) (hex_digits k b @ t)"
proof (induction k arbitrary: a b s t)
  case (Suc k)
  show ?case
  proof (cases "a div 16 < b div 16")
    case True
    then show ?thesis using Suc.IH[of "a div 16" "b div 16"] Suc.prems(2) by simp
  next
    case False
    then have eq: "a div 16 = b div 16" using Suc.prems(1) div_le_mono[of a b 16] by simp
    then have "a mod 16 < b mod 16"
      using Suc.prems(1) by (metis div_mult_mod_eq nat_add_left_cancel_less)
    then show ?thesis using digit_char_mono by (simp add: eq)
  qed
qed simp

section \<open>JavaScript Map objects\<close>

text \<open>
  A \<open>Map\<close> iterates in insertion order; \<open>set\<close> on a present key keeps its place, and
  \<open>delete\<close> then \<open>set\<close> moves it to the end.
\<close>

type_synonym ('k, 'v) jsmap = "('k \<times> 'v) list"

fun jm_get :: "('k, 'v) jsmap \<Rightarrow> 'k \<Rightarrow> 'v option" where
  "jm_get [] k = None"
| "jm_get ((a, v) # m) k = (if a = k then Some v else jm_get m k)"

fun jm_set :: "'k \<Rightarrow> 'v \<Rightarrow> ('k, 'v) jsmap \<Rightarrow> ('k, 'v) jsmap" where
  "jm_set k v [] = [(k, v)]"
| "jm_set k v ((a, w) # m) = (if a = k then (a, v) # m else (a, w) # jm_set k v m)"

definition jm_delete :: "'k \<Rightarrow> ('k, 'v) jsmap \<Rightarrow> ('k, 'v) jsmap" where
  "jm_delete k m = filter (\<lambda>(a, _). a \<noteq> k) m"

definition jm_has :: "('k, 'v) jsmap \<Rightarrow> 'k \<Rightarrow> bool" where
  "jm_has m k \<longleftrightarrow> jm_get m k \<noteq> None"

definition jm_keys :: "('k, 'v) jsmap \<Rightarrow> 'k list" where
  "jm_keys m = map fst m"

definition jm_wf :: "('k, 'v) jsmap \<Rightarrow> bool" where
  "jm_wf m \<longleftrightarrow> distinct (jm_keys m)"

lemma jm_get_set [simp, js_map]: "jm_get (jm_set k v m) a = (if a = k then Some v else jm_get m a)"
  by (induction k v m rule: jm_set.induct) auto

lemma jm_get_delete [simp, js_map]: "jm_get (jm_delete k m) a = (if a = k then None else jm_get m a)"
  by (induction m) (auto simp: jm_delete_def)

lemma jm_get_filter:
  "jm_wf m \<Longrightarrow> jm_get (filter (\<lambda>(k, v). P k v) m) a
     = (case jm_get m a of None \<Rightarrow> None | Some v \<Rightarrow> if P a v then Some v else None)"
proof (induction m)
  case (Cons p m)
  have "a \<notin> fst ` set m \<Longrightarrow> jm_get m a = None" for m :: "('a, 'b) jsmap"
    by (induction m) auto
  with Cons show ?case
    by (cases p) (auto simp: jm_wf_def jm_keys_def split: option.splits)
qed simp

lemma jm_get_None_iff: "jm_get m k = None \<longleftrightarrow> k \<notin> set (jm_keys m)"
proof (induction m)
  case (Cons p m)
  then show ?case by (cases p) (auto simp: jm_keys_def)
qed (simp add: jm_keys_def)

lemma jm_has_iff: "jm_has m k \<longleftrightarrow> k \<in> set (jm_keys m)"
  by (simp add: jm_has_def jm_get_None_iff)

lemma jm_keys_set [js_map]:
  "jm_keys (jm_set k v m) = (if k \<in> set (jm_keys m) then jm_keys m else jm_keys m @ [k])"
proof (induction m)
  case (Cons p m)
  then show ?case by (cases p) (auto simp: jm_keys_def)
qed (simp add: jm_keys_def)

lemma jm_keys_delete [js_map]: "jm_keys (jm_delete k m) = filter (\<lambda>a. a \<noteq> k) (jm_keys m)"
  by (induction m) (auto simp: jm_keys_def jm_delete_def)

lemma jm_wf_Nil [simp, intro]: "jm_wf []"
  by (simp add: jm_wf_def jm_keys_def)

lemma jm_wf_set [simp, intro]: "jm_wf m \<Longrightarrow> jm_wf (jm_set k v m)"
  by (simp add: jm_wf_def jm_keys_set)

lemma jm_wf_delete [simp, intro]: "jm_wf m \<Longrightarrow> jm_wf (jm_delete k m)"
  by (simp add: jm_wf_def jm_keys_delete)

lemma jm_wf_filter [simp, intro]: "jm_wf m \<Longrightarrow> jm_wf (filter P m)"
  by (simp add: jm_wf_def jm_keys_def distinct_map_filter)

subsection \<open>The contract of a keyed store\<close>

text \<open>
  What the components rely on when they keep state in a \<open>Map\<close>: lookups after the three
  mutating operations and the set of keys. The client lemmas are proved here once.
\<close>

locale keyed_store =
  fixes get :: "'m \<Rightarrow> 'k \<Rightarrow> 'v option"
    and put :: "'k \<Rightarrow> 'v \<Rightarrow> 'm \<Rightarrow> 'm"
    and del :: "'k \<Rightarrow> 'm \<Rightarrow> 'm"
    and keys :: "'m \<Rightarrow> 'k list"
    and ok :: "'m \<Rightarrow> bool"
  assumes get_put: "get (put k v m) a = (if a = k then Some v else get m a)"
    and get_del: "get (del k m) a = (if a = k then None else get m a)"
    and keys_iff: "a \<in> set (keys m) \<longleftrightarrow> get m a \<noteq> None"
    and ok_put: "ok m \<Longrightarrow> ok (put k v m)"
    and ok_del: "ok m \<Longrightarrow> ok (del k m)"
    and ok_distinct: "ok m \<Longrightarrow> distinct (keys m)"
begin

text \<open>Registering a list of entries in order: the last one for a key wins.\<close>

lemma get_fold_put:
  "get (fold (\<lambda>(k, v). put k v) kvs m) a
     = (case map_of (rev kvs) a of None \<Rightarrow> get m a | Some v \<Rightarrow> Some v)"
  by (induction kvs arbitrary: m) (auto simp: get_put map_add_def split: option.splits)

lemma ok_fold_put: "ok m \<Longrightarrow> ok (fold (\<lambda>(k, v). put k v) kvs m)"
  by (induction kvs arbitrary: m) (auto intro: ok_put)

lemma keys_put: "set (keys (put k v m)) = insert k (set (keys m))"
  by (auto simp: keys_iff get_put split: if_splits)

lemma keys_del: "set (keys (del k m)) = set (keys m) - {k}"
  by (auto simp: keys_iff get_del split: if_splits)

lemma length_keys_put:
  "ok m \<Longrightarrow> length (keys (put k v m)) = (if get m k = None then Suc (length (keys m)) else length (keys m))"
proof -
  assume "ok m"
  then have "length (keys (put k v m)) = card (set (keys (put k v m)))"
    and "length (keys m) = card (set (keys m))"
    by (simp_all add: distinct_card ok_distinct ok_put)
  then show ?thesis
    by (auto simp: keys_put keys_iff insert_absorb)
qed

end

interpretation jm: keyed_store jm_get jm_set jm_delete jm_keys jm_wf
proof unfold_locales
  show "a \<in> set (jm_keys m) \<longleftrightarrow> jm_get m a \<noteq> None" for a and m :: "('k, 'v) jsmap"
    by (simp add: jm_get_None_iff)
qed (auto simp: jm_wf_def jm_keys_set jm_keys_delete)

text \<open>Object spread \<open>{...a, ...b}\<close>: later properties overwrite earlier ones in place.\<close>

definition jm_spread :: "('k, 'v) jsmap \<Rightarrow> ('k, 'v) jsmap \<Rightarrow> ('k, 'v) jsmap" where
  "jm_spread a b = foldl (\<lambda>m (k, v). jm_set k v m) a b"

lemma jm_get_spread [js_map]:
  "jm_wf b \<Longrightarrow> jm_get (jm_spread a b) k = (case jm_get b k of Some v \<Rightarrow> Some v | None \<Rightarrow> jm_get a k)"
proof (induction b arbitrary: a)
  case (Cons kv b)
  obtain k' v' where kv: "kv = (k', v')" by fastforce
  have wf: "jm_wf b" and no: "jm_get b k' = None"
    using Cons.prems by (auto simp: kv jm_wf_def jm_get_None_iff jm_keys_def)
  have "jm_get (jm_spread a (kv # b)) k = jm_get (jm_spread (jm_set k' v' a) b) k"
    by (simp add: jm_spread_def kv)
  with Cons.IH[OF wf] no show ?case by (auto simp: kv split: option.splits)
qed (simp add: jm_spread_def)

lemma jm_spread_wf: "jm_wf a \<Longrightarrow> jm_wf (jm_spread a b)"
  by (induction b arbitrary: a) (auto simp: jm_spread_def intro: jm_wf_set)

text \<open>
  The \<open>in\<close> operator also sees what every plain object inherits: the names below are in every
  object literal, with values that are functions or objects.
\<close>

definition prototype_keys :: "string list" where
  "prototype_keys = [''constructor'', ''toString'', ''toLocaleString'', ''valueOf'', ''hasOwnProperty'',
     ''isPrototypeOf'', ''propertyIsEnumerable'', ''__proto__'', ''__defineGetter__'',
     ''__defineSetter__'', ''__lookupGetter__'', ''__lookupSetter__'']"

datatype 'v property = Own 'v | Inherited | Undefined

definition get_property :: "(string, 'v) jsmap \<Rightarrow> string \<Rightarrow> 'v property" where
  "get_property obj k =
     (case jm_get obj k of Some v \<Rightarrow> Own v | None \<Rightarrow> if k \<in> set prototype_keys then Inherited else Undefined)"

definition in_object :: "string \<Rightarrow> (string, 'v) jsmap \<Rightarrow> bool" where
  "in_object k obj \<longleftrightarrow> jm_has obj k \<or> k \<in> set prototype_keys"

section \<open>JSON values\<close>

datatype json =
    JNull
  | JBool bool
  | JNum rat
  | JStr string
  | JArr "json list"
  | JObj "(string \<times> json) list"

text \<open>Property lookup on an object; other values and absent keys give \<open>undefined\<close>.\<close>

fun jget :: "json \<Rightarrow> string \<Rightarrow> json option" where
  "jget (JObj fs) k = jm_get fs k"
| "jget _ k = None"

end
