(* ===== verification/Errors.thy ===== *)
theory Errors
  imports Prelude
begin

text \<open>
  Error values (packages/core/src/errors.ts). An error object carries the fields the HTTP layer
  reads; \<open>err_is_intellibiz\<close> is the outcome of \<open>instanceof IntellibizError\<close>. The creation
  timestamp, the cause and the stack are not read by any component and are left out. Characters
  beyond ASCII in a message appear as their UTF-8 bytes.
\<close>

record js_error =
  err_name :: string
  err_message :: string
  err_code :: "string option"
  err_status :: "int option"
  err_details :: "json option"
  err_is_intellibiz :: bool

text \<open>What a \<open>throw\<close> can throw: an \<open>Error\<close> object or any other value.\<close>

datatype thrown = Err js_error | ThrownValue json

type_synonym 'a result = "thrown + 'a"

text \<open>\<open>new Error(message)\<close> and its built-in subclasses.\<close>

definition plain_error :: "string \<Rightarrow> string \<Rightarrow> js_error" where
  "plain_error name msg = \<lparr>err_name = name, err_message = msg, err_code = None,
     err_status = None, err_details = None, err_is_intellibiz = False\<rparr>"

text \<open>\<open>Object.assign(new Error(message), { code, status })\<close>.\<close>

definition coded_error :: "string \<Rightarrow> string \<Rightarrow> int \<Rightarrow> js_error" where
  "coded_error msg code status = \<lparr>err_name = ''Error'', err_message = msg, err_code = Some code,
     err_status = Some status, err_details = None, err_is_intellibiz = False\<rparr>"

section \<open>The base class\<close>

record error_options =
  opt_code :: string
  opt_message :: string
  opt_status :: int
  opt_details :: "json option"

definition IntellibizError :: "error_options \<Rightarrow> js_error" where
  "IntellibizError options = \<lparr>err_name = ''IntellibizError'', err_message = opt_message options,
     err_code = Some (opt_code options), err_status = Some (opt_status options),
     err_details = opt_details options, err_is_intellibiz = True\<rparr>"

text \<open>Property values that are \<open>undefined\<close> are dropped when the object is serialised.\<close>

definition opt_field :: "string \<Rightarrow> json option \<Rightarrow> (string \<times> json) list" where
  "opt_field k v = (case v of None \<Rightarrow> [] | Some j \<Rightarrow> [(k, j)])"

definition toJSON :: "js_error \<Rightarrow> json" where
  "toJSON e = JObj (opt_field ''error'' (map_option JStr (err_code e)) @
     [(''message'', JStr (err_message e))] @
     opt_field ''status'' (map_option (\<lambda>s. JNum (of_int s)) (err_status e)) @
     opt_field ''details'' (err_details e))"

definition error_toString :: "js_error \<Rightarrow> string" where
  "error_toString e = err_name e @ ''['' @
     (case err_code e of Some c \<Rightarrow> c | None \<Rightarrow> ''undefined'') @ '']: '' @ err_message e"

section \<open>Core errors\<close>

text \<open>An absent or empty string is falsy.\<close>

definition truthy :: "string option \<Rightarrow> bool" where
  "truthy s \<longleftrightarrow> s \<noteq> None \<and> s \<noteq> Some []"

definition ContextMissingError :: "string option \<Rightarrow> js_error" where
  "ContextMissingError hint = (IntellibizError
     \<lparr>opt_code = ''CONTEXT_MISSING'',
      opt_message = (if truthy hint then ''No active Intellibiz context: '' @ the hint
        else ''No active Intellibiz context. Ensure this code runs inside defineAction, an http handler, or a job worker.''),
      opt_status = 500, opt_details = None\<rparr>)\<lparr>err_name := ''ContextMissingError''\<rparr>"

definition ConfigValidationError :: "string \<Rightarrow> json option \<Rightarrow> js_error" where
  "ConfigValidationError message details = (IntellibizError
     \<lparr>opt_code = ''CONFIG_VALIDATION_ERROR'', opt_message = message,
      opt_status = 500, opt_details = details\<rparr>)\<lparr>err_name := ''ConfigValidationError''\<rparr>"

definition ConfigDependencyError :: "string \<Rightarrow> string \<Rightarrow> js_error" where
  "ConfigDependencyError flag requires = (IntellibizError
     \<lparr>opt_code = ''CONFIG_DEPENDENCY_ERROR'',
      opt_message = [quote_char] @ flag @ [quote_char] @ '' requires '' @ [quote_char] @ requires @
        [quote_char] @ '' to also be configured. Check your intellibiz.config.ts.'',
      opt_status = 500,
      opt_details = Some (JObj [(''flag'', JStr flag), (''requires'', JStr requires)])\<rparr>)
     \<lparr>err_name := ''ConfigDependencyError''\<rparr>"

definition StrictTenancyViolationError :: "string option \<Rightarrow> js_error" where
  "StrictTenancyViolationError table = (IntellibizError
     \<lparr>opt_code = ''STRICT_TENANCY_VIOLATION'',
      opt_message = (if truthy table
        then ''Query on '' @ [quote_char] @ the table @ [quote_char] @
          '' requires an active tenant context. Either pass a tenant or set tenancy.strict: false.''
        else ''Query requires an active tenant context. Set tenancy.strict: false to disable this check.''),
      opt_status = 500,
      opt_details = (if truthy table then Some (JObj [(''table'', JStr (the table))]) else None)\<rparr>)
     \<lparr>err_name := ''StrictTenancyViolationError''\<rparr>"

definition PluginLoadError :: "string \<Rightarrow> string \<Rightarrow> js_error" where
  "PluginLoadError pluginName reason = (IntellibizError
     \<lparr>opt_code = ''PLUGIN_LOAD_ERROR'',
      opt_message = ''Plugin '' @ [quote_char] @ pluginName @ [quote_char] @ '' failed to load: '' @ reason,
      opt_status = 500,
      opt_details = Some (JObj [(''pluginName'', JStr pluginName), (''reason'', JStr reason)])\<rparr>)
     \<lparr>err_name := ''PluginLoadError''\<rparr>"

text \<open>Characters outside ASCII stand as their UTF-8 bytes.\<close>

definition em_dash :: string where
  "em_dash = [CHR 0xE2, CHR 0x80, CHR 0x94]"

definition arrow_sep :: string where
  "arrow_sep = '' '' @ [CHR 0xE2, CHR 0x86, CHR 0x92] @ '' ''"

definition PluginCircularDependencyError :: "string list \<Rightarrow> js_error" where
  "PluginCircularDependencyError cycle = (IntellibizError
     \<lparr>opt_code = ''PLUGIN_CIRCULAR_DEPENDENCY'',
      opt_message = ''Circular dependency detected in plugins: '' @ join arrow_sep cycle,
      opt_status = 500,
      opt_details = Some (JObj [(''cycle'', JArr (map JStr cycle))])\<rparr>)
     \<lparr>err_name := ''PluginCircularDependencyError''\<rparr>"

definition ActionValidationError :: "(string \<times> string) list \<Rightarrow> js_error" where
  "ActionValidationError issues = (IntellibizError
     \<lparr>opt_code = ''ACTION_VALIDATION_ERROR'',
      opt_message = ''Action input validation failed.'',
      opt_status = 422,
      opt_details = Some (JObj [(''issues'', JArr (map (\<lambda>(path, message).
        JObj [(''path'', JStr path), (''message'', JStr message)]) issues))])\<rparr>)
     \<lparr>err_name := ''ActionValidationError''\<rparr>"

lemmas core_error_defs =
  ContextMissingError_def ConfigValidationError_def ConfigDependencyError_def
  StrictTenancyViolationError_def PluginLoadError_def PluginCircularDependencyError_def
  ActionValidationError_def IntellibizError_def

text \<open>Every error class of the core package is an \<open>IntellibizError\<close> with a code and a status.\<close>

lemma core_errors_intellibiz [simp]:
  "err_is_intellibiz (ContextMissingError h)"
  "err_is_intellibiz (ConfigValidationError m d)"
  "err_is_intellibiz (ConfigDependencyError f r)"
  "err_is_intellibiz (StrictTenancyViolationError t)"
  "err_is_intellibiz (PluginLoadError n r)"
  "err_is_intellibiz (PluginCircularDependencyError c)"
  "err_is_intellibiz (ActionValidationError is)"
  by (simp_all add: core_error_defs)

end
