(* ===== verification/Dedup.thy ===== *)
theory Dedup
  imports Errors "HOL-Library.Multiset"
begin

text \<open>
  Webhook deduplication (packages/commerce/src/webhooks/dedup.ts): the cache of processed event
  identifiers with its time to live, the handler registry and the pipeline \<open>processWebhook\<close>. Every
  reading of the clock is an argument. A handler acts on a world \<open>'w\<close>, may throw, and does not itself
  call the pipeline; between the start of a handler and its end other deliveries may run, which the
  step relation at the end shows.
\<close>

section \<open>The cache\<close>

definition DEFAULT_TTL_MS :: int where "DEFAULT_TTL_MS = 24 * 60 * 60 * 1000"

record cache_entry =
  ce_processedAt :: int
  ce_expiresAt :: int

type_synonym dedup_cache = "(string, cache_entry) jsmap"

definition dedup_key :: "string \<Rightarrow> string" where
  "dedup_key eventId = ''ibiz_wh_evt_'' @ eventId"

definition evictExpired :: "int \<Rightarrow> dedup_cache \<Rightarrow> dedup_cache" where
  "evictExpired now cache = filter (\<lambda>(key, entry). \<not> ce_expiresAt entry < now) cache"

definition isDuplicate :: "int \<Rightarrow> int \<Rightarrow> string \<Rightarrow> dedup_cache \<Rightarrow> bool \<times> dedup_cache" where
  "isDuplicate now now' eventId cache =
     (let c = evictExpired now cache
      in (case jm_get c (dedup_key eventId) of
            None \<Rightarrow> False
          | Some entry \<Rightarrow> now' < ce_expiresAt entry, c))"

definition markProcessed :: "int \<Rightarrow> int \<Rightarrow> string \<Rightarrow> dedup_cache \<Rightarrow> dedup_cache" where
  "markProcessed now ttlMs eventId cache =
     jm_set (dedup_key eventId) \<lparr>ce_processedAt = now, ce_expiresAt = now + ttlMs\<rparr> cache"

definition clearWebhookCache :: "dedup_cache \<Rightarrow> dedup_cache" where
  "clearWebhookCache cache = []"

section \<open>Handlers and the pipeline\<close>

record webhook_event =
  we_type :: string
  we_payload :: "(string, json) jsmap"
  we_eventId :: string
  we_provider :: string

type_synonym 'w webhook_handler = "webhook_event \<Rightarrow> 'w \<Rightarrow> unit result \<times> 'w"

definition handle_webhook ::
    "string \<Rightarrow> 'w webhook_handler \<Rightarrow> (string, 'w webhook_handler) jsmap \<Rightarrow> (string, 'w webhook_handler) jsmap" where
  "handle_webhook provider handler handlers = jm_set provider handler handlers"

datatype webhook_result = Processed | Duplicate | NoHandler

record 'w webhooks =
  wh_cache :: dedup_cache
  wh_handlers :: "(string, 'w webhook_handler) jsmap"
  wh_world :: 'w

text \<open>The clock readings of one call: eviction, the comparison, and the mark after the handler.\<close>

record readings =
  t_evict :: int
  t_check :: int
  t_mark :: int

definition processWebhook :: "readings \<Rightarrow> webhook_event \<Rightarrow> 'w webhooks \<Rightarrow> webhook_result result \<times> 'w webhooks" where
  "processWebhook t event st =
     (let (dup, c) = isDuplicate (t_evict t) (t_check t) (we_eventId event) (wh_cache st);
          st1 = st\<lparr>wh_cache := c\<rparr>
      in if dup then (Inr Duplicate, st1)
         else (case jm_get (wh_handlers st) (we_provider event) of
                 None \<Rightarrow> (Inr NoHandler, st1)
               | Some handler \<Rightarrow>
                   (case handler event (wh_world st1) of
                      (Inl e, w) \<Rightarrow> (Inl e, st1\<lparr>wh_world := w\<rparr>)
                    | (Inr _, w) \<Rightarrow>
                        (Inr Processed,
                         st1\<lparr>wh_world := w,
                             wh_cache := markProcessed (t_mark t) DEFAULT_TTL_MS (we_eventId event) c\<rparr>))))"

text \<open>Deliveries one after the other.\<close>

fun run_webhooks :: "(readings \<times> webhook_event) list \<Rightarrow> 'w webhooks \<Rightarrow> webhook_result result list \<times> 'w webhooks" where
  "run_webhooks [] st = ([], st)"
| "run_webhooks ((t, event) # ds) st =
     (let (r, st1) = processWebhook t event st; (rs, st2) = run_webhooks ds st1 in (r # rs, st2))"

section \<open>The contract: a set of processed identifiers\<close>

text \<open>
  What the pipeline promises, without a cache or a clock: an event whose identifier is in the set
  is a duplicate; any other goes to its handler, and joins the set when the handler returns.
\<close>

definition spec_webhook ::
    "(string, 'w webhook_handler) jsmap \<Rightarrow> webhook_event \<Rightarrow> string set \<times> 'w \<Rightarrow> webhook_result result \<times> string set \<times> 'w" where
  "spec_webhook handlers event s =
     (if we_eventId event \<in> fst s then (Inr Duplicate, s)
      else (case jm_get handlers (we_provider event) of
              None \<Rightarrow> (Inr NoHandler, s)
            | Some handler \<Rightarrow>
                (case handler event (snd s) of
                   (Inl e, w) \<Rightarrow> (Inl e, fst s, w)
                 | (Inr _, w) \<Rightarrow> (Inr Processed, insert (we_eventId event) (fst s), w))))"

fun run_spec ::
    "(string, 'w webhook_handler) jsmap \<Rightarrow> webhook_event list \<Rightarrow> string set \<times> 'w \<Rightarrow> webhook_result result list \<times> string set \<times> 'w" where
  "run_spec handlers [] s = ([], s)"
| "run_spec handlers (event # es) s =
     (let (r, s1) = spec_webhook handlers event s; (rs, s2) = run_spec handlers es s1 in (r # rs, s2))"

text \<open>The readings lie in the window \<open>[t0, t0 + 24h)\<close>.\<close>

definition in_window :: "int \<Rightarrow> readings \<Rightarrow> bool" where
  "in_window t0 t \<longleftrightarrow> list_all (\<lambda>x. t0 \<le> x \<and> x < t0 + DEFAULT_TTL_MS) [t_evict t, t_check t, t_mark t]"

definition cache_abs :: "int \<Rightarrow> dedup_cache \<Rightarrow> string set \<Rightarrow> bool" where
  "cache_abs t0 cache seen \<longleftrightarrow> jm_wf cache \<and>
     (\<forall>i. i \<in> seen \<longleftrightarrow> jm_get cache (dedup_key i) \<noteq> None) \<and>
     (\<forall>k e. jm_get cache k = Some e \<longrightarrow> t0 + DEFAULT_TTL_MS \<le> ce_expiresAt e)"

lemma dedup_key_inj [simp]: "dedup_key a = dedup_key b \<longleftrightarrow> a = b"
  by (simp add: dedup_key_def)

lemma cache_abs_empty [simp]: "cache_abs t0 [] {}"
  by (simp add: cache_abs_def)

lemma evict_in_window:
  assumes c: "cache_abs t0 cache seen" and "now < t0 + DEFAULT_TTL_MS"
  shows "cache_abs t0 (evictExpired now cache) seen"
proof -
  have "jm_get (evictExpired now cache) k = jm_get cache k" for k
  proof (cases "jm_get cache k")
    case (Some e)
    then have "t0 + DEFAULT_TTL_MS \<le> ce_expiresAt e" using c by (simp add: cache_abs_def)
    then have "\<not> ce_expiresAt e < now" using assms(2) by simp
    with Some c show ?thesis by (simp add: evictExpired_def cache_abs_def jm_get_filter)
  qed (use assms in \<open>simp add: evictExpired_def cache_abs_def jm_get_filter\<close>)
  then show ?thesis
    using assms by (simp add: cache_abs_def) (simp add: evictExpired_def)
qed

lemma isDuplicate_in_window:
  assumes "cache_abs t0 cache seen" and "in_window t0 t"
  shows "fst (isDuplicate (t_evict t) (t_check t) i cache) \<longleftrightarrow> i \<in> seen"
    and "cache_abs t0 (snd (isDuplicate (t_evict t) (t_check t) i cache)) seen"
proof -
  have c: "cache_abs t0 (evictExpired (t_evict t) cache) seen"
    using assms by (intro evict_in_window) (auto simp: in_window_def)
  show "fst (isDuplicate (t_evict t) (t_check t) i cache) \<longleftrightarrow> i \<in> seen"
  proof (cases "jm_get (evictExpired (t_evict t) cache) (dedup_key i)")
    case None
    with c show ?thesis by (simp add: isDuplicate_def cache_abs_def)
  next
    case (Some e)
    with c have "i \<in> seen" "t0 + DEFAULT_TTL_MS \<le> ce_expiresAt e" by (simp_all add: cache_abs_def)
    with Some assms(2) show ?thesis by (simp add: isDuplicate_def in_window_def)
  qed
  from c show "cache_abs t0 (snd (isDuplicate (t_evict t) (t_check t) i cache)) seen"
    by (simp add: isDuplicate_def Let_def)
qed

lemma mark_in_window:
  "cache_abs t0 cache seen \<Longrightarrow> t0 \<le> now \<Longrightarrow>
    cache_abs t0 (markProcessed now DEFAULT_TTL_MS i cache) (insert i seen)"
  by (auto simp: cache_abs_def markProcessed_def)

lemma processWebhook_refines:
  assumes c: "cache_abs t0 (wh_cache st) seen" and w: "in_window t0 t"
    and p: "processWebhook t event st = (r, st')"
  shows "\<exists>seen'. spec_webhook (wh_handlers st) event (seen, wh_world st) = (r, seen', wh_world st') \<and>
    cache_abs t0 (wh_cache st') seen' \<and> wh_handlers st' = wh_handlers st"
proof -
  obtain dup c' where d: "isDuplicate (t_evict t) (t_check t) (we_eventId event) (wh_cache st) = (dup, c')"
    by fastforce
  with isDuplicate_in_window[OF c w, of "we_eventId event"]
  have "dup \<longleftrightarrow> we_eventId event \<in> seen" "cache_abs t0 c' seen" by simp_all
  with p d mark_in_window[of t0 c' seen "t_mark t" "we_eventId event"] w show ?thesis
    by (auto simp: processWebhook_def spec_webhook_def in_window_def split: if_splits option.splits
        prod.splits sum.splits)
qed


definition processed_ids :: "webhook_result result list \<Rightarrow> webhook_event list \<Rightarrow> string list" where
  "processed_ids rs es = map (we_eventId \<circ> snd) (filter (\<lambda>(r, e). r = Inr Processed) (zip rs es))"

lemma run_spec_once:
  "run_spec handlers es (seen, w) = (rs, s') \<Longrightarrow>
    distinct (processed_ids rs es) \<and> set (processed_ids rs es) \<inter> seen = {}"
proof (induction es arbitrary: seen w rs s')
  case (Cons e es)
  obtain r seen1 w1 where p: "spec_webhook handlers e (seen, w) = (r, seen1, w1)"
    by (metis prod_cases3)
  obtain rs1 s1 where q: "run_spec handlers es (seen1, w1) = (rs1, s1)"
    by (metis prod.exhaust)
  have r: "rs = r # rs1" using Cons.prems p q by simp
  have "r = Inr Processed \<Longrightarrow> we_eventId e \<notin> seen \<and> seen1 = insert (we_eventId e) seen"
    "r \<noteq> Inr Processed \<Longrightarrow> seen1 = seen"
    using p by (auto simp: spec_webhook_def split: if_splits option.splits sum.splits prod.splits)
  with Cons.IH[OF q] show ?case
    by (auto simp: r processed_ids_def)
qed (simp add: processed_ids_def)

lemma run_webhooks_refines:
  assumes "\<And>d. d \<in> set ds \<Longrightarrow> in_window t0 (fst d)"
    and "cache_abs t0 (wh_cache st) seen" and "run_webhooks ds st = (rs, st')"
  shows "\<exists>seen'. run_spec (wh_handlers st) (map snd ds) (seen, wh_world st) = (rs, seen', wh_world st')"
  using assms
proof (induction ds arbitrary: st seen rs)
  case (Cons d ds)
  obtain t e where d: "d = (t, e)" by fastforce
  obtain r st1 where p: "processWebhook t e st = (r, st1)" by fastforce
  obtain rs1 where q: "run_webhooks ds st1 = (rs1, st')" "rs = r # rs1"
    using Cons.prems(3) by (auto simp: d p split: prod.splits)
  have "in_window t0 t" using Cons.prems(1)[of d] by (simp add: d)
  from processWebhook_refines[OF Cons.prems(2) this p] obtain seen1 where
    s: "spec_webhook (wh_handlers st) e (seen, wh_world st) = (r, seen1, wh_world st1)"
      "cache_abs t0 (wh_cache st1) seen1" "wh_handlers st1 = wh_handlers st"
    by blast
  from Cons.IH[OF _ s(2) q(1)] Cons.prems(1) obtain seen2 where
    "run_spec (wh_handlers st1) (map snd ds) (seen1, wh_world st1) = (rs1, seen2, wh_world st')"
    by auto
  with s q(2) show ?case by (simp add: d)
qed simp

text \<open>C25: webhook processing is idempotent. Sequential deliveries whose clock readings lie within
  one time-to-live give, result for result and effect for effect, what the set of processed
  identifiers gives: every identifier is handled successfully at most once, a delivery whose handler
  threw is tried again when it is sent again, and a delivery without handler is not remembered.\<close>

theorem webhooks_idempotent:
  assumes "\<And>d. d \<in> set ds \<Longrightarrow> in_window t0 (fst d)"
    and "run_webhooks ds \<lparr>wh_cache = [], wh_handlers = handlers, wh_world = w\<rparr> = (rs, st)"
  shows "(\<exists>seen. run_spec handlers (map snd ds) ({}, w) = (rs, seen, wh_world st)) \<and>
    distinct (processed_ids rs (map snd ds))"
  using run_webhooks_refines[OF assms(1) _ assms(2), of "{}"]
    run_spec_once[of handlers "map snd ds" "{}" w]
  by fastforce

definition sample_event :: "string \<Rightarrow> webhook_event" where
  "sample_event i = \<lparr>we_type = ''payment'', we_payload = [], we_eventId = i, we_provider = ''stripe''\<rparr>"

theorem webhooks_idempotent_witness:
  "let ds = [(\<lparr>t_evict = 0, t_check = 0, t_mark = 5\<rparr>, sample_event ''e1''),
       (\<lparr>t_evict = 9, t_check = 9, t_mark = 9\<rparr>, sample_event ''e1'')];
     handlers = [(''stripe'', \<lambda>e n. (Inr (), Suc n))]
   in (\<exists>seen. run_spec handlers (map snd ds) ({}, 0) = ([Inr Processed, Inr Duplicate], seen, 1 :: nat)) \<and>
      distinct (processed_ids [Inr Processed, Inr Duplicate] (map snd ds))"
proof -
  let ?ds = "[(\<lparr>t_evict = 0, t_check = 0, t_mark = 5\<rparr>, sample_event ''e1''),
       (\<lparr>t_evict = 9, t_check = 9, t_mark = 9\<rparr>, sample_event ''e1'')]"
  let ?h = "[(''stripe'', \<lambda>e n. (Inr (), Suc n))] :: (string, nat webhook_handler) jsmap"
  have "run_webhooks ?ds \<lparr>wh_cache = [], wh_handlers = ?h, wh_world = 0\<rparr>
      = ([Inr Processed, Inr Duplicate], \<lparr>wh_cache = [(dedup_key ''e1'',
           \<lparr>ce_processedAt = 5, ce_expiresAt = 5 + DEFAULT_TTL_MS\<rparr>)], wh_handlers = ?h, wh_world = 1\<rparr>)"
    by (simp add: processWebhook_def isDuplicate_def evictExpired_def markProcessed_def sample_event_def
        DEFAULT_TTL_MS_def)
  note run = this
  have "d \<in> set ?ds \<Longrightarrow> in_window 0 (fst d)" for d
    by (auto simp: in_window_def DEFAULT_TTL_MS_def)
  from webhooks_idempotent[OF this run] show ?thesis
    by (simp only: Let_def webhooks.simps)
qed

section \<open>Overlapping deliveries\<close>

text \<open>
  Handlers are asynchronous: the pipeline is its synchronous start (check, look up, call) and the
  mark when the handler's promise resolves, and other deliveries run in between.
\<close>

record wh_race =
  rc_cache :: dedup_cache
  rc_flight :: "string list"
  rc_calls :: "string list"

inductive wh_step :: "int \<Rightarrow> wh_race \<Rightarrow> wh_race \<Rightarrow> bool" for t0 where
  duplicate: "in_window t0 t \<Longrightarrow> isDuplicate (t_evict t) (t_check t) i (rc_cache s) = (True, c) \<Longrightarrow>
     wh_step t0 s (s\<lparr>rc_cache := c\<rparr>)"
| call: "in_window t0 t \<Longrightarrow> isDuplicate (t_evict t) (t_check t) i (rc_cache s) = (False, c) \<Longrightarrow>
     wh_step t0 s (s\<lparr>rc_cache := c, rc_flight := rc_flight s @ [i], rc_calls := rc_calls s @ [i]\<rparr>)"
| resolve: "in_window t0 t \<Longrightarrow> rc_flight s = xs @ i # ys \<Longrightarrow>
     wh_step t0 s (s\<lparr>rc_cache := markProcessed (t_mark t) DEFAULT_TTL_MS i (rc_cache s), rc_flight := xs @ ys\<rparr>)"
| reject: "rc_flight s = xs @ i # ys \<Longrightarrow> wh_step t0 s (s\<lparr>rc_flight := xs @ ys\<rparr>)"

lemma wh_step_seen:
  assumes "wh_step t0 s s'" and c: "cache_abs t0 (rc_cache s) seen" and "i \<in> seen"
  shows "\<exists>seen'. cache_abs t0 (rc_cache s') seen' \<and> i \<in> seen' \<and>
    count (mset (rc_calls s')) i = count (mset (rc_calls s)) i"
  using assms(1)
proof (cases rule: wh_step.cases)
  case (duplicate t j d)
  with isDuplicate_in_window(2)[OF c duplicate(2), of j] assms(3) show ?thesis by auto
next
  case (call t j d)
  with isDuplicate_in_window[OF c call(2), of j] assms(3) show ?thesis by auto
next
  case (resolve t xs j ys)
  with mark_in_window[OF c, of "t_mark t" j] assms(3) show ?thesis
    by (auto simp: in_window_def)
next
  case (reject xs j ys)
  with c assms(3) show ?thesis by auto
qed


text \<open>Two deliveries of one event that overlap are both handled: the first has not marked it yet.\<close>

lemma overlapping_deliveries_both_call:
  "\<exists>s. (wh_step t0)\<^sup>*\<^sup>* \<lparr>rc_cache = [], rc_flight = [], rc_calls = []\<rparr> s \<and>
     rc_flight s = [] \<and> rc_calls s = [i, i]"
proof -
  let ?t = "\<lparr>t_evict = t0, t_check = t0, t_mark = t0\<rparr>"
  let ?m = "markProcessed t0 DEFAULT_TTL_MS i"
  have w: "in_window t0 ?t" by (simp add: in_window_def DEFAULT_TTL_MS_def)
  have d: "isDuplicate t0 t0 i [] = (False, [])" by (simp add: isDuplicate_def evictExpired_def)
  let ?s0 = "\<lparr>rc_cache = [], rc_flight = [], rc_calls = []\<rparr>"
  let ?s1 = "\<lparr>rc_cache = [], rc_flight = [i], rc_calls = [i]\<rparr>"
  let ?s2 = "\<lparr>rc_cache = [], rc_flight = [i, i], rc_calls = [i, i]\<rparr>"
  let ?s3 = "\<lparr>rc_cache = ?m [], rc_flight = [i], rc_calls = [i, i]\<rparr>"
  let ?s4 = "\<lparr>rc_cache = ?m (?m []), rc_flight = [], rc_calls = [i, i]\<rparr>"
  have "wh_step t0 ?s0 ?s1" using wh_step.call[OF w, of i ?s0 "[]"] d by simp
  moreover have "wh_step t0 ?s1 ?s2" using wh_step.call[OF w, of i ?s1 "[]"] d by simp
  moreover have "wh_step t0 ?s2 ?s3" using wh_step.resolve[OF w, of ?s2 "[]" i "[i]"] by simp
  moreover have "wh_step t0 ?s3 ?s4" using wh_step.resolve[OF w, of ?s3 "[]" i "[]"] by simp
  ultimately have "(wh_step t0)\<^sup>*\<^sup>* ?s0 ?s4"
    by (meson converse_rtranclp_into_rtranclp rtranclp.rtrancl_refl)
  then show ?thesis by (intro exI[of _ ?s4]) simp
qed


end
