(* ===== verification/Rounding.thy ===== *)
theory Rounding
  imports Prelude
begin

text \<open>
  Rounding of rationals: to the nearest integer with ties to even, to a number of significant
  digits in any base (28 decimal digits for decimal arithmetic, 53 binary digits for the number
  type of the language), and the exactness and error lemmas the monetary proofs use.
\<close>

section \<open>Digits and magnitude\<close>

fun ndigits :: "nat \<Rightarrow> nat \<Rightarrow> nat" where
  "ndigits b n = (if n < b \<or> b < 2 then 1 else Suc (ndigits b (n div b)))"

declare ndigits.simps [simp del]

lemma ndigits_pos [simp]: "0 < ndigits b n"
  by (subst ndigits.simps) simp

lemma ndigits_bounds: "2 \<le> b \<Longrightarrow> 0 < n \<Longrightarrow> b ^ (ndigits b n - 1) \<le> n \<and> n < b ^ ndigits b n"
proof (induction b n rule: ndigits.induct)
  case (1 b n)
  show ?case
  proof (cases "n < b")
    case True
    with "1.prems" show ?thesis by (subst (1 2) ndigits.simps) simp
  next
    case False
    then have "0 < n div b" using "1.prems" by (simp add: div_greater_zero_iff)
    with False "1.prems" have IH: "b ^ (ndigits b (n div b) - 1) \<le> n div b"
        "n div b < b ^ ndigits b (n div b)"
      using "1.IH" by auto
    have eq: "ndigits b n = Suc (ndigits b (n div b))"
      using False "1.prems" by (subst ndigits.simps) simp
    have "b * b ^ (ndigits b (n div b) - 1) \<le> b * (n div b)"
      using IH(1) by simp
    also have "\<dots> \<le> n" by simp
    finally have lo: "b ^ ndigits b (n div b) \<le> n"
      by (metis Suc_pred' ndigits_pos power_Suc)
    have "n < b ^ ndigits b (n div b) * b"
      using IH(2) "1.prems" by (simp add: div_less_iff_less_mult)
    with lo show ?thesis by (simp add: eq mult.commute)
  qed
qed

text \<open>\<open>expo b r\<close> is the exponent of the leading base-\<open>b\<close> digit of \<open>r\<close>.\<close>

definition expo :: "nat \<Rightarrow> rat \<Rightarrow> int" where
  "expo b r =
     (let (n, d) = quotient_of \<bar>r\<bar>; e = int (ndigits b (nat n)) - int (ndigits b (nat d))
      in if of_nat b powi e \<le> \<bar>r\<bar> then e else e - 1)"

lemma quotient_of_pos:
  "0 < r \<Longrightarrow> quotient_of r = (n, d) \<Longrightarrow> 0 < n \<and> 0 < d \<and> r = of_int n / of_int d"
  using quotient_of_denom_pos[of r n d] quotient_of_div[of r n d]
  by (auto simp: zero_less_divide_iff)

lemma expo_bounds:
  assumes b: "2 \<le> b" and r: "r \<noteq> 0"
  shows "of_nat b powi expo b r \<le> \<bar>r\<bar> \<and> \<bar>r\<bar> < of_nat b powi (expo b r + 1)"
proof -
  obtain n d where q: "quotient_of \<bar>r\<bar> = (n, d)" by (cases "quotient_of \<bar>r\<bar>")
  then have nd: "0 < n" "0 < d" "\<bar>r\<bar> = of_int n / of_int d"
    using quotient_of_pos[of "\<bar>r\<bar>"] r by auto
  define e where "e = int (ndigits b (nat n)) - int (ndigits b (nat d))"
  let ?B = "of_nat b :: rat"
  have B: "?B > 0" "?B \<noteq> 0" using b by auto
  have digit_bounds: "?B ^ (ndigits b (nat k) - 1) \<le> of_int k \<and> of_int k < ?B ^ ndigits b (nat k)"
    if "0 < k" for k
  proof -
    have "of_int k = (of_nat (nat k) :: rat)" using that by simp
    moreover have "of_nat (b ^ (ndigits b (nat k) - 1)) \<le> (of_nat (nat k) :: rat)"
        "(of_nat (nat k) :: rat) < of_nat (b ^ ndigits b (nat k))"
      using ndigits_bounds[OF b, of "nat k"] that by (simp_all only: of_nat_le_iff of_nat_less_iff)
    ultimately show ?thesis by (simp only: of_nat_power)
  qed
  note n' = digit_bounds[OF nd(1), THEN conjunct1] digit_bounds[OF nd(1), THEN conjunct2]
  note d' = digit_bounds[OF nd(2), THEN conjunct1] digit_bounds[OF nd(2), THEN conjunct2]
  have hi: "\<bar>r\<bar> < ?B powi (e + 1)"
  proof -
    have "of_int n / of_int d < ?B ^ ndigits b (nat n) / ?B ^ (ndigits b (nat d) - 1)"
      using n'(2) d'(1) nd B by (intro frac_less) auto
    also have "\<dots> = ?B powi (int (ndigits b (nat n)) - int (ndigits b (nat d) - 1))"
      using B by (simp add: power_int_diff)
    also have "int (ndigits b (nat n)) - int (ndigits b (nat d) - 1) = e + 1"
      by (simp add: e_def of_nat_diff Suc_leI)
    finally show ?thesis using nd(3) by simp
  qed
  have lo: "?B powi (e - 1) \<le> \<bar>r\<bar>"
  proof -
    have "?B powi (e - 1) = ?B powi (int (ndigits b (nat n) - 1) - int (ndigits b (nat d)))"
      by (simp add: e_def of_nat_diff Suc_leI algebra_simps)
    also have "\<dots> = ?B ^ (ndigits b (nat n) - 1) / ?B ^ ndigits b (nat d)"
      using B by (simp add: power_int_diff)
    also have "\<dots> \<le> of_int n / of_int d"
      using n'(1) d'(2) nd B by (intro frac_le) auto
    finally show ?thesis using nd(3) by simp
  qed
  show ?thesis
    using hi lo by (auto simp: expo_def q e_def[symmetric])
qed

lemma powi_less_imp: "1 < b \<Longrightarrow> b powi i < (b :: rat) powi j \<Longrightarrow> i < j"
  using power_int_increasing[of j i b] by (cases "j \<le> i") auto

section \<open>Nearest integer, ties to even\<close>

definition round_half_even :: "rat \<Rightarrow> int" where
  "round_half_even r =
     (let f = \<lfloor>r\<rfloor>; d = r - of_int f
      in if d < 1 / 2 then f else if 1 / 2 < d then f + 1 else if even f then f else f + 1)"

lemma round_half_even_of_int [simp]: "round_half_even (of_int k) = k"
  by (simp add: round_half_even_def)

lemma round_half_even_error: "\<bar>of_int (round_half_even r) - r\<bar> \<le> 1 / 2"
proof -
  have "of_int \<lfloor>r\<rfloor> \<le> r" "r < of_int \<lfloor>r\<rfloor> + 1" by linarith+
  then show ?thesis by (auto simp: round_half_even_def Let_def)
qed

lemma round_half_even_floor: "round_half_even r = \<lfloor>r\<rfloor> \<or> round_half_even r = \<lfloor>r\<rfloor> + 1"
  by (simp add: round_half_even_def Let_def)

lemma round_half_even_eqI:
  assumes "\<bar>of_int k - r\<bar> < 1 / 2"
  shows "round_half_even r = k"
proof -
  have "\<bar>of_int (round_half_even r) - of_int k :: rat\<bar> < 1"
    using assms round_half_even_error[of r] by linarith
  then have "\<bar>of_int (round_half_even r - k) :: rat\<bar> < of_int 1" by simp
  then have "\<bar>round_half_even r - k\<bar> < 1" by (simp only: of_int_less_iff flip: of_int_abs)
  then show ?thesis by simp
qed

lemma round_half_even_mono: "r \<le> s \<Longrightarrow> round_half_even r \<le> round_half_even s"
proof -
  assume le: "r \<le> s"
  then have f: "\<lfloor>r\<rfloor> \<le> \<lfloor>s\<rfloor>" by (rule floor_mono)
  show ?thesis
  proof (cases "\<lfloor>r\<rfloor> = \<lfloor>s\<rfloor>")
    case True
    with le show ?thesis by (auto simp: round_half_even_def Let_def)
  next
    case False
    with f have "\<lfloor>r\<rfloor> + 1 \<le> \<lfloor>s\<rfloor>" by simp
    with round_half_even_floor[of r] round_half_even_floor[of s] show ?thesis by auto
  qed
qed

section \<open>Significant digits\<close>

definition ulp_of :: "nat \<Rightarrow> nat \<Rightarrow> rat \<Rightarrow> rat" where
  "ulp_of b p r = of_nat b powi (expo b r + 1 - int p)"

definition round_sig :: "nat \<Rightarrow> nat \<Rightarrow> rat \<Rightarrow> rat" where
  "round_sig b p r =
     (if r = 0 then 0
      else of_int (round_half_even (r / ulp_of b p r)) * ulp_of b p r)"

lemma round_sig_0 [simp]: "round_sig b p 0 = 0"
  by (simp add: round_sig_def)

lemma ulp_of_pos: "2 \<le> b \<Longrightarrow> 0 < ulp_of b p r"
  by (simp add: ulp_of_def)

lemma round_sig_error: "2 \<le> b \<Longrightarrow> \<bar>round_sig b p r - r\<bar> \<le> ulp_of b p r / 2"
proof (cases "r = 0")
  case False
  assume b: "2 \<le> b"
  let ?u = "ulp_of b p r"
  have u: "0 < ?u" using b by (rule ulp_of_pos)
  have "\<bar>of_int (round_half_even (r / ?u)) - r / ?u\<bar> * ?u \<le> 1 / 2 * ?u"
    using round_half_even_error u by (intro mult_right_mono) auto
  moreover have "\<bar>of_int (round_half_even (r / ?u)) - r / ?u\<bar> * ?u
      = \<bar>(of_int (round_half_even (r / ?u)) - r / ?u) * ?u\<bar>"
    using u by (simp add: abs_mult)
  moreover have "(of_int (round_half_even (r / ?u)) - r / ?u) * ?u
      = of_int (round_half_even (r / ?u)) * ?u - r"
    using u by (simp add: left_diff_distrib)
  ultimately show ?thesis using False by (simp add: round_sig_def)
qed (use ulp_of_pos[of b p r] in \<open>auto simp: less_imp_le\<close>)

lemma ulp_of_le: "2 \<le> b \<Longrightarrow> r \<noteq> 0 \<Longrightarrow> ulp_of b p r \<le> \<bar>r\<bar> * of_nat b powi (1 - int p)"
proof -
  assume b: "2 \<le> b" and r: "r \<noteq> 0"
  have "ulp_of b p r = of_nat b powi expo b r * of_nat b powi (1 - int p)"
    using b by (simp add: ulp_of_def power_int_add[symmetric] algebra_simps)
  then show ?thesis
    using expo_bounds[OF b r] b by (simp add: mult_right_mono)
qed

text \<open>A number with at most \<open>p\<close> significant digits is its own rounding.\<close>

lemma round_sig_exact:
  assumes b: "2 \<le> b" and m: "\<bar>m\<bar> < int b ^ p" and r: "r = of_int m * of_nat b powi k"
  shows "round_sig b p r = r"
proof (cases "m = 0")
  case False
  let ?B = "of_nat b :: rat"
  have B: "?B > 1" "?B > 0" "?B \<noteq> 0" using b by auto
  from False B have r0: "r \<noteq> 0" by (simp add: r)
  have "?B powi expo b r \<le> \<bar>r\<bar>" using expo_bounds[OF b r0] by simp
  also have "\<bar>r\<bar> = of_int \<bar>m\<bar> * ?B powi k" using B by (simp add: r abs_mult)
  also have "of_int \<bar>m\<bar> < ?B ^ p"
    using m by (metis of_int_less_iff of_int_of_nat_eq of_int_power)
  finally have "?B powi expo b r < ?B ^ p * ?B powi k" using B by simp
  also have "\<dots> = ?B powi (int p + k)" using B by (simp add: power_int_add)
  finally have e: "expo b r < int p + k"
    using B(1) power_int_increasing[of "int p + k" "expo b r" ?B] by (meson less_imp_le linorder_not_less)
  define j where "j = nat (k - (expo b r + 1 - int p))"
  have k: "k = (expo b r + 1 - int p) + int j" using e by (simp add: j_def)
  have "r / ulp_of b p r = of_int m * (?B powi k / ?B powi (expo b r + 1 - int p))"
    by (simp add: r ulp_of_def)
  also have "?B powi k / ?B powi (expo b r + 1 - int p) = ?B powi int j"
    unfolding k using B by (simp add: power_int_add)
  finally have q: "r / ulp_of b p r = of_int (m * int b ^ j)" by simp
  then have "round_half_even (r / ulp_of b p r) = m * int b ^ j"
    by (simp only: round_half_even_of_int)
  then have "round_sig b p r = of_int (m * int b ^ j) * ulp_of b p r"
    using r0 by (simp add: round_sig_def)
  also have "\<dots> = r / ulp_of b p r * ulp_of b p r" by (simp only: q)
  also have "\<dots> = r" using ulp_of_pos[OF b, of p r] by simp
  finally show ?thesis .
qed (simp add: r)

lemma round_sig_of_int: "2 \<le> b \<Longrightarrow> \<bar>m\<bar> < int b ^ p \<Longrightarrow> round_sig b p (of_int m) = of_int m"
  using round_sig_exact[of b m p "of_int m" 0] by simp

text \<open>
  A quotient with a small denominator keeps its integer part when it is rounded, as long as it is
  below the relative resolution.
\<close>

lemma floor_round_sig:
  assumes b: "2 \<le> b" and p: "0 < p" and T: "0 < T" and q: "q = of_int n / of_int T"
    and small: "\<bar>n\<bar> < int b ^ (p - 1)"
  shows "\<lfloor>round_sig b p q\<rfloor> = \<lfloor>q\<rfloor>"
proof (cases "T dvd n")
  case True
  then obtain c where c: "n = T * c" by auto
  with T have qc: "q = of_int c" by (simp add: q)
  have "\<bar>c\<bar> \<le> \<bar>n\<bar>" using T by (simp add: c abs_mult mult_le_cancel_right1)
  also note small
  also have "int b ^ (p - 1) \<le> int b ^ p" using b by (intro power_increasing) auto
  finally have "round_sig b p q = q" unfolding qc by (rule round_sig_of_int[OF b])
  then show ?thesis by simp
next
  case False
  let ?B = "of_nat b :: rat"
  have B: "?B > 1" "?B > 0" using b by auto
  have n0: "n \<noteq> 0" using False by auto
  with T have q0: "q \<noteq> 0" by (simp add: q)
  have "\<bar>q\<bar> * ?B powi (1 - int p) = of_int \<bar>n\<bar> / ?B ^ (p - 1) / of_int T"
    using T p B by (simp add: q power_int_diff power_int_minus abs_divide divide_simps
        power_eq_if[of "?B" p] of_nat_diff)
  also have "\<dots> < 1 / of_int T"
  proof -
    have "(of_int \<bar>n\<bar> :: rat) < ?B ^ (p - 1)"
      using small by (metis of_int_less_iff of_int_of_nat_eq of_int_power)
    then show ?thesis using T B by (intro divide_strict_right_mono) (auto simp: divide_less_eq)
  qed
  finally have "ulp_of b p q < 1 / of_int T" using ulp_of_le[OF b q0, of p] by linarith
  then have err: "\<bar>round_sig b p q - q\<bar> < 1 / of_int T / 2"
    using round_sig_error[OF b, of p q] by (simp add: field_simps)
  define f where "f = n div T"
  define r where "r = n mod T"
  have r: "1 \<le> r" "r \<le> T - 1"
    using False pos_mod_bound[OF T, of n] pos_mod_sign[OF T, of n]
    unfolding r_def dvd_eq_mod_eq_0 by linarith+
  have qf: "q = of_int f + of_int r / of_int T"
    using T by (simp add: q f_def r_def floor_divide_of_int_eq[symmetric]
        field_simps flip: of_int_mult of_int_add)
  have "of_int 1 \<le> (of_int r :: rat)" "of_int r \<le> (of_int (T - 1) :: rat)"
    using r by (simp_all only: of_int_le_iff)
  then have lo: "1 / of_int T \<le> of_int r / (of_int T :: rat)"
    and hi: "of_int r / (of_int T :: rat) \<le> 1 - 1 / of_int T"
    using T by (simp_all add: divide_right_mono field_simps)
  have Tpos: "0 < 1 / (of_int T :: rat)" using T by simp
  have near: "of_int f \<le> y \<and> y < of_int f + 1"
    if "\<bar>y - q\<bar> < t / 2" "t \<le> x" "x \<le> 1 - t" "0 < t" "q = of_int f + x" for y x t :: rat
    using that by (auto simp: abs_if split: if_splits)
  have "\<lfloor>q\<rfloor> = f"
    using near[of q, OF _ lo hi Tpos qf] Tpos by (intro floor_unique) auto
  moreover have "\<lfloor>round_sig b p q\<rfloor> = f"
    using near[OF err lo hi Tpos qf] by (intro floor_unique) auto
  ultimately show ?thesis by simp
qed

end
