(* ===== verification/JsNumber.thy ===== *)
theory JsNumber
  imports Rounding
begin

text \<open>
  The language's number type: binary64 values as rationals together with the three non-finite
  values (the sign of zero is not distinguished), its arithmetic as the exact result rounded to
  nearest with ties to even, and the conversion of a number to its shortest decimal string.
\<close>

datatype number = Fin rat | PosInf | NegInf | NaN

definition is_finite :: "number \<Rightarrow> bool" where
  "is_finite x = (case x of Fin _ \<Rightarrow> True | _ \<Rightarrow> False)"

definition to_double :: "rat \<Rightarrow> number" where
  "to_double r =
     (if r = 0 then Fin 0
      else let u = 2 powi max (expo 2 r - 52) (-1074);
               w = of_int (round_half_even (r / u)) * u
           in if w = 0 \<or> expo 2 w < 1024 then Fin w else if 0 < r then PosInf else NegInf)"

definition num_of_int :: "int \<Rightarrow> number" where
  "num_of_int i = to_double (of_int i)"

fun js_mul :: "number \<Rightarrow> number \<Rightarrow> number" where
  "js_mul (Fin x) (Fin y) = to_double (x * y)"
| "js_mul NaN _ = NaN"
| "js_mul _ NaN = NaN"
| "js_mul (Fin x) PosInf = (if x = 0 then NaN else if 0 < x then PosInf else NegInf)"
| "js_mul (Fin x) NegInf = (if x = 0 then NaN else if 0 < x then NegInf else PosInf)"
| "js_mul PosInf (Fin x) = (if x = 0 then NaN else if 0 < x then PosInf else NegInf)"
| "js_mul NegInf (Fin x) = (if x = 0 then NaN else if 0 < x then NegInf else PosInf)"
| "js_mul PosInf PosInf = PosInf"
| "js_mul NegInf NegInf = PosInf"
| "js_mul PosInf NegInf = NegInf"
| "js_mul NegInf PosInf = NegInf"

fun js_add :: "number \<Rightarrow> number \<Rightarrow> number" where
  "js_add (Fin x) (Fin y) = to_double (x + y)"
| "js_add NaN _ = NaN"
| "js_add _ NaN = NaN"
| "js_add PosInf NegInf = NaN"
| "js_add NegInf PosInf = NaN"
| "js_add PosInf _ = PosInf"
| "js_add NegInf _ = NegInf"
| "js_add (Fin _) y = y"

text \<open>Division by a non-zero finite number, the only divisions the sources perform.\<close>

fun js_div_by :: "number \<Rightarrow> rat \<Rightarrow> number" where
  "js_div_by (Fin x) y = to_double (x / y)"
| "js_div_by NaN _ = NaN"
| "js_div_by PosInf y = (if 0 < y then PosInf else NegInf)"
| "js_div_by NegInf y = (if 0 < y then NegInf else PosInf)"

text \<open>The relation \<open><\<close>: false when a side is NaN.\<close>

fun js_less :: "number \<Rightarrow> number \<Rightarrow> bool" where
  "js_less (Fin x) (Fin y) = (x < y)"
| "js_less (Fin x) PosInf = True"
| "js_less NegInf (Fin y) = True"
| "js_less NegInf PosInf = True"
| "js_less _ _ = False"

text \<open>\<open>Math.round\<close>: the nearest integer, halves upwards.\<close>

fun js_round :: "number \<Rightarrow> number" where
  "js_round (Fin x) = Fin (of_int \<lfloor>x + 1 / 2\<rfloor>)"
| "js_round x = x"

section \<open>Integers are exact\<close>

lemma to_double_of_int:
  assumes "\<bar>i\<bar> < 2 ^ 53"
  shows "to_double (of_int i) = Fin (of_int i)"
proof (cases "i = 0")
  case False
  let ?r = "of_int i :: rat"
  have "\<bar>?r\<bar> \<ge> 1" using False by linarith
  moreover have "\<bar>?r\<bar> < 2 powi (expo 2 ?r + 1)" using expo_bounds[of 2 ?r] False by simp
  ultimately have "(2::rat) powi 0 < 2 powi (expo 2 ?r + 1)" by simp
  then have "0 < expo 2 ?r + 1"
    using power_int_increasing[of "expo 2 ?r + 1" 0 "2::rat"] by (cases "0 < expo 2 ?r + 1") auto
  then have "max (expo 2 ?r - 52) (-1074) = expo 2 ?r + 1 - int 53" by simp
  then have w: "of_int (round_half_even (?r / 2 powi max (expo 2 ?r - 52) (-1074)))
      * 2 powi max (expo 2 ?r - 52) (-1074) = round_sig 2 53 ?r"
    using False by (simp add: round_sig_def ulp_of_def)
  also have "\<dots> = ?r" using assms by (intro round_sig_of_int) auto
  finally have w: "of_int (round_half_even (?r / 2 powi max (expo 2 ?r - 52) (-1074)))
      * 2 powi max (expo 2 ?r - 52) (-1074) = ?r" .
  have "2 powi expo 2 ?r \<le> \<bar>?r\<bar>" using expo_bounds[of 2 ?r] False by simp
  also have "\<bar>?r\<bar> < 2 ^ 53" using assms by (metis of_int_abs of_int_less_iff of_int_numeral of_int_power)
  finally have "(2::rat) powi expo 2 ?r < 2 powi 53" by simp
  then have "expo 2 ?r < 53"
    using power_int_increasing[of 53 "expo 2 ?r" "2::rat"] by (cases "expo 2 ?r < 53") auto
  then show ?thesis using False by (simp add: to_double_def Let_def w)
qed (simp add: to_double_def)

lemma num_of_int_exact [simp]: "\<bar>i\<bar> < 2 ^ 53 \<Longrightarrow> num_of_int i = Fin (of_int i)"
  by (simp add: num_of_int_def to_double_of_int)

text \<open>A left-to-right sum of integers is exact when the absolute values stay below \<open>2 ^ 53\<close>.\<close>

lemma foldl_js_add_ints:
  "\<bar>s\<bar> + (\<Sum>i\<leftarrow>is. \<bar>i\<bar>) < 2 ^ 53 \<Longrightarrow>
    foldl js_add (Fin (of_int s)) (map (\<lambda>i. Fin (of_int i)) is) = Fin (of_int (s + sum_list is))"
proof (induction "is" arbitrary: s)
  case (Cons i "is")
  have nn: "0 \<le> (\<Sum>i\<leftarrow>is. \<bar>i\<bar>)" by (rule sum_list_nonneg) auto
  have "\<bar>s + i\<bar> + (\<Sum>i\<leftarrow>is. \<bar>i\<bar>) < 2 ^ 53" using Cons.prems by auto
  then have "foldl js_add (Fin (of_int (s + i))) (map (\<lambda>i. Fin (of_int i)) is)
      = Fin (of_int (s + i + sum_list is))"
    by (rule Cons.IH)
  moreover have "to_double (of_int (s + i)) = Fin (of_int (s + i))"
    using Cons.prems nn by (intro to_double_of_int) auto
  ultimately show ?case by (simp add: add.assoc)
qed simp

section \<open>Shortest decimal strings\<close>

text \<open>
  \<open>Number.prototype.toString\<close>: the least number \<open>k\<close> of significant digits whose decimal
  rounds back to the number. Seventeen digits always do.
\<close>

fun shortest_from :: "nat \<Rightarrow> nat \<Rightarrow> rat \<Rightarrow> nat \<times> int" where
  "shortest_from fuel k r =
     (let u = 10 powi (expo 10 r + 1 - int k); s = round_half_even (r / u)
      in case fuel of
           0 \<Rightarrow> (nat s, expo 10 r + 1 - int k)
         | Suc fuel' \<Rightarrow>
             if to_double (of_int s * u) = Fin r then (nat s, expo 10 r + 1 - int k)
             else shortest_from fuel' (Suc k) r)"

declare shortest_from.simps [simp del]

definition strip_zeros :: "string \<Rightarrow> string" where
  "strip_zeros s = rev (dropWhile (\<lambda>c. c = CHR ''0'') (rev s))"

definition format_positive :: "rat \<Rightarrow> string" where
  "format_positive r =
     (let (s, e) = shortest_from 16 1 r; ds0 = nat_to_string s; ds = strip_zeros ds0;
          k = int (length ds); n = int (length ds0) + e; x = n - 1;
          sgn = (if x < 0 then ''-'' else ''+'')
      in if k \<le> n \<and> n \<le> 21 then ds @ replicate (nat (n - k)) CHR ''0''
         else if 0 < n \<and> n \<le> 21 then take (nat n) ds @ ''.'' @ drop (nat n) ds
         else if -6 < n \<and> n \<le> 0 then ''0.'' @ replicate (nat (- n)) CHR ''0'' @ ds
         else if k = 1 then ds @ ''e'' @ sgn @ nat_to_string (nat \<bar>x\<bar>)
         else take 1 ds @ ''.'' @ drop 1 ds @ ''e'' @ sgn @ nat_to_string (nat \<bar>x\<bar>))"

fun number_to_string :: "number \<Rightarrow> string" where
  "number_to_string NaN = ''NaN''"
| "number_to_string PosInf = ''Infinity''"
| "number_to_string NegInf = ''-Infinity''"
| "number_to_string (Fin r) =
     (if r = 0 then ''0'' else if r < 0 then ''-'' @ format_positive (- r) else format_positive r)"

subsection \<open>Integers print as decimal numerals\<close>

lemma to_double_ge:
  assumes "2 ^ 53 \<le> w" and "to_double (of_int w) = Fin (of_int i)"
  shows "2 ^ 53 \<le> i"
proof -
  let ?r = "of_int w :: rat" and ?e = "expo 2 (of_int w)"
  have r0: "?r \<noteq> 0" "0 < ?r" using assms(1) by auto
  note eb = expo_bounds[of 2 ?r, simplified, OF r0(1)[simplified]]
  have "(2::rat) ^ 53 \<le> ?r"
    using assms(1) by (metis of_int_le_iff of_int_numeral of_int_power)
  with eb r0(2) have "(2::rat) powi 53 < 2 powi (?e + 1)" by simp
  then have e: "53 \<le> ?e"
    using power_int_increasing[of "?e + 1" 53 "2::rat"] by (cases "53 \<le> ?e") auto
  then have m: "max (?e - 52) (-1074) = ?e - 52" by simp
  let ?u = "2 powi (?e - 52) :: rat"
  have u: "2 \<le> ?u" using e power_int_increasing[of 1 "?e - 52" "2::rat"] by simp
  have "2 powi ?e = 2 ^ 52 * ?u" by (simp add: power_int_diff)
  with eb r0(2) have "2 ^ 52 * ?u \<le> ?r" by simp
  then have "of_int (2 ^ 52) \<le> ?r / ?u" using u by (simp add: field_simps)
  then have "round_half_even (of_int (2 ^ 52)) \<le> round_half_even (?r / ?u)"
    by (rule round_half_even_mono)
  then have k: "2 ^ 52 \<le> round_half_even (?r / ?u)" by (simp only: round_half_even_of_int)
  have "of_int i = of_int (round_half_even (?r / ?u)) * ?u"
    using assms(2) r0(1) by (auto simp: to_double_def Let_def m split: if_splits)
  moreover have "of_int (2 ^ 52) * 2 \<le> of_int (round_half_even (?r / ?u)) * ?u"
    using k u by (intro mult_mono) (simp_all only: of_int_le_iff of_int_0_le_iff, auto)
  ultimately have "(of_int (2 ^ 53) :: rat) \<le> of_int i" by simp
  then show ?thesis by (simp only: of_int_le_iff)
qed

lemma to_double_of_int_inj:
  assumes "0 \<le> w" and "\<bar>i\<bar> < 2 ^ 53" and "to_double (of_int w) = Fin (of_int i)"
  shows "w = i"
proof (cases "w < 2 ^ 53")
  case True
  with assms(1) have "to_double (of_int w) = Fin (of_int w)" by (simp add: to_double_of_int)
  with assms(3) show ?thesis by simp
next
  case False
  with assms to_double_ge[of w i] show ?thesis by simp
qed

lemma shortest_from_of_nat:
  assumes i: "0 < i" "int i < 2 ^ 53"
  shows "int k \<le> expo 10 (of_nat i) + 1 \<Longrightarrow> expo 10 (of_nat i) + 1 \<le> int k + int fuel \<Longrightarrow>
    \<exists>s e. shortest_from fuel k (of_nat i) = (s, int e) \<and> s * 10 ^ e = i \<and> 0 < s"
proof (induction fuel k "of_nat i :: rat" rule: shortest_from.induct)
  case (1 fuel k)
  let ?r = "of_nat i :: rat"
  define e where "e = nat (expo 10 ?r + 1 - int k)"
  define w where "w = round_half_even (?r / 10 ^ e)"
  have e: "expo 10 ?r + 1 - int k = int e" using "1.prems" by (simp add: e_def)
  have w0: "0 \<le> w"
    using round_half_even_mono[of 0 "?r / 10 ^ e"] round_half_even_of_int[of 0] by (simp add: w_def)
  show ?case
  proof (cases "w * 10 ^ e = int i")
    case True
    then have wi: "nat w * 10 ^ e = i"
      using w0 by (metis nat_int nat_mult_distrib nat_numeral nat_power_eq zero_le_numeral)
    moreover have "to_double (of_int w * 10 ^ e) = Fin ?r"
    proof -
      have "to_double (of_int (w * 10 ^ e)) = Fin (of_int (w * 10 ^ e))"
        using i unfolding True by (intro to_double_of_int) simp
      moreover have "of_int (w * 10 ^ e) = (of_nat i :: rat)" unfolding True by simp
      ultimately show ?thesis by simp
    qed
    ultimately show ?thesis
      using i(1) by (subst shortest_from.simps) (auto simp: e w_def[symmetric] split: nat.splits)
  next
    case False
    have "e \<noteq> 0" using False round_half_even_of_int[of "int i"] by (intro notI) (simp add: w_def)
    then obtain fuel' where f: "fuel = Suc fuel'" using "1.prems" e by (cases fuel) auto
    have nd: "to_double (of_int w * 10 ^ e) \<noteq> Fin ?r"
      using to_double_of_int_inj[of "w * 10 ^ e" "int i"] w0 i False by auto
    have "\<exists>s e. shortest_from fuel' (Suc k) ?r = (s, int e) \<and> s * 10 ^ e = i \<and> 0 < s"
      using nd "1.prems" e \<open>e \<noteq> 0\<close> by (intro "1.hyps"[OF refl refl f]) (auto simp: f w_def)
    then show ?thesis
      using nd by (subst shortest_from.simps) (auto simp: e f w_def[symmetric])
  qed
qed

lemma nat_to_string_times_10: "0 < s \<Longrightarrow> nat_to_string (s * 10 ^ e) = nat_to_string s @ replicate e CHR ''0''"
proof (induction e)
  case (Suc e)
  have "nat_to_string (s * 10 ^ Suc e) = nat_to_string (s * 10 ^ e) @ [digit_char 0]"
    using Suc.prems unfolding nat_to_string_def
    by (subst nat_to_base.simps) (auto simp: not_less Suc_leI)
  with Suc show ?case by (simp add: replicate_append_same)
qed simp

lemma strip_zeros_replicate: "\<exists>j. s = strip_zeros s @ replicate j CHR ''0''"
proof -
  have "rev s = takeWhile (\<lambda>c. c = CHR ''0'') (rev s) @ dropWhile (\<lambda>c. c = CHR ''0'') (rev s)"
    by simp
  moreover have "\<exists>j. takeWhile (\<lambda>c. c = CHR ''0'') xs = replicate j CHR ''0''" for xs
    by (induction xs) (auto intro: exI[of _ 0] exI[of _ "Suc _"])
  ultimately obtain j where "rev s = replicate j CHR ''0'' @ dropWhile (\<lambda>c. c = CHR ''0'') (rev s)"
    by metis
  then have "s = rev (dropWhile (\<lambda>c. c = CHR ''0'') (rev s)) @ replicate j CHR ''0''"
    by (metis rev_append rev_replicate rev_rev_ident)
  then show ?thesis by (auto simp: strip_zeros_def)
qed

lemma length_nat_to_string_le: "0 < n \<Longrightarrow> i < 10 ^ n \<Longrightarrow> length (nat_to_string i) \<le> n"
proof (induction n arbitrary: i)
  case (Suc n)
  show ?case
  proof (cases "i < 10")
    case True
    then show ?thesis unfolding nat_to_string_def by (subst nat_to_base.simps) simp
  next
    case False
    then have n0: "0 < n" using Suc.prems by (cases n) auto
    have "i div 10 < 10 ^ n" using Suc.prems by (simp add: less_mult_imp_div_less mult.commute)
    then have "length (nat_to_string (i div 10)) \<le> n" using Suc.IH n0 by blast
    with False show ?thesis unfolding nat_to_string_def by (subst nat_to_base.simps) simp
  qed
qed simp

theorem format_positive_of_nat:
  assumes i: "0 < i" "int i < 2 ^ 53"
  shows "format_positive (of_nat i) = nat_to_string i"
proof -
  let ?r = "of_nat i :: rat"
  have r: "1 \<le> ?r" "?r \<noteq> 0" using i(1) by simp_all
  note eb = expo_bounds[of 10 ?r, simplified, OF r(2)[simplified]]
  have "(10::rat) powi 0 < 10 powi (expo 10 ?r + 1)" using eb r(1) by simp
  then have lo: "0 \<le> expo 10 ?r"
    using power_int_increasing[of "expo 10 ?r + 1" 0 "10::rat"] by (cases "0 \<le> expo 10 ?r") auto
  have "?r < 2 ^ 53" using i(2) by (metis of_int_less_iff of_int_numeral of_int_of_nat_eq of_int_power)
  also have "(2::rat) ^ 53 < 10 powi 16" by simp
  finally have "(10::rat) powi expo 10 ?r < 10 powi 16" using eb by linarith
  then have hi: "expo 10 ?r < 16"
    using power_int_increasing[of 16 "expo 10 ?r" "10::rat"] by (cases "expo 10 ?r < 16") auto
  obtain s e where se: "shortest_from 16 1 ?r = (s, int e)" "s * 10 ^ e = i" "0 < s"
    using shortest_from_of_nat[OF i, of 1 16] lo hi by auto
  obtain j where j: "nat_to_string s = strip_zeros (nat_to_string s) @ replicate j CHR ''0''"
    using strip_zeros_replicate by blast
  let ?ds = "strip_zeros (nat_to_string s)"
  have len: "length (nat_to_string s) = length ?ds + j" by (subst j) simp
  have i': "nat_to_string i = ?ds @ replicate (j + e) CHR ''0''"
    using nat_to_string_times_10[OF se(3), of e] se(2) j by (simp add: replicate_add)
  have "length (nat_to_string i) \<le> 16"
  proof (rule length_nat_to_string_le)
    have "int i < int (10 ^ 16)" using i(2) by simp
    then show "i < 10 ^ 16" by (simp only: of_nat_less_iff)
  qed simp
  then have "length ?ds + j + e \<le> 16" by (simp add: i')
  then have "length ?ds \<le> length ?ds + j + e" "int (length ?ds + j + e) \<le> 21" by auto
  then show ?thesis
    unfolding format_positive_def se(1) Let_def prod.case len i'
    by (simp add: nat_add_distrib)
qed

lemma number_to_string_of_int:
  "\<bar>i\<bar> < 2 ^ 53 \<Longrightarrow> number_to_string (Fin (of_int i)) = int_to_string i"
proof (cases i rule: linorder_cases[of _ 0])
  case less
  assume "\<bar>i\<bar> < 2 ^ 53"
  with less show ?thesis
    using format_positive_of_nat[of "nat (- i)"] by (simp add: int_to_string_def)
next
  case greater
  assume "\<bar>i\<bar> < 2 ^ 53"
  with greater show ?thesis
    using format_positive_of_nat[of "nat i"] by (simp add: int_to_string_def)
next
  case equal
  have "nat_to_string 0 = ''0''"
    unfolding nat_to_string_def by (subst nat_to_base.simps) simp
  with equal show ?thesis by (simp add: int_to_string_def)
qed

end
