(* ===== verification/Context.thy ===== *)
theory Context
  imports JsNumber Errors
begin

text \<open>
  The execution context (packages/core/src/context), trace identifiers (trace.ts) and the logger
  (logger.ts). The asynchronous local storage holds at most one frozen store for the running
  execution: code under a context is a function of \<open>store option\<close>, and \<open>runWithContext\<close> runs its
  argument under a new one.
\<close>

section \<open>The store\<close>

datatype context_origin =
  OriginHttp | OriginQueue | OriginCron | OriginCli | OriginSocket | OriginTest | OriginSystem

record store =
  st_traceId :: string
  st_tenantId :: string
  st_userId :: "string option"
  st_role :: string
  st_startTime :: int
  st_origin :: context_origin

type_synonym als = "store option"

definition runWithContext :: "store \<Rightarrow> (als \<Rightarrow> 'a) \<Rightarrow> 'a" where
  "runWithContext st f = f (Some st)"

definition getContext :: "als \<Rightarrow> store result" where
  "getContext s = (case s of None \<Rightarrow> Inl (Err (ContextMissingError None)) | Some st \<Rightarrow> Inr st)"

definition getTenantId :: "als \<Rightarrow> string result" where
  "getTenantId s = and_then (getContext s) (\<lambda>st. Inr (st_tenantId st))"

definition getUserId :: "als \<Rightarrow> string option result" where
  "getUserId s = and_then (getContext s) (\<lambda>st. Inr (st_userId st))"

definition getTraceId :: "als \<Rightarrow> string result" where
  "getTraceId s = and_then (getContext s) (\<lambda>st. Inr (st_traceId st))"

definition getRole :: "als \<Rightarrow> string result" where
  "getRole s = and_then (getContext s) (\<lambda>st. Inr (st_role st))"

definition getOrigin :: "als \<Rightarrow> context_origin result" where
  "getOrigin s = and_then (getContext s) (\<lambda>st. Inr (st_origin st))"

text \<open>\<open>now\<close> is \<open>process.hrtime.bigint()\<close>; \<open>Number(...)\<close> rounds the difference to a double.\<close>

definition getElapsedMs :: "int \<Rightarrow> als \<Rightarrow> number result" where
  "getElapsedMs now s =
     and_then (getContext s) (\<lambda>st. Inr (js_div_by (num_of_int (now - st_startTime st)) 1000000))"

definition hasContext :: "als \<Rightarrow> bool" where
  "hasContext s \<longleftrightarrow> s \<noteq> None"

lemma getContext_simps [simp]:
  "getContext (Some st) = Inr st" "getContext None = Inl (Err (ContextMissingError None))"
  by (simp_all add: getContext_def)

lemmas context_accessors =
  getTenantId_def getUserId_def getTraceId_def getRole_def getOrigin_def getElapsedMs_def

section \<open>Trace identifiers\<close>

text \<open>\<open>Buffer.toString('hex')\<close> of a list of byte values.\<close>

definition byte_hex :: "nat \<Rightarrow> string" where
  "byte_hex b = [digit_char (b div 16 mod 16), digit_char (b mod 16)]"

definition hex_string :: "nat list \<Rightarrow> string" where
  "hex_string bs = concat (map byte_hex bs)"

text \<open>\<open>now\<close> is the clock in milliseconds, \<open>rnd\<close> the eight random bytes.\<close>

definition createTraceId :: "nat \<Rightarrow> nat list \<Rightarrow> string" where
  "createTraceId now rnd = ''ibiz_trc_'' @ pad_start 12 CHR ''0'' (nat_to_base 16 now) @ hex_string rnd"

definition createTestTraceId :: "string \<Rightarrow> string" where
  "createTestTraceId seed = ''ibiz_tst_'' @ take 20 (pad_end 20 CHR ''0'' seed)"

definition is_hex_char :: "char \<Rightarrow> bool" where
  "is_hex_char c \<longleftrightarrow> is_digit_char c \<or> (CHR ''a'' \<le> c \<and> c \<le> CHR ''f'')"

definition isTraceId :: "string \<Rightarrow> bool" where
  "isTraceId v \<longleftrightarrow> (starts_with v ''ibiz_trc_'' \<or> starts_with v ''ibiz_tst_'') \<and>
     length v = 37 \<and> list_all is_hex_char (drop 9 v)"

section \<open>The logger\<close>

text \<open>A level is the string it was given: an environment variable may hold any name the \<open>in\<close>
  test accepts.\<close>

definition LEVEL_WEIGHT :: "(string, number) jsmap" where
  "LEVEL_WEIGHT = [(''debug'', Fin 10), (''info'', Fin 20), (''warn'', Fin 30), (''error'', Fin 40),
     (''silent'', PosInf)]"

text \<open>The weight in a comparison: an inherited property is no number.\<close>

definition level_weight :: "string \<Rightarrow> number" where
  "level_weight l = (case jm_get LEVEL_WEIGHT l of Some w \<Rightarrow> w | None \<Rightarrow> NaN)"

definition resolveDefaultLevel :: "string option \<Rightarrow> string option \<Rightarrow> string" where
  "resolveDefaultLevel log_level node_env =
     (case log_level of
        Some l \<Rightarrow> if in_object l LEVEL_WEIGHT then l
                  else if node_env = Some ''test'' then ''silent'' else ''info''
      | None \<Rightarrow> if node_env = Some ''test'' then ''silent'' else ''info'')"

record logger =
  lg_bindings :: "(string, json) jsmap"
  lg_level :: string

datatype console_channel = ConsoleError | ConsoleWarn | ConsoleLog

text \<open>\<open>write\<close>: the object of the line and the channel it goes to, or nothing. \<open>time\<close> is the clock's
  ISO string.\<close>

definition log_write :: "string \<Rightarrow> logger \<Rightarrow> string \<Rightarrow> string \<Rightarrow> (string, json) jsmap
    \<Rightarrow> (console_channel \<times> (string, json) jsmap) option" where
  "log_write time lg entryLevel msg meta =
     (if js_less (level_weight entryLevel) (level_weight (lg_level lg)) then None
      else Some (if entryLevel = ''error'' then ConsoleError
                 else if entryLevel = ''warn'' then ConsoleWarn else ConsoleLog,
        jm_spread (jm_set ''msg'' (JStr msg)
          (jm_spread [(''level'', JStr entryLevel), (''time'', JStr time)] (lg_bindings lg))) meta))"

definition createLogger :: "(string, json) jsmap \<Rightarrow> string \<Rightarrow> logger" where
  "createLogger bindings level = \<lparr>lg_bindings = bindings, lg_level = level\<rparr>"

definition log_child :: "logger \<Rightarrow> (string, json) jsmap \<Rightarrow> logger" where
  "log_child lg extra = createLogger (jm_spread (lg_bindings lg) extra) (lg_level lg)"

lemma level_weights [simp]:
  "level_weight ''debug'' = Fin 10" "level_weight ''info'' = Fin 20" "level_weight ''warn'' = Fin 30"
  "level_weight ''error'' = Fin 40" "level_weight ''silent'' = PosInf"
  by (simp_all add: level_weight_def LEVEL_WEIGHT_def)

lemma silent_writes_nothing:
  "e \<in> {''debug'', ''info'', ''warn'', ''error''} \<Longrightarrow> log_write time (createLogger b ''silent'') e msg meta = None"
  by (auto simp: log_write_def createLogger_def)

section \<open>Context services and builders\<close>

text \<open>
  A context object is a sequence of properties. Its values: the store's fields, the logger and
  \<open>emit\<close>, the services packages registered, and what the runtime supplies (data, identifiers,
  hooks). The \<open>'s\<close> are service instances, the \<open>'d\<close> runtime values.
\<close>

datatype ('s, 'd) ctx_value =
    CStr string | CNull | CBig int | COrigin context_origin
  | CLog logger | CEmit | CService 's | CData 'd

type_synonym ('s, 'd) ctx_object = "(string, ('s, 'd) ctx_value) jsmap"

type_synonym 's factories = "(string, store \<Rightarrow> 's) jsmap"

definition registerContextService :: "'s factories \<Rightarrow> string \<Rightarrow> (store \<Rightarrow> 's) \<Rightarrow> 's factories" where
  "registerContextService fs name factory = jm_set name factory fs"

definition getContextServiceFactory :: "'s factories \<Rightarrow> string \<Rightarrow> (store \<Rightarrow> 's) option" where
  "getContextServiceFactory fs name = jm_get fs name"

definition buildRegisteredServices :: "'s factories \<Rightarrow> store \<Rightarrow> (string, 's) jsmap" where
  "buildRegisteredServices fs st = foldl (\<lambda>services (name, factory). jm_set name (factory st) services) [] fs"

definition clearContextServices :: "'s factories \<Rightarrow> 's factories" where
  "clearContextServices fs = []"

fun origin_name :: "context_origin \<Rightarrow> string" where
  "origin_name OriginHttp = ''http''"
| "origin_name OriginQueue = ''queue''"
| "origin_name OriginCron = ''cron''"
| "origin_name OriginCli = ''cli''"
| "origin_name OriginSocket = ''socket''"
| "origin_name OriginTest = ''test''"
| "origin_name OriginSystem = ''system''"

definition opt_json :: "string option \<Rightarrow> json" where
  "opt_json s = (case s of Some x \<Rightarrow> JStr x | None \<Rightarrow> JNull)"

definition buildBaseContext :: "'s factories \<Rightarrow> string \<Rightarrow> store \<Rightarrow> ('s, 'd) ctx_object" where
  "buildBaseContext fs level st =
     jm_spread
       [(''log'', CLog (createLogger [(''traceId'', JStr (st_traceId st)), (''tenantId'', JStr (st_tenantId st)),
           (''userId'', opt_json (st_userId st)), (''role'', JStr (st_role st)),
           (''origin'', JStr (origin_name (st_origin st)))] level)),
        (''emit'', CEmit)]
       (map (\<lambda>(k, x). (k, CService x)) (buildRegisteredServices fs st))"

definition store_object :: "store \<Rightarrow> ('s, 'd) ctx_object" where
  "store_object st = [(''traceId'', CStr (st_traceId st)), (''tenantId'', CStr (st_tenantId st)),
     (''userId'', case st_userId st of Some u \<Rightarrow> CStr u | None \<Rightarrow> CNull), (''role'', CStr (st_role st)),
     (''startTime'', CBig (st_startTime st)), (''origin'', COrigin (st_origin st))]"

text \<open>\<open>{...store, ...buildBaseContext(store), data, ...}\<close>: \<open>meta\<close> lists what the runtime adds.\<close>

definition build_context :: "'s factories \<Rightarrow> string \<Rightarrow> store \<Rightarrow> (string \<times> 'd) list \<Rightarrow> ('s, 'd) ctx_object" where
  "build_context fs level st meta =
     jm_spread (jm_spread (store_object st) (buildBaseContext fs level st)) (map (\<lambda>(k, x). (k, CData x)) meta)"

record 'd job_meta =
  jb_jobId :: 'd
  jb_attempt :: 'd
  jb_maxAttempts :: 'd
  jb_queue :: 'd
  jb_retry :: 'd
  jb_fail :: 'd

definition buildJobContext :: "'s factories \<Rightarrow> string \<Rightarrow> store \<Rightarrow> 'd \<Rightarrow> 'd job_meta \<Rightarrow> ('s, 'd) ctx_object" where
  "buildJobContext fs level st data meta = build_context fs level st
     [(''data'', data), (''jobId'', jb_jobId meta), (''attempt'', jb_attempt meta),
      (''maxAttempts'', jb_maxAttempts meta), (''queue'', jb_queue meta), (''retry'', jb_retry meta),
      (''fail'', jb_fail meta)]"

record 'd task_meta =
  tk_jobId :: 'd
  tk_cronExpression :: 'd
  tk_scheduledAt :: 'd

definition buildTaskContext :: "'s factories \<Rightarrow> string \<Rightarrow> store \<Rightarrow> 'd task_meta \<Rightarrow> ('s, 'd) ctx_object" where
  "buildTaskContext fs level st meta = build_context fs level st
     [(''scheduledAt'', tk_scheduledAt meta), (''jobId'', tk_jobId meta),
      (''cronExpression'', tk_cronExpression meta)]"

text \<open>The socket context: its methods call the driver and keep the current room.\<close>

datatype 'p driver_call =
    DrvSend string string 'p
  | DrvBroadcast string string 'p
  | DrvJoin string string
  | DrvLeave string string
  | DrvDisconnect string

record 'p socket_state =
  sk_connectionId :: string
  sk_room :: "string option"
  sk_calls :: "'p driver_call list"

datatype 'p socket_op =
    SockSend string 'p
  | SockBroadcast string 'p
  | SockJoin string
  | SockLeave string
  | SockDisconnect

definition buildSocketContext :: "string \<Rightarrow> string option \<Rightarrow> 'p socket_state" where
  "buildSocketContext conn room = \<lparr>sk_connectionId = conn, sk_room = room, sk_calls = []\<rparr>"

definition sk_call :: "'p driver_call \<Rightarrow> 'p socket_state \<Rightarrow> 'p socket_state" where
  "sk_call c s = s\<lparr>sk_calls := sk_calls s @ [c]\<rparr>"

fun socket_step :: "'p socket_op \<Rightarrow> 'p socket_state \<Rightarrow> unit result \<times> 'p socket_state" where
  "socket_step (SockSend event payload) s = (Inr (), sk_call (DrvSend (sk_connectionId s) event payload) s)"
| "socket_step (SockBroadcast event payload) s =
     (case sk_room s of
        None \<Rightarrow> (Inl (Err (plain_error ''Error''
          (''SocketContext.broadcast requires an active room '' @ em_dash @ '' call join() first.''))), s)
      | Some room \<Rightarrow> (Inr (), sk_call (DrvBroadcast room event payload) s))"
| "socket_step (SockJoin room) s =
     (Inr (), (sk_call (DrvJoin (sk_connectionId s) room) s)\<lparr>sk_room := Some room\<rparr>)"
| "socket_step (SockLeave room) s =
     (let s' = sk_call (DrvLeave (sk_connectionId s) room) s
      in (Inr (), if sk_room s = Some room then s'\<lparr>sk_room := None\<rparr> else s'))"
| "socket_step SockDisconnect s = (Inr (), sk_call (DrvDisconnect (sk_connectionId s)) s)"

definition run_socket :: "'p socket_op list \<Rightarrow> 'p socket_state \<Rightarrow> 'p socket_state" where
  "run_socket ops s = foldl (\<lambda>s op. snd (socket_step op s)) s ops"

section \<open>Services in a context\<close>

lemma jm_get_map_value [js_map]: "jm_get (map (\<lambda>(k, x). (k, f k x)) m) k = map_option (f k) (jm_get m k)"
  by (induction m) auto

lemma buildRegisteredServices_get [js_map]:
  "jm_wf fs \<Longrightarrow> jm_get (buildRegisteredServices fs st) k = map_option (\<lambda>factory. factory st) (jm_get fs k)"
proof -
  assume wf: "jm_wf fs"
  have "foldl (\<lambda>services (name, factory). jm_set name (factory st) services) a fs
      = jm_spread a (map (\<lambda>(name, factory). (name, factory st)) fs)" for a
    by (induction fs arbitrary: a) (auto simp: jm_spread_def)
  moreover have "jm_keys (map (\<lambda>(name, factory). (name, factory st)) fs) = jm_keys fs"
    by (simp add: jm_keys_def case_prod_beta o_def)
  ultimately show ?thesis
    using wf by (simp add: buildRegisteredServices_def jm_get_spread jm_wf_def
        jm_get_map_value[where f = "\<lambda>_ factory. factory st"] split: option.splits)
qed

text \<open>
  A service every package registered is found in every job context under its name, unless the
  runtime supplies a field of that name: services hide fields of the store, runtime fields hide
  services.
\<close>

lemma buildRegisteredServices_wf: "jm_wf (buildRegisteredServices fs st)"
proof -
  have "jm_wf a \<Longrightarrow> jm_wf (foldl (\<lambda>services (name, factory). jm_set name (factory st) services) a fs)" for a
    by (induction fs arbitrary: a) auto
  then show ?thesis by (simp add: buildRegisteredServices_def)
qed

lemma jm_wf_map_value: "jm_wf (map (\<lambda>(k, x). (k, f k x)) m) = jm_wf m"
  by (simp add: jm_wf_def jm_keys_def case_prod_beta o_def)

lemma context_service:
  fixes fs :: "'s factories" and meta :: "(string \<times> 'd) list"
  assumes "jm_wf fs" "jm_get fs name = Some factory" "jm_wf meta" "jm_get meta name = None"
  shows "jm_get (build_context fs level st meta :: ('s, 'd) ctx_object) name = Some (CService (factory st))"
proof -
  have "jm_wf (buildBaseContext fs level st :: ('s, 'd) ctx_object)"
    unfolding buildBaseContext_def by (intro jm_spread_wf) (simp add: jm_wf_def jm_keys_def)
  then show ?thesis
    using assms unfolding build_context_def
    by (simp add: jm_get_spread jm_wf_map_value jm_get_map_value)
      (simp add: buildBaseContext_def jm_get_spread jm_wf_map_value jm_get_map_value
        buildRegisteredServices_wf buildRegisteredServices_get)
qed

section \<open>Rooms\<close>

text \<open>The room a connection is in after a sequence of driver calls: the last one joined and not
  left.\<close>

definition room_after :: "string option \<Rightarrow> 'p driver_call list \<Rightarrow> string option" where
  "room_after room calls = foldl (\<lambda>r c. case c of DrvJoin _ x \<Rightarrow> Some x
     | DrvLeave _ x \<Rightarrow> (if r = Some x then None else r) | _ \<Rightarrow> r) room calls"

definition broadcasts_ok :: "string option \<Rightarrow> 'p driver_call list \<Rightarrow> bool" where
  "broadcasts_ok room calls \<longleftrightarrow>
     (\<forall>pre r e p post. calls = pre @ DrvBroadcast r e p # post \<longrightarrow> room_after room pre = Some r)"

lemma broadcasts_ok_snoc:
  assumes "broadcasts_ok room calls" "\<And>r e p. c = DrvBroadcast r e p \<Longrightarrow> room_after room calls = Some r"
  shows "broadcasts_ok room (calls @ [c])"
  unfolding broadcasts_ok_def
proof (intro allI impI)
  fix pre r e p post
  assume eq: "calls @ [c] = pre @ DrvBroadcast r e p # post"
  show "room_after room pre = Some r"
  proof (cases post rule: rev_cases)
    case Nil
    with eq assms(2) show ?thesis by simp
  next
    case (snoc post' d)
    with eq have "calls = pre @ DrvBroadcast r e p # post'" by simp
    with assms(1) show ?thesis by (auto simp: broadcasts_ok_def)
  qed
qed

lemma room_after_snoc: "room_after room (calls @ [c]) = (case c of DrvJoin _ x \<Rightarrow> Some x
     | DrvLeave _ x \<Rightarrow> (if room_after room calls = Some x then None else room_after room calls)
     | _ \<Rightarrow> room_after room calls)"
  by (cases c) (simp_all add: room_after_def)

lemma socket_step_rooms:
  assumes "sk_room s = room_after room (sk_calls s)" "broadcasts_ok room (sk_calls s)"
  shows "sk_room (snd (socket_step op s)) = room_after room (sk_calls (snd (socket_step op s))) \<and>
    broadcasts_ok room (sk_calls (snd (socket_step op s)))"
  using assms by (cases op) (auto simp: sk_call_def room_after_snoc Let_def
      intro!: broadcasts_ok_snoc split: option.splits)

section \<open>Properties\<close>

lemma is_hex_digit_char: "d < 16 \<Longrightarrow> is_hex_char (digit_char d)"
  by (auto simp: is_hex_char_def is_digit_char_def digit_char_def less_eq_char_def)

lemma list_all_hex_digits: "list_all is_hex_char (hex_digits k n)"
  by (induction k arbitrary: n) (auto simp: is_hex_digit_char)

lemma hex_string_props: "length (hex_string bs) = 2 * length bs \<and> list_all is_hex_char (hex_string bs)"
  by (induction bs) (auto simp: hex_string_def byte_hex_def is_hex_digit_char)

lemma createTraceId_hex:
  "now < 16 ^ 12 \<Longrightarrow> createTraceId now rnd = ''ibiz_trc_'' @ hex_digits 12 now @ hex_string rnd"
  using pad_start_hex[of now 11] by (simp add: createTraceId_def del: hex_digits.simps)

text \<open>A generated trace id is a valid trace id, until the clock leaves twelve hex digits (in the
  year 10889); a test trace id is never one: it has 20 characters after the prefix where the
  check wants 28.\<close>

theorem trace_ids_valid:
  assumes "now < 16 ^ 12" and "length rnd = 8"
  shows "isTraceId (createTraceId now rnd) \<and> \<not> isTraceId (createTestTraceId seed)"
proof
  have "list_all is_hex_char (hex_digits 12 now @ hex_string rnd)"
    using hex_string_props[of rnd] list_all_hex_digits[of 12 now] by simp
  then show "isTraceId (createTraceId now rnd)"
    using hex_string_props[of rnd] assms
    by (simp add: createTraceId_hex isTraceId_def starts_with_iff del: hex_digits.simps)
  have "length (createTestTraceId seed) = 29" by (simp add: createTestTraceId_def pad_end_def)
  then show "\<not> isTraceId (createTestTraceId seed)" by (simp add: isTraceId_def)
qed

theorem trace_ids_valid_witness:
  "isTraceId (createTraceId 1753000000000 [1, 2, 3, 4, 5, 6, 7, 255]) \<and> \<not> isTraceId (createTestTraceId ''test1'')"
  by (rule trace_ids_valid) simp_all

text \<open>Trace ids sort by time as strings, whatever the random suffixes.\<close>

theorem trace_ids_sorted:
  assumes "t1 < t2" and "t2 < 16 ^ 12"
  shows "str_less (createTraceId t1 r1) (createTraceId t2 r2)"
proof -
  have "t1 < 16 ^ 12" using assms by (rule less_trans)
  then show ?thesis
    using str_less_hex_digits[OF assms] by (simp only: createTraceId_hex[OF assms(2)] createTraceId_hex str_less_append_same)
qed

theorem trace_ids_sorted_witness:
  "str_less (createTraceId 9 [255, 255, 255, 255, 255, 255, 255, 255])
     (createTraceId 10 [0, 0, 0, 0, 0, 0, 0, 0])"
  by (rule trace_ids_sorted) simp_all

text \<open>Whatever the sequence of socket operations, every broadcast the driver sees goes to the
  room the connection was in at that moment, the last one joined and not left.\<close>

theorem socket_broadcast_room:
  assumes "sk_calls (run_socket ops (buildSocketContext conn room)) = pre @ DrvBroadcast r e p # post"
  shows "room_after room pre = Some r"
proof -
  have "sk_room (run_socket ops s) = room_after room (sk_calls (run_socket ops s)) \<and>
      broadcasts_ok room (sk_calls (run_socket ops s))"
    if "sk_room s = room_after room (sk_calls s)" "broadcasts_ok room (sk_calls s)" for s :: "'a socket_state"
    using that
  proof (induction ops arbitrary: s)
    case (Cons op ops)
    then show ?case using socket_step_rooms[OF Cons.prems, of op] by (simp add: run_socket_def)
  qed (simp add: run_socket_def)
  from this[of "buildSocketContext conn room"] assms show ?thesis
    by (simp add: buildSocketContext_def broadcasts_ok_def room_after_def)
qed

theorem socket_broadcast_room_witness:
  "room_after None [DrvJoin ''c1'' ''a'', DrvJoin ''c1'' ''b'', DrvLeave ''c1'' ''a'' :: nat driver_call] = Some ''b''"
  by (rule socket_broadcast_room[where conn = "''c1''" and e = "''hi''" and p = "0 :: nat" and post = "[]" and
        ops = "[SockJoin ''a'', SockJoin ''b'', SockLeave ''a'', SockBroadcast ''hi'' 0]"])
    (simp add: run_socket_def buildSocketContext_def sk_call_def)

end
