(* ===== verification/EventBus.thy ===== *)
theory EventBus
  imports Context "HOL-Library.Multiset"
begin

text \<open>
  The event bus (packages/core/src/events/bus.ts): registration, the envelope, delivery with
  exponential backoff and the dead letter queue. Listeners are the application's code: a listener
  is an identifier, and \<open>behave l k\<close> tells whether its \<open>k\<close>-th call for the event throws (with the
  reason) or returns. The listeners of one event run concurrently: the step relation interleaves
  their attempts in any order.
\<close>

section \<open>Registration\<close>

type_synonym listener = nat

record bus =
  bus_listeners :: "(string, listener list) jsmap"
  bus_maxRetries :: "(listener, int) jsmap"

definition bus_on :: "string \<Rightarrow> listener \<Rightarrow> int option \<Rightarrow> bus \<Rightarrow> bus" where
  "bus_on event l maxRetries b =
     (let existing = (case jm_get (bus_listeners b) event of Some ls \<Rightarrow> ls | None \<Rightarrow> []);
          b' = b\<lparr>bus_listeners := jm_set event (existing @ [l]) (bus_listeners b)\<rparr>
      in case maxRetries of
           Some n \<Rightarrow> b'\<lparr>bus_maxRetries := jm_set l n (bus_maxRetries b')\<rparr>
         | None \<Rightarrow> b')"

definition bus_off :: "string \<Rightarrow> bus \<Rightarrow> bus" where
  "bus_off event b = b\<lparr>bus_listeners := jm_delete event (bus_listeners b)\<rparr>"

definition clearAllListeners :: "bus \<Rightarrow> bus" where
  "clearAllListeners b = b\<lparr>bus_listeners := []\<rparr>"

definition listenerCount :: "string \<Rightarrow> bus \<Rightarrow> nat" where
  "listenerCount event b = (case jm_get (bus_listeners b) event of Some ls \<Rightarrow> length ls | None \<Rightarrow> 0)"

definition registeredEvents :: "bus \<Rightarrow> string list" where
  "registeredEvents b = jm_keys (bus_listeners b)"

section \<open>The envelope\<close>

definition DEFAULT_MAX_RETRIES :: int where "DEFAULT_MAX_RETRIES = 3"

definition BASE_BACKOFF_MS :: nat where "BASE_BACKOFF_MS = 1000"

definition backoffMs :: "nat \<Rightarrow> nat" where
  "backoffMs attempt = min (BASE_BACKOFF_MS * 2 ^ (attempt - 1)) 30000"

text \<open>\<open>now\<close> is the clock, \<open>id1\<close> and \<open>id2\<close> are fresh trace ids, \<open>hr\<close> the monotonic clock.\<close>

definition event_id :: "nat \<Rightarrow> string \<Rightarrow> string" where
  "event_id now id1 = ''ibiz_evt_'' @ nat_to_base 16 now @ slice_last 8 id1"

definition service_store :: "als \<Rightarrow> string \<Rightarrow> int \<Rightarrow> store" where
  "service_store s id2 hr =
     (case s of Some ctx \<Rightarrow> ctx
      | None \<Rightarrow> \<lparr>st_traceId = id2, st_tenantId = ''system'', st_userId = None, st_role = ''anonymous'',
               st_startTime = hr, st_origin = OriginSystem\<rparr>)"

definition event_envelope :: "'s factories \<Rightarrow> string \<Rightarrow> als \<Rightarrow> nat \<Rightarrow> string \<Rightarrow> string \<Rightarrow> int \<Rightarrow> string \<Rightarrow> json
    \<Rightarrow> ('s, json) ctx_object" where
  "event_envelope fs level s now id1 id2 hr event payload =
     (let st = service_store s id2 hr;
          source = (case s of Some ctx \<Rightarrow> origin_name (st_origin ctx) | None \<Rightarrow> ''unknown'');
          services = jm_spread
            [(''log'', CLog (createLogger [(''traceId'', JStr (st_traceId st)), (''tenantId'', JStr (st_tenantId st)),
                (''userId'', opt_json (st_userId st)), (''source'', JStr source)] level)),
             (''emit'', CEmit)]
            (map (\<lambda>(k, x). (k, CService x)) (buildRegisteredServices fs st))
      in jm_spread
           [(''eventId'', CStr (event_id now id1)), (''event'', CStr event), (''payload'', CData payload),
            (''traceId'', CStr (st_traceId st)), (''tenantId'', CStr (st_tenantId st)),
            (''userId'', case st_userId st of Some u \<Rightarrow> CStr u | None \<Rightarrow> CNull), (''source'', CStr source),
            (''timestamp'', CBig (int now)), (''deliveryAttempt'', CBig 1)]
           services)"

section \<open>Delivery to one listener\<close>

record dead_letter =
  dd_listener :: listener
  dd_reason :: string
  dd_attempts :: nat

text \<open>A listener's delivery: about to call with \<open>attempt\<close> failures so far, sleeping before the next
  call, or finished.\<close>

datatype delivery = Calling nat | Sleeping nat nat | Finished

datatype outcome = Delivered | DeadLettered dead_letter

type_synonym behaviour = "listener \<Rightarrow> nat \<Rightarrow> string option"

fun delivery_step :: "behaviour \<Rightarrow> listener \<Rightarrow> int \<Rightarrow> delivery \<Rightarrow> delivery \<times> outcome option" where
  "delivery_step behave l maxRetries (Calling attempt) =
     (if int attempt \<le> maxRetries
      then (case behave l (attempt + 1) of
              None \<Rightarrow> (Finished, Some Delivered)
            | Some reason \<Rightarrow>
                let attempt = attempt + 1
                in if int attempt > maxRetries
                   then (Finished, Some (DeadLettered \<lparr>dd_listener = l, dd_reason = reason, dd_attempts = attempt\<rparr>))
                   else (Sleeping attempt (backoffMs attempt), None))
      else (Finished, None))"
| "delivery_step behave l maxRetries (Sleeping attempt ms) = (Calling attempt, None)"
| "delivery_step behave l maxRetries Finished = (Finished, None)"

section \<open>emit: all listeners\<close>

record emit_state =
  em_procs :: "(listener \<times> int \<times> delivery) list"
  em_delivered :: nat
  em_failed :: nat
  em_deadLettered :: nat
  em_dlq :: "dead_letter list"

definition retries_of :: "bus \<Rightarrow> listener \<Rightarrow> int" where
  "retries_of b l = (case jm_get (bus_maxRetries b) l of Some n \<Rightarrow> n | None \<Rightarrow> DEFAULT_MAX_RETRIES)"

definition emit_start :: "bus \<Rightarrow> string \<Rightarrow> dead_letter list \<Rightarrow> emit_state" where
  "emit_start b event dlq =
     \<lparr>em_procs = map (\<lambda>l. (l, retries_of b l, Calling 0))
        (case jm_get (bus_listeners b) event of Some ls \<Rightarrow> ls | None \<Rightarrow> []),
      em_delivered = 0, em_failed = 0, em_deadLettered = 0, em_dlq = dlq\<rparr>"

definition count_outcome :: "outcome option \<Rightarrow> emit_state \<Rightarrow> emit_state" where
  "count_outcome out s =
     (case out of
        None \<Rightarrow> s
      | Some Delivered \<Rightarrow> s\<lparr>em_delivered := em_delivered s + 1\<rparr>
      | Some (DeadLettered d) \<Rightarrow> s\<lparr>em_dlq := em_dlq s @ [d], em_deadLettered := em_deadLettered s + 1,
                                   em_failed := em_failed s + 1\<rparr>)"

definition emit_step_at :: "behaviour \<Rightarrow> nat \<Rightarrow> emit_state \<Rightarrow> emit_state" where
  "emit_step_at behave i s =
     (let (l, maxRetries, p) = em_procs s ! i; (p', out) = delivery_step behave l maxRetries p
      in count_outcome out (s\<lparr>em_procs := (em_procs s)[i := (l, maxRetries, p')]\<rparr>))"

inductive emit_step :: "behaviour \<Rightarrow> emit_state \<Rightarrow> emit_state \<Rightarrow> bool" for behave where
  step: "i < length (em_procs s) \<Longrightarrow> snd (snd (em_procs s ! i)) \<noteq> Finished \<Longrightarrow>
         emit_step behave s (emit_step_at behave i s)"

inductive_cases emit_stepE: "emit_step behave s s'"

definition emit_done :: "emit_state \<Rightarrow> bool" where
  "emit_done s \<longleftrightarrow> list_all (\<lambda>(l, n, p). p = Finished) (em_procs s)"

record delivery_result =
  dr_delivered :: nat
  dr_failed :: nat
  dr_deadLettered :: nat

definition emit_result :: "emit_state \<Rightarrow> delivery_result" where
  "emit_result s = \<lparr>dr_delivered = em_delivered s, dr_failed = em_failed s, dr_deadLettered = em_deadLettered s\<rparr>"

text \<open>The queue of dead letters, shared by all deliveries.\<close>

definition getDeadLetterQueue :: "emit_state \<Rightarrow> dead_letter list" where
  "getDeadLetterQueue s = em_dlq s"

definition clearDeadLetterQueue :: "emit_state \<Rightarrow> emit_state" where
  "clearDeadLetterQueue s = s\<lparr>em_dlq := []\<rparr>"

section \<open>What a delivery comes to\<close>

text \<open>The outcome a listener is still owed after \<open>a\<close> failures: nothing when the budget is negative,
  success when one of the remaining calls returns, else a dead letter with the last reason.\<close>

definition outcome_from :: "behaviour \<Rightarrow> listener \<Rightarrow> int \<Rightarrow> nat \<Rightarrow> outcome option" where
  "outcome_from behave l n a =
     (if n < int a then None
      else if list_ex (\<lambda>k. behave l k = None) [a + 1..<nat n + 2] then Some Delivered
      else Some (DeadLettered \<lparr>dd_listener = l, dd_reason = the (behave l (nat n + 1)), dd_attempts = nat n + 1\<rparr>))"

fun owed :: "behaviour \<Rightarrow> listener \<times> int \<times> delivery \<Rightarrow> outcome option" where
  "owed behave (l, n, Calling a) = outcome_from behave l n a"
| "owed behave (l, n, Sleeping a ms) = outcome_from behave l n a"
| "owed behave (l, n, Finished) = None"

lemma outcome_from_None: "(\<exists>y. outcome_from behave l n 0 = Some y) \<longleftrightarrow> 0 \<le> n"
  by (simp only: outcome_from_def) auto

lemma outcome_from_unfold:
  assumes "int a \<le> n"
  shows "outcome_from behave l n a =
    (case behave l (a + 1) of
       None \<Rightarrow> Some Delivered
     | Some reason \<Rightarrow> if int (a + 1) > n
         then Some (DeadLettered \<lparr>dd_listener = l, dd_reason = reason, dd_attempts = a + 1\<rparr>)
         else outcome_from behave l n (a + 1))"
proof -
  have "[a + 1..<nat n + 2] = (a + 1) # [a + 2..<nat n + 2]"
    using assms by (subst upt_conv_Cons) auto
  moreover have "n < int (a + 1) \<Longrightarrow> nat n = a" using assms by simp
  ultimately show ?thesis
    using assms by (auto simp: outcome_from_def split: option.splits)
qed

lemma delivery_step_owed:
  assumes "delivery_step behave l n p = (p', out)" "p \<noteq> Finished"
  shows "(out = None \<longrightarrow> owed behave (l, n, p') = owed behave (l, n, p)) \<and>
         (\<forall>x. out = Some x \<longrightarrow> owed behave (l, n, p) = Some x \<and> owed behave (l, n, p') = None)"
proof (cases p)
  case (Calling a)
  show ?thesis
  proof (cases "int a \<le> n")
    case True
    with assms Calling show ?thesis
      by (auto simp: outcome_from_unfold[OF True] Let_def split: option.splits if_splits)
  next
    case False
    with assms Calling show ?thesis by (auto simp: outcome_from_def)
  qed
qed (use assms in auto)

text \<open>The totals: what is counted already plus what is still owed.\<close>

definition owed_all :: "behaviour \<Rightarrow> emit_state \<Rightarrow> outcome option multiset" where
  "owed_all behave s = mset (map (owed behave) (em_procs s))"

definition dead_of :: "outcome option \<Rightarrow> dead_letter list" where
  "dead_of out = (case out of Some (DeadLettered d) \<Rightarrow> [d] | _ \<Rightarrow> [])"

definition delivered_total :: "behaviour \<Rightarrow> emit_state \<Rightarrow> nat" where
  "delivered_total behave s = em_delivered s + count (owed_all behave s) (Some Delivered)"

definition dead_total :: "behaviour \<Rightarrow> emit_state \<Rightarrow> dead_letter multiset" where
  "dead_total behave s = mset (em_dlq s) + (\<Sum>out \<in># owed_all behave s. mset (dead_of out))"

lemma emit_step_at_cases:
  assumes "i < length (em_procs s)" "snd (snd (em_procs s ! i)) \<noteq> Finished"
  obtains l n p p' out where "em_procs s ! i = (l, n, p)" "p \<noteq> Finished" "delivery_step behave l n p = (p', out)"
    "emit_step_at behave i s = count_outcome out (s\<lparr>em_procs := (em_procs s)[i := (l, n, p')]\<rparr>)"
proof -
  obtain l n p where p: "em_procs s ! i = (l, n, p)" by (cases "em_procs s ! i") auto
  obtain p' out where "delivery_step behave l n p = (p', out)" by fastforce
  with p assms that show ?thesis by (auto simp: emit_step_at_def)
qed

lemma count_outcome_procs [simp]: "em_procs (count_outcome out s) = em_procs s"
  by (auto simp: count_outcome_def split: option.splits outcome.splits)

lemma emit_step_totals:
  assumes "emit_step behave s s'"
  shows "delivered_total behave s' = delivered_total behave s" "dead_total behave s' = dead_total behave s"
    "em_failed s' + length (em_dlq s) = em_failed s + length (em_dlq s')"
    "em_deadLettered s' + length (em_dlq s) = em_deadLettered s + length (em_dlq s')"
proof -
  obtain i where i: "i < length (em_procs s)" "snd (snd (em_procs s ! i)) \<noteq> Finished"
      "s' = emit_step_at behave i s"
    using assms by (auto elim: emit_stepE)
  obtain l n p p' out where p: "em_procs s ! i = (l, n, p)" "p \<noteq> Finished" "delivery_step behave l n p = (p', out)"
      and s': "s' = count_outcome out (s\<lparr>em_procs := (em_procs s)[i := (l, n, p')]\<rparr>)"
    using emit_step_at_cases[OF i(1,2)] i(3) by metis
  note o = delivery_step_owed[OF p(3,2)]
  have mem: "owed behave (l, n, p) \<in># owed_all behave s"
    using i(1) p(1) by (auto simp: owed_all_def in_set_conv_nth intro!: image_eqI[of _ _ "(l, n, p)"])
  have upd: "owed_all behave s' = add_mset (owed behave (l, n, p')) (owed_all behave s - {#owed behave (l, n, p)#})"
    using i(1) p(1) by (simp add: s' owed_all_def map_update mset_update)
  obtain R where R: "owed_all behave s = add_mset (owed behave (l, n, p)) R"
    using mem by (metis insert_DiffM)
  show "delivered_total behave s' = delivered_total behave s" "dead_total behave s' = dead_total behave s"
    "em_failed s' + length (em_dlq s) = em_failed s + length (em_dlq s')"
    "em_deadLettered s' + length (em_dlq s) = em_deadLettered s + length (em_dlq s')"
    using o upd R
    by (auto simp: delivered_total_def dead_total_def s' count_outcome_def dead_of_def
        split: option.splits outcome.splits)
qed

text \<open>The work left: two steps per call still allowed.\<close>

fun work :: "listener \<times> int \<times> delivery \<Rightarrow> nat" where
  "work (l, n, Calling a) = 2 * nat (n + 1 - int a) + 1"
| "work (l, n, Sleeping a ms) = 2 * nat (n + 1 - int a) + 2"
| "work (l, n, Finished) = 0"

definition work_left :: "emit_state \<Rightarrow> nat" where
  "work_left s = (\<Sum>p\<leftarrow>em_procs s. work p)"

lemma delivery_step_work:
  "delivery_step behave l n p = (p', out) \<Longrightarrow> p \<noteq> Finished \<Longrightarrow> work (l, n, p') < work (l, n, p)"
  by (cases p) (auto simp: Let_def split: if_splits option.splits)

lemma sum_list_update_less:
  "i < length xs \<Longrightarrow> f y < (f (xs ! i) :: nat) \<Longrightarrow> (\<Sum>x\<leftarrow>xs[i := y]. f x) < (\<Sum>x\<leftarrow>xs. f x)"
  by (induction xs arbitrary: i) (auto split: nat.splits)

lemma emit_step_work: "emit_step behave s s' \<Longrightarrow> work_left s' < work_left s"
proof (elim emit_stepE)
  fix i assume i: "i < length (em_procs s)" "snd (snd (em_procs s ! i)) \<noteq> Finished" "s' = emit_step_at behave i s"
  obtain l n p p' out where p: "em_procs s ! i = (l, n, p)" "p \<noteq> Finished" "delivery_step behave l n p = (p', out)"
      "emit_step_at behave i s = count_outcome out (s\<lparr>em_procs := (em_procs s)[i := (l, n, p')]\<rparr>)"
    by (rule emit_step_at_cases[OF i(1,2)])
  show "work_left s' < work_left s"
    using sum_list_update_less[OF i(1), of work "(l, n, p')"] delivery_step_work[OF p(3,2)] p(1,4) i(3)
    by (simp add: work_left_def)
qed

text \<open>The deliveries under way: a sleeping listener has failed every call so far and waits the
  backoff of its last failure.\<close>

fun delivery_inv :: "behaviour \<Rightarrow> listener \<times> int \<times> delivery \<Rightarrow> bool" where
  "delivery_inv behave (l, n, Calling a) = (list_all (\<lambda>k. behave l k \<noteq> None) [1..<a + 1] \<and> (a = 0 \<or> int a \<le> n))"
| "delivery_inv behave (l, n, Sleeping a ms) =
     (list_all (\<lambda>k. behave l k \<noteq> None) [1..<a + 1] \<and> 1 \<le> a \<and> int a \<le> n \<and> ms = backoffMs a)"
| "delivery_inv behave (l, n, Finished) = True"

lemma delivery_step_inv:
  "delivery_inv behave (l, n, p) \<Longrightarrow> delivery_step behave l n p = (p', out) \<Longrightarrow> delivery_inv behave (l, n, p')"
  by (cases p) (auto simp: Let_def split: if_splits option.splits)

lemma emit_step_inv:
  assumes "emit_step behave s s'" "list_all (delivery_inv behave) (em_procs s)"
  shows "list_all (delivery_inv behave) (em_procs s')"
proof -
  obtain i where i: "i < length (em_procs s)" "snd (snd (em_procs s ! i)) \<noteq> Finished" "s' = emit_step_at behave i s"
    using assms(1) by (auto elim: emit_stepE)
  obtain l n p p' out where p: "em_procs s ! i = (l, n, p)" "delivery_step behave l n p = (p', out)"
      "emit_step_at behave i s = count_outcome out (s\<lparr>em_procs := (em_procs s)[i := (l, n, p')]\<rparr>)"
    by (rule emit_step_at_cases[OF i(1,2)])
  have "delivery_inv behave (l, n, p')"
    using delivery_step_inv[OF _ p(2)] assms(2) i(1) p(1) by (auto simp: list_all_length)
  then show ?thesis
    using assms(2) i(3) p(3) set_update_subset_insert[of "em_procs s" i] by (fastforce simp: list_all_iff)
qed

lemma relpowp_invariant:
  assumes "(R ^^ k) x y" "P x" "\<And>x y. R x y \<Longrightarrow> P x \<Longrightarrow> P y"
  shows "P y"
  using assms by (induction k arbitrary: y) auto

section \<open>Properties\<close>

lemma emit_start_procs:
  "em_procs (emit_start b event dlq) = map (\<lambda>l. (l, retries_of b l, Calling 0))
     (case jm_get (bus_listeners b) event of Some ls \<Rightarrow> ls | None \<Rightarrow> [])"
  by (simp add: emit_start_def)

lemma sum_mset_dead: "(\<Sum>out \<in># mset outs. mset (dead_of out)) = mset (concat (map dead_of outs))"
  by (induction outs) auto

lemma count_outcomes:
  "length (concat (map dead_of outs)) + count (mset outs) (Some Delivered) = length (filter (\<lambda>out. out \<noteq> None) outs)"
  by (induction outs) (auto simp: dead_of_def split: option.splits outcome.splits)

text \<open>Each listener's work bounds the steps; a delivery that is not done can go on; the totals are
  those of the start, and when it is done nothing is owed.\<close>

lemma emit_bounded:
  assumes "(emit_step behave ^^ k) s0 s"
  shows "k + work_left s \<le> work_left s0"
  using assms
proof (induction k arbitrary: s)
  case (Suc k)
  then obtain m where "(emit_step behave ^^ k) s0 m" "emit_step behave m s" by auto
  with Suc.IH[of m] emit_step_work[of behave m s] show ?case by simp
qed simp

lemma emit_not_stuck: "\<not> emit_done s \<Longrightarrow> \<exists>s'. emit_step behave s s'"
proof -
  assume "\<not> emit_done s"
  then obtain i where "i < length (em_procs s)" "snd (snd (em_procs s ! i)) \<noteq> Finished"
    by (auto simp: emit_done_def list_all_length case_prod_beta)
  then show "\<exists>s'. emit_step behave s s'" by (auto intro: emit_step.step)
qed

lemma emit_totals:
  assumes "(emit_step behave ^^ k) (emit_start b event dlq) s"
  shows "delivered_total behave s = delivered_total behave (emit_start b event dlq) \<and>
    dead_total behave s = dead_total behave (emit_start b event dlq) \<and>
    em_failed s + length dlq = length (em_dlq s) \<and> em_deadLettered s + length dlq = length (em_dlq s)"
proof (rule relpowp_invariant[OF assms])
  fix x y
  assume "emit_step behave x y"
    "delivered_total behave x = delivered_total behave (emit_start b event dlq) \<and>
      dead_total behave x = dead_total behave (emit_start b event dlq) \<and>
      em_failed x + length dlq = length (em_dlq x) \<and> em_deadLettered x + length dlq = length (em_dlq x)"
  then show "delivered_total behave y = delivered_total behave (emit_start b event dlq) \<and>
      dead_total behave y = dead_total behave (emit_start b event dlq) \<and>
      em_failed y + length dlq = length (em_dlq y) \<and> em_deadLettered y + length dlq = length (em_dlq y)"
    using emit_step_totals[of behave x y] by simp
qed (simp add: emit_start_def)

lemma emit_done_counts:
  assumes "(emit_step behave ^^ k) (emit_start b event dlq) s" "emit_done s"
    and "jm_get (bus_listeners b) event = Some ls"
    and "outs = map (\<lambda>l. outcome_from behave l (retries_of b l) 0) ls"
  shows "em_delivered s = count (mset outs) (Some Delivered)"
    and "mset (em_dlq s) = mset dlq + mset (concat (map dead_of outs))"
    and "em_failed s = em_deadLettered s"
    and "em_delivered s + em_failed s = length (filter (\<lambda>l. 0 \<le> retries_of b l) ls)"
proof -
  note totals = emit_totals[OF assms(1)]
  have owed0: "owed_all behave (emit_start b event dlq) = mset outs"
    using assms(3) by (simp add: owed_all_def emit_start_procs o_def assms(4))
  have "\<forall>p \<in> set (em_procs s). owed behave p = None"
    using assms(2) by (auto simp: emit_done_def list_all_iff)
  then have owed: "\<forall>x \<in># owed_all behave s. x = None" by (auto simp: owed_all_def)
  then have c: "count (owed_all behave s) (Some Delivered) = 0" by (auto simp: count_eq_zero_iff)
  have z: "(\<Sum>out \<in># owed_all behave s. mset (dead_of out)) = {#}"
    using owed by (auto simp: dead_of_def sum_mset.neutral)
  show d: "em_delivered s = count (mset outs) (Some Delivered)"
    and q: "mset (em_dlq s) = mset dlq + mset (concat (map dead_of outs))"
    using totals unfolding delivered_total_def dead_total_def owed0 c z sum_mset_dead
    by (simp_all add: emit_start_def)
  show "em_failed s = em_deadLettered s" using totals by simp
  have "length (em_dlq s) = length dlq + length (concat (map dead_of outs))"
    using arg_cong[OF q, of size] by simp
  then have "em_delivered s + em_failed s = length (filter (\<lambda>out. out \<noteq> None) outs)"
    using totals d count_outcomes[of outs] by simp
  also have "\<dots> = length (filter (\<lambda>l. 0 \<le> retries_of b l) ls)"
    unfolding assms(4) filter_map by (simp add: o_def outcome_from_None)
  finally show "em_delivered s + em_failed s = length (filter (\<lambda>l. 0 \<le> retries_of b l) ls)" .
qed

text \<open>C19: \<open>emit\<close> terminates and its result does not depend on scheduling. Whatever the order in
  which the listeners' attempts interleave, the delivery never gets stuck, takes a bounded number
  of steps, and ends with the counts and the multiset of dead letters that each listener's own
  behaviour determines; every listener with a non-negative budget is counted once.\<close>

theorem emit_deterministic:
  assumes "(emit_step behave ^^ k) (emit_start b event dlq) s"
    and "jm_get (bus_listeners b) event = Some ls"
    and "outs = map (\<lambda>l. outcome_from behave l (retries_of b l) 0) ls"
  shows "k \<le> (\<Sum>l\<leftarrow>ls. 2 * nat (retries_of b l + 1) + 1) \<and>
         (\<not> emit_done s \<longrightarrow> (\<exists>s'. emit_step behave s s')) \<and>
         (emit_done s \<longrightarrow>
            em_delivered s = count (mset outs) (Some Delivered) \<and>
            mset (em_dlq s) = mset dlq + mset (concat (map dead_of outs)) \<and>
            em_failed s = em_deadLettered s \<and>
            em_delivered s + em_failed s = length (filter (\<lambda>l. 0 \<le> retries_of b l) ls))"
proof -
  have "work_left (emit_start b event dlq) = (\<Sum>l\<leftarrow>ls. 2 * nat (retries_of b l + 1) + 1)"
    using assms(2) by (simp add: work_left_def emit_start_procs o_def)
  then show ?thesis
    using emit_bounded[OF assms(1)] emit_not_stuck[of s behave] emit_done_counts[OF assms(1) _ assms(2,3)] by auto
qed

text \<open>The witness: one listener without retries that throws.\<close>

theorem emit_deterministic_witness:
  "\<exists>s. (emit_step (\<lambda>l k. Some ''boom'') ^^ Suc 0)
        (emit_start \<lparr>bus_listeners = [(''order.placed'', [2])], bus_maxRetries = [(2, 0)]\<rparr> ''order.placed'' []) s \<and>
     em_delivered s = 0 \<and> em_failed s = 1 \<and>
     mset (em_dlq s) = {#\<lparr>dd_listener = 2, dd_reason = ''boom'', dd_attempts = 1\<rparr>#}"
proof -
  let ?beh = "\<lambda>(l :: listener) (k :: nat). Some ''boom''"
  let ?b = "\<lparr>bus_listeners = [(''order.placed'', [2])], bus_maxRetries = [(2, 0)]\<rparr>"
  let ?s = "emit_start ?b ''order.placed'' []"
  have "emit_step ?beh ?s (emit_step_at ?beh 0 ?s)"
    by (rule emit_step.step) (simp_all add: emit_start_def)
  then have r: "(emit_step ?beh ^^ Suc 0) ?s (emit_step_at ?beh 0 ?s)" by (auto simp: OO_def)
  have fin: "emit_done (emit_step_at ?beh 0 ?s)"
    by (simp add: emit_step_at_def emit_start_def retries_of_def emit_done_def count_outcome_def)
  have out: "outcome_from ?beh 2 (retries_of ?b 2) 0
      = Some (DeadLettered \<lparr>dd_listener = 2, dd_reason = ''boom'', dd_attempts = 1\<rparr>)"
    by (simp add: outcome_from_def retries_of_def)
  from emit_deterministic[OF r, of "[2]" "[outcome_from ?beh 2 (retries_of ?b 2) 0]"] fin out r
  show ?thesis by (intro exI[of _ "emit_step_at ?beh 0 ?s"]) (auto simp: dead_of_def retries_of_def)
qed



text \<open>A negative budget: the listener is never called, and counted neither as delivered nor as
  failed.\<close>

lemma negative_budget_skips: "n < 0 \<Longrightarrow> delivery_step behave l n (Calling 0) = (Finished, None)"
  by simp

end
