(* ===== verification/Sql.thy ===== *)
theory Sql
  imports Context
begin

text \<open>
  The SQL template tag (packages/db/src/sql/template.ts), the governance log with its sudo and raw
  queries (tenancy/index.ts, governance/sudo.ts), and the context service (context.ts).
  Interpolated values are JSON values: the template recognises a fragment by its \<open>_type\<close> property
  alone.
\<close>

section \<open>Fragments\<close>

record sql_fragment =
  fr_sql :: string
  fr_params :: "json list"

definition fragment_value :: "sql_fragment \<Rightarrow> json" where
  "fragment_value f = JObj [(''_type'', JStr ''SqlFragment''), (''sql'', JStr (fr_sql f)),
     (''params'', JArr (fr_params f))]"

definition isFragment :: "json \<Rightarrow> bool" where
  "isFragment v \<longleftrightarrow> jget v ''_type'' = Some (JStr ''SqlFragment'')"

text \<open>\<open>replace(/\$(\d+)/g, (_, n) => `$${parseInt(n) + offset}`)\<close>.\<close>

function renumber :: "nat \<Rightarrow> string \<Rightarrow> string" where
  "renumber off [] = []"
| "renumber off (c # cs) =
     (let ds = takeWhile is_digit_char cs
      in if c = CHR ''$'' \<and> ds \<noteq> []
         then CHR ''$'' # nat_to_string (parse_digits ds + off) @ renumber off (dropWhile is_digit_char cs)
         else c # renumber off cs)"
  by pat_completeness auto
termination
  by (relation "measure (\<lambda>(off, s). length s)") (auto simp: less_Suc_eq_le length_dropWhile_le)

declare renumber.simps(2) [simp del]

text \<open>\<open>value.sql\<close> and \<open>...value.params\<close> on a value that only claims to be a fragment.\<close>

definition fragment_sql :: "json \<Rightarrow> string result" where
  "fragment_sql v =
     (case jget v ''sql'' of
        Some (JStr s) \<Rightarrow> Inr s
      | None \<Rightarrow> Inl (Err (plain_error ''TypeError'' (''Cannot read properties of undefined (reading '' @ [quote_char] @ ''replace'' @ [quote_char] @ '')'')))
      | Some JNull \<Rightarrow> Inl (Err (plain_error ''TypeError'' (''Cannot read properties of null (reading '' @ [quote_char] @ ''replace'' @ [quote_char] @ '')'')))
      | Some _ \<Rightarrow> Inl (Err (plain_error ''TypeError'' ''value.sql.replace is not a function'')))"

definition fragment_params :: "json \<Rightarrow> json list result" where
  "fragment_params v =
     (case jget v ''params'' of
        Some (JArr ps) \<Rightarrow> Inr ps
      | Some (JStr s) \<Rightarrow> Inr (map (\<lambda>c. JStr [c]) s)
      | _ \<Rightarrow> Inl (Err (plain_error ''TypeError''
               ''Spread syntax requires ...iterable[Symbol.iterator] to be a function'')))"

section \<open>The template loop\<close>

definition add_value :: "json \<Rightarrow> string \<Rightarrow> json list \<Rightarrow> (string \<times> json list) result" where
  "add_value v text params =
     (if isFragment v
      then and_then (fragment_sql v) (\<lambda>s. and_then (fragment_params v) (\<lambda>ps.
             Inr (text @ renumber (length params) s, params @ ps)))
      else Inr (text @ CHR ''$'' # nat_to_string (Suc (length params)), params @ [v]))"

fun template_loop :: "string list \<Rightarrow> json list \<Rightarrow> string \<times> json list \<Rightarrow> (string \<times> json list) result" where
  "template_loop [] values acc = Inr acc"
| "template_loop (s # strings) [] (text, params) = template_loop strings [] (text @ s, params)"
| "template_loop (s # strings) (v # values) (text, params) =
     and_then (add_value v (text @ s) params) (template_loop strings values)"

definition fragment :: "string list \<Rightarrow> json list \<Rightarrow> sql_fragment result" where
  "fragment strings values =
     and_then (template_loop strings values ([], [])) (\<lambda>(s, ps). Inr \<lparr>fr_sql = s, fr_params = ps\<rparr>)"

fun join_loop :: "sql_fragment list \<Rightarrow> sql_fragment \<Rightarrow> string \<times> json list \<Rightarrow> string \<times> json list" where
  "join_loop [] separator acc = acc"
| "join_loop [f] separator (text, params) = (text @ renumber (length params) (fr_sql f), params @ fr_params f)"
| "join_loop (f # fs) separator (text, params) =
     (let text = text @ renumber (length params) (fr_sql f); params = params @ fr_params f
      in join_loop fs separator
           (text @ renumber (length params) (fr_sql separator), params @ fr_params separator))"

definition sql_join :: "sql_fragment list \<Rightarrow> sql_fragment \<Rightarrow> sql_fragment" where
  "sql_join fragments separator =
     (if fragments = [] then \<lparr>fr_sql = [], fr_params = []\<rparr>
      else let (s, ps) = join_loop fragments separator ([], []) in \<lparr>fr_sql = s, fr_params = ps\<rparr>)"

section \<open>Filter injection\<close>

text \<open>The first match of \<open>/\b(w1|w2|...)\b/i\<close> for upper-case words: its index and length.
  \<open>prev\<close> tells whether the character before is a word character.\<close>

definition match_word :: "bool \<Rightarrow> string \<Rightarrow> string \<Rightarrow> bool" where
  "match_word prev s w \<longleftrightarrow> \<not> prev \<and> starts_with (to_upper s) w \<and>
     (let r = drop (length w) s in r = [] \<or> \<not> is_word_char (hd r))"

fun find_word :: "bool \<Rightarrow> string list \<Rightarrow> string \<Rightarrow> (nat \<times> nat) option" where
  "find_word prev ws [] = None"
| "find_word prev ws (c # cs) =
     (case find (match_word prev (c # cs)) ws of
        Some w \<Rightarrow> Some (0, length w)
      | None \<Rightarrow> map_option (\<lambda>(i, l). (Suc i, l)) (find_word (is_word_char c) ws cs))"

text \<open>The replacement patterns of \<open>String.prototype.replace\<close> for a match without groups.\<close>

fun expand_replacement :: "string \<Rightarrow> string \<Rightarrow> string \<Rightarrow> string \<Rightarrow> string" where
  "expand_replacement before matched after [] = []"
| "expand_replacement before matched after [c] = [c]"
| "expand_replacement before matched after (c # d # r) =
     (if c \<noteq> CHR ''$'' then c # expand_replacement before matched after (d # r)
      else if d = CHR ''$'' then CHR ''$'' # expand_replacement before matched after r
      else if d = CHR ''&'' then matched @ expand_replacement before matched after r
      else if d = CHR 0x60 then before @ expand_replacement before matched after r
      else if d = quote_char then after @ expand_replacement before matched after r
      else c # expand_replacement before matched after (d # r))"

definition escape_quotes :: "string \<Rightarrow> string" where
  "escape_quotes s = concat (map (\<lambda>c. if c = quote_char then [quote_char, quote_char] else [c]) s)"

definition tenant_filter :: "string \<Rightarrow> string" where
  "tenant_filter tenantId =
     ''org_id = '' @ [quote_char] @ escape_quotes tenantId @ [quote_char] @ '' AND deleted_at IS NULL''"

definition injectFilters :: "string \<Rightarrow> string \<Rightarrow> string" where
  "injectFilters s tenantId =
     (if \<not> starts_with (to_upper (trim s)) ''SELECT'' then s
      else if includes_str (to_lower s) ''org_id'' then s
      else case find_word False [''WHERE''] s of
        Some (i, l) \<Rightarrow> take i s @ expand_replacement (take i s) (take l (drop i s)) (drop (i + l) s)
            (''WHERE '' @ tenant_filter tenantId @ '' AND'') @ drop (i + l) s
      | None \<Rightarrow> (case find_word False [''ORDER BY'', ''LIMIT'', ''GROUP BY'', ''HAVING''] s of
          Some (i, l) \<Rightarrow> take i s @ ''WHERE '' @ tenant_filter tenantId @ '' '' @ drop i s
        | None \<Rightarrow> s @ '' WHERE '' @ tenant_filter tenantId))"

record sql_query =
  sq_text :: string
  sq_params :: "json list"
  sq_tenantId :: string

definition sql_tag :: "als \<Rightarrow> string list \<Rightarrow> json list \<Rightarrow> sql_query result" where
  "sql_tag s strings values =
     and_then (getTenantId s) (\<lambda>tenantId.
     and_then (template_loop strings values ([], [])) (\<lambda>(text, params).
       Inr \<lparr>sq_text = injectFilters (trim text) tenantId, sq_params = params, sq_tenantId = tenantId\<rparr>))"

section \<open>Governance\<close>

datatype governance_type = GOVERNANCE_SUDO_ACCESS | GOVERNANCE_RAW_QUERY

record governance_record =
  gr_type :: governance_type
  gr_userId :: "string option"
  gr_tenantId :: string
  gr_traceId :: string
  gr_timestamp :: int
  gr_sql :: "string option"

type_synonym governance_log = "governance_record list"

definition clearGovernanceLog :: "governance_log \<Rightarrow> governance_log" where
  "clearGovernanceLog glog = []"

definition recordGovernance :: "als \<Rightarrow> int \<Rightarrow> governance_type \<Rightarrow> string option \<Rightarrow> governance_log
    \<Rightarrow> governance_log result" where
  "recordGovernance s now typ q glog = and_then (getContext s) (\<lambda>ctx.
     Inr (glog @ [\<lparr>gr_type = typ, gr_userId = st_userId ctx, gr_tenantId = st_tenantId ctx,
                  gr_traceId = st_traceId ctx, gr_timestamp = now, gr_sql = q\<rparr>]))"

fun sudo_loop :: "string list \<Rightarrow> json list \<Rightarrow> string \<times> json list \<Rightarrow> string \<times> json list" where
  "sudo_loop [] values acc = acc"
| "sudo_loop (s # strings) [] (text, params) = sudo_loop strings [] (text @ s, params)"
| "sudo_loop (s # strings) (v # values) (text, params) =
     sudo_loop strings values (text @ s @ CHR ''$'' # nat_to_string (Suc (length params)), params @ [v])"

definition sudo_sql :: "string list \<Rightarrow> json list \<Rightarrow> sql_query" where
  "sudo_sql strings values =
     (let (text, params) = sudo_loop strings values ([], [])
      in \<lparr>sq_text = trim text, sq_params = params, sq_tenantId = ''__sudo__''\<rparr>)"

text \<open>\<open>db.sudo()\<close> writes the glog and returns the builder \<open>sudo_sql\<close>.\<close>

definition db_sudo :: "als \<Rightarrow> int \<Rightarrow> governance_log \<Rightarrow> (string list \<Rightarrow> json list \<Rightarrow> sql_query) result \<times> governance_log" where
  "db_sudo s now glog =
     (case recordGovernance s now GOVERNANCE_SUDO_ACCESS None glog of
        Inl e \<Rightarrow> (Inl e, glog)
      | Inr glog' \<Rightarrow> (Inr sudo_sql, glog'))"

definition db_raw :: "als \<Rightarrow> int \<Rightarrow> string \<Rightarrow> governance_log \<Rightarrow> sql_query result \<times> governance_log" where
  "db_raw s now q glog =
     (case recordGovernance s now GOVERNANCE_RAW_QUERY (Some q) glog of
        Inl e \<Rightarrow> (Inl e, glog)
      | Inr glog' \<Rightarrow> (Inr \<lparr>sq_text = q, sq_params = [], sq_tenantId = ''__raw__''\<rparr>, glog'))"

definition createSudoBuilder where "createSudoBuilder = db_sudo"

definition createRawQuery where "createRawQuery = db_raw"

text \<open>The service registered under the name \<open>db\<close>.\<close>

datatype context_db = ContextDb

definition register_db :: "context_db factories \<Rightarrow> context_db factories" where
  "register_db fs = registerContextService fs ''db'' (\<lambda>_. ContextDb)"

section \<open>What a compiled text denotes\<close>

text \<open>A text is a sequence of characters and placeholders; with its parameters, of characters and
  values. \<open>Hole None\<close> is a placeholder without a parameter.\<close>

datatype 'a piece = Ch char | Hole 'a

function tokens :: "string \<Rightarrow> nat piece list" where
  "tokens [] = []"
| "tokens (c # cs) =
     (let ds = takeWhile is_digit_char cs
      in if c = CHR ''$'' \<and> ds \<noteq> [] then Hole (parse_digits ds) # tokens (dropWhile is_digit_char cs)
         else Ch c # tokens cs)"
  by pat_completeness auto
termination
  by (relation "measure length") (auto simp: less_Suc_eq_le length_dropWhile_le)

declare tokens.simps(2) [simp del]

definition param_at :: "json list \<Rightarrow> nat \<Rightarrow> json option" where
  "param_at ps n = (if 1 \<le> n \<and> n \<le> length ps then Some (ps ! (n - 1)) else None)"

definition bound :: "string \<Rightarrow> json list \<Rightarrow> json option piece list" where
  "bound text ps = map (map_piece (param_at ps)) (tokens text)"

definition holes_ok :: "string \<Rightarrow> json list \<Rightarrow> bool" where
  "holes_ok text ps \<longleftrightarrow> (\<forall>n. Hole n \<in> set (tokens text) \<longrightarrow> 1 \<le> n \<and> n \<le> length ps)"

definition no_digit_start :: "string \<Rightarrow> bool" where
  "no_digit_start s \<longleftrightarrow> (s = [] \<or> \<not> is_digit_char (hd s))"

lemma while_digits_append:
  assumes "no_digit_start b"
  shows "takeWhile is_digit_char (a @ b) = takeWhile is_digit_char a"
    "dropWhile is_digit_char (a @ b) = dropWhile is_digit_char a @ b"
proof -
  have "takeWhile is_digit_char b = []" "dropWhile is_digit_char b = b"
    using assms by (cases b; simp add: no_digit_start_def)+
  then show "takeWhile is_digit_char (a @ b) = takeWhile is_digit_char a"
    "dropWhile is_digit_char (a @ b) = dropWhile is_digit_char a @ b"
    by (induction a) auto
qed

lemma tokens_append: "no_digit_start b \<Longrightarrow> tokens (a @ b) = tokens a @ tokens b"
proof (induction a rule: tokens.induct)
  case (2 c cs)
  then show ?case
    by (cases "c = CHR ''$'' \<and> takeWhile is_digit_char cs \<noteq> []")
      (auto simp: tokens.simps(2)[of c] tokens.simps(2)[of "CHR ''$''"] while_digits_append Let_def)
qed simp

lemma no_digit_start_renumber: "no_digit_start s \<Longrightarrow> no_digit_start (renumber off s)"
  by (cases s) (auto simp: no_digit_start_def renumber.simps(2) Let_def)

lemma no_digit_start_dropWhile: "no_digit_start (dropWhile is_digit_char s)"
  using hd_dropWhile[of is_digit_char s] by (auto simp: no_digit_start_def)

lemma tokens_placeholder:
  "no_digit_start r \<Longrightarrow> tokens (CHR ''$'' # nat_to_string n @ r) = Hole n # tokens r"
  by (simp add: tokens.simps(2) while_digits_append Let_def)

lemma tokens_renumber: "tokens (renumber off s) = map (map_piece (\<lambda>n. n + off)) (tokens s)"
proof (induction off s rule: renumber.induct)
  case (2 off c cs)
  show ?case
  proof (cases "c = CHR ''$'' \<and> takeWhile is_digit_char cs \<noteq> []")
    case True
    have "no_digit_start (renumber off (dropWhile is_digit_char cs))"
      by (intro no_digit_start_renumber no_digit_start_dropWhile)
    with True 2(1) show ?thesis
      by (simp add: renumber.simps(2)[of off "CHR ''$''"] tokens.simps(2)[of "CHR ''$''" cs] Let_def tokens_placeholder)
  next
    case False
    have "takeWhile is_digit_char (renumber off cs) \<noteq> [] \<Longrightarrow> takeWhile is_digit_char cs \<noteq> []"
      by (cases cs) (auto simp: renumber.simps(2) Let_def is_digit_char_def less_eq_char_def split: if_splits)
    with False 2(2) show ?thesis
      by (auto simp: renumber.simps(2)[of off c] tokens.simps(2)[of c] Let_def)
  qed
qed simp

lemma tokens_plain: "CHR ''$'' \<notin> set s \<Longrightarrow> tokens s = map Ch s"
  by (induction s) (auto simp: tokens.simps(2) Let_def)

text \<open>Appending a piece of text with its own parameters.\<close>

lemma bound_append:
  assumes "holes_ok t ps" "holes_ok q qs" "no_digit_start q"
  shows "bound (t @ renumber (length ps) q) (ps @ qs) = bound t ps @ bound q qs"
    and "holes_ok (t @ renumber (length ps) q) (ps @ qs)"
proof -
  note app = tokens_append[OF no_digit_start_renumber[OF assms(3)]]
  have "map_piece (param_at (ps @ qs)) p = map_piece (param_at ps) p" if "p \<in> set (tokens t)" for p
    by (cases p) (use that assms(1) in \<open>auto simp: holes_ok_def param_at_def nth_append\<close>)
  then have "map (map_piece (param_at (ps @ qs))) (tokens t) = bound t ps"
    by (simp add: bound_def)
  moreover have "map_piece (param_at (ps @ qs)) (map_piece (\<lambda>n. n + length ps) p) = map_piece (param_at qs) p"
    if "p \<in> set (tokens q)" for p
    by (cases p) (use that assms(2) in \<open>fastforce simp: holes_ok_def param_at_def nth_append\<close>)+
  then have "map (map_piece (param_at (ps @ qs))) (tokens (renumber (length ps) q)) = bound q qs"
    by (simp add: bound_def tokens_renumber)
  ultimately show "bound (t @ renumber (length ps) q) (ps @ qs) = bound t ps @ bound q qs"
    by (simp add: bound_def app)
  show "holes_ok (t @ renumber (length ps) q) (ps @ qs)"
    unfolding holes_ok_def app
  proof (intro allI impI)
    fix n assume "Hole n \<in> set (tokens t @ tokens (renumber (length ps) q))"
    then consider "Hole n \<in> set (tokens t)" | p where "p \<in> set (tokens q)" "Hole n = map_piece (\<lambda>n. n + length ps) p"
      by (auto simp: tokens_renumber)
    then show "1 \<le> n \<and> n \<le> length (ps @ qs)"
    proof cases
      case 1
      then show ?thesis using assms(1) by (auto simp: holes_ok_def)
    next
      case 2
      show ?thesis by (cases p) (use 2 assms(2) in \<open>auto simp: holes_ok_def\<close>)
    qed
  qed
qed

text \<open>What a template means: its literal parts, each argument at its place, fragments with their own
  arguments. A value may be interpolated when it is no fragment, or one whose text does not start
  with a digit and whose placeholders are its own parameters.\<close>

definition valid_value :: "json \<Rightarrow> bool" where
  "valid_value v \<longleftrightarrow> (isFragment v \<longrightarrow>
     (\<exists>q ps. fragment_sql v = Inr q \<and> fragment_params v = Inr ps \<and> no_digit_start q \<and> holes_ok q ps))"

definition value_pieces :: "json \<Rightarrow> json option piece list" where
  "value_pieces v =
     (if isFragment v
      then (case (fragment_sql v, fragment_params v) of (Inr q, Inr ps) \<Rightarrow> bound q ps | _ \<Rightarrow> [])
      else [Hole (Some v)])"

fun template_pieces :: "string list \<Rightarrow> json list \<Rightarrow> json option piece list" where
  "template_pieces [] values = []"
| "template_pieces (s # strings) [] = map Ch s @ template_pieces strings []"
| "template_pieces (s # strings) (v # values) = map Ch s @ value_pieces v @ template_pieces strings values"

lemma bound_plain:
  assumes "holes_ok t ps" "CHR ''$'' \<notin> set s" "t = [] \<or> no_digit_start s"
  shows "bound (t @ s) ps = bound t ps @ map Ch s" "holes_ok (t @ s) ps"
proof -
  have "tokens (t @ s) = tokens t @ map Ch s"
    using assms(2,3) tokens_append tokens_plain by auto
  then show "bound (t @ s) ps = bound t ps @ map Ch s" "holes_ok (t @ s) ps"
    using assms(1) by (auto simp: bound_def holes_ok_def)
qed

lemma add_value_pieces:
  assumes "holes_ok t ps" "valid_value v"
  shows "\<exists>t' ps'. add_value v t ps = Inr (t', ps') \<and> bound t' ps' = bound t ps @ value_pieces v \<and> holes_ok t' ps'"
proof (cases "isFragment v")
  case True
  with assms(2) obtain q qs where "fragment_sql v = Inr q" "fragment_params v = Inr qs"
      "no_digit_start q" "holes_ok q qs"
    by (auto simp: valid_value_def)
  then show ?thesis
    using bound_append[OF assms(1), of q qs] True by (simp add: add_value_def value_pieces_def)
next
  case False
  define q where "q = CHR ''$'' # nat_to_string 1"
  have q: "tokens q = [Hole 1]" using tokens_placeholder[of "[]" 1] by (simp add: q_def no_digit_start_def)
  then have "holes_ok q [v]" "bound q [v] = [Hole (Some v)]"
    by (auto simp: holes_ok_def bound_def param_at_def)
  moreover have "no_digit_start q" by (simp add: q_def no_digit_start_def is_digit_char_def less_eq_char_def)
  moreover have "renumber (length ps) q = CHR ''$'' # nat_to_string (Suc (length ps))"
    by (simp add: q_def renumber.simps(2) Let_def)
  ultimately show ?thesis
    using bound_append[OF assms(1), of q "[v]"] False by (simp add: add_value_def value_pieces_def)
qed

lemma template_loop_pieces:
  "holes_ok t ps \<Longrightarrow> \<forall>s \<in> set strings. CHR ''$'' \<notin> set s \<Longrightarrow> \<forall>v \<in> set values. valid_value v \<Longrightarrow>
   \<forall>s \<in> set (tl strings). no_digit_start s \<Longrightarrow> t = [] \<or> strings = [] \<or> no_digit_start (hd strings) \<Longrightarrow>
   \<exists>t' ps'. template_loop strings values (t, ps) = Inr (t', ps') \<and>
     bound t' ps' = bound t ps @ template_pieces strings values \<and> holes_ok t' ps'"
proof (induction strings "values" "(t, ps)" arbitrary: t ps rule: template_loop.induct)
  case (2 s strings t ps)
  note b = bound_plain[of t ps s]
  have "\<exists>t' ps'. template_loop strings [] (t @ s, ps) = Inr (t', ps') \<and>
     bound t' ps' = bound (t @ s) ps @ template_pieces strings [] \<and> holes_ok t' ps'"
    using 2(2-6) b by (intro 2(1)) (auto, (cases strings, auto)+)
  then show ?case using b 2(2-6) by auto
next
  case (3 s strings v vs t ps)
  have b: "bound (t @ s) ps = bound t ps @ map Ch s" "holes_ok (t @ s) ps"
    using bound_plain[of t ps s] 3(2-6) by auto
  obtain t1 ps1 where a: "add_value v (t @ s) ps = Inr (t1, ps1)"
      "bound t1 ps1 = bound (t @ s) ps @ value_pieces v" "holes_ok t1 ps1"
    using add_value_pieces[OF b(2), of v] 3(4) by auto
  have "\<exists>t' ps'. template_loop strings vs (t1, ps1) = Inr (t', ps') \<and>
     bound t' ps' = bound t1 ps1 @ template_pieces strings vs \<and> holes_ok t' ps'"
    using 3(3-6) a(3) by (intro 3(1)) (auto, (cases strings, auto)+)
  then show ?case using a b by auto
qed auto

text \<open>A fragment built by the tag may be interpolated again, so templates nest.\<close>

lemma valid_fragment_value:
  assumes "\<forall>s \<in> set strings. CHR ''$'' \<notin> set s \<and> no_digit_start s" "\<forall>v \<in> set values. valid_value v"
  shows "\<exists>f. fragment strings values = Inr f \<and> bound (fr_sql f) (fr_params f) = template_pieces strings values \<and>
    (no_digit_start (fr_sql f) \<longrightarrow> valid_value (fragment_value f))"
proof -
  have "holes_ok [] []" by (simp add: holes_ok_def)
  moreover have "\<forall>s \<in> set (tl strings). no_digit_start s" using assms(1) by (cases strings) auto
  ultimately have "\<exists>t ps. template_loop strings values ([], []) = Inr (t, ps) \<and>
      bound t ps = bound [] [] @ template_pieces strings values \<and> holes_ok t ps"
    using assms by (intro template_loop_pieces) auto
  then obtain t ps where
    "template_loop strings values ([], []) = Inr (t, ps)" "bound t ps = bound [] [] @ template_pieces strings values"
    "holes_ok t ps"
    by blast
  then show ?thesis
    by (auto simp: fragment_def valid_value_def fragment_value_def fragment_sql_def fragment_params_def bound_def)
qed

section \<open>The injected filter\<close>

lemma find_word_Some:
  "find_word prev ws s = Some (i, l) \<Longrightarrow>
   i + l \<le> length s \<and> to_upper (take l (drop i s)) \<in> set ws"
proof (induction prev ws s arbitrary: i rule: find_word.induct)
  case (2 prev ws c cs)
  show ?case
  proof (cases "find (match_word prev (c # cs)) ws")
    case None
    with 2 show ?thesis by auto
  next
    case (Some w)
    then have w: "match_word prev (c # cs) w" "w \<in> set ws"
      by (auto simp: find_Some_iff)
    then obtain r where r: "to_upper (c # cs) = w @ r" by (auto simp: match_word_def starts_with_iff)
    then have "length (to_upper (c # cs)) = length w + length r" "take (length w) (to_upper (c # cs)) = w"
      by (metis length_append) (metis append_eq_conv_conj r)
    then have "length w \<le> length (c # cs)" "to_upper (take (length w) (c # cs)) = w"
      unfolding to_upper_def take_map[symmetric] by simp_all
    with Some 2(2) w(2) show ?thesis by auto
  qed
qed simp

lemma expand_replacement_plain: "CHR ''$'' \<notin> set r \<Longrightarrow> expand_replacement before matched after r = r"
  by (induction before matched after r rule: expand_replacement.induct) auto

lemma set_escape_quotes: "set (escape_quotes s) \<subseteq> insert quote_char (set s)"
  by (auto simp: escape_quotes_def split: if_splits)

text \<open>Reading an SQL string literal after its opening quote: its value and what follows.\<close>

fun read_literal :: "string \<Rightarrow> (string \<times> string) option" where
  "read_literal [] = None"
| "read_literal [c] = (if c = quote_char then Some ([], []) else None)"
| "read_literal (c # d # r) =
     (if c = quote_char
      then if d = quote_char then map_option (\<lambda>(v, q). (quote_char # v, q)) (read_literal r) else Some ([], d # r)
      else map_option (\<lambda>(v, q). (c # v, q)) (read_literal (d # r)))"

lemma read_literal_Cons: "c \<noteq> quote_char \<Longrightarrow> read_literal (c # r) = map_option (\<lambda>(v, q). (c # v, q)) (read_literal r)"
  by (cases r) auto

lemma read_escaped:
  "r = [] \<or> hd r \<noteq> quote_char \<Longrightarrow> read_literal (escape_quotes t @ quote_char # r) = Some (t, r)"
proof (induction t)
  case Nil
  then show ?case by (cases r) (auto simp: escape_quotes_def)
next
  case (Cons c t)
  have "escape_quotes (c # t) = (if c = quote_char then [quote_char, quote_char] else [c]) @ escape_quotes t"
    by (simp add: escape_quotes_def)
  with Cons show ?case by (simp add: read_literal_Cons)
qed

section \<open>Audit\<close>

text \<open>A session of governance calls, each under the context it is made in.\<close>

datatype governance_op = OpSudo als int | OpRaw als int string

fun governance_step :: "governance_op \<Rightarrow> governance_log \<Rightarrow> sql_query option \<times> governance_log" where
  "governance_step (OpSudo s now) glog = (None, snd (db_sudo s now glog))"
| "governance_step (OpRaw s now q) glog =
     (case db_raw s now q glog of (Inr r, glog') \<Rightarrow> (Some r, glog') | (Inl e, glog') \<Rightarrow> (None, glog'))"

fun governance_run :: "governance_op list \<Rightarrow> governance_log \<Rightarrow> sql_query list \<times> governance_log" where
  "governance_run [] glog = ([], glog)"
| "governance_run (op # ops) glog =
     (let (q, glog') = governance_step op glog; (qs, glog'') = governance_run ops glog'
      in ((case q of Some q \<Rightarrow> [q] | None \<Rightarrow> []) @ qs, glog''))"

fun op_context :: "governance_op \<Rightarrow> als" where
  "op_context (OpSudo s now) = s"
| "op_context (OpRaw s now q) = s"

lemma governance_step_log:
  "governance_step op glog =
     (case op_context op of None \<Rightarrow> (None, glog)
      | Some st \<Rightarrow>
          (case op of
             OpSudo _ now \<Rightarrow> (None, glog @ [\<lparr>gr_type = GOVERNANCE_SUDO_ACCESS, gr_userId = st_userId st,
               gr_tenantId = st_tenantId st, gr_traceId = st_traceId st, gr_timestamp = now, gr_sql = None\<rparr>])
           | OpRaw _ now q \<Rightarrow> (Some \<lparr>sq_text = q, sq_params = [], sq_tenantId = ''__raw__''\<rparr>,
               glog @ [\<lparr>gr_type = GOVERNANCE_RAW_QUERY, gr_userId = st_userId st,
               gr_tenantId = st_tenantId st, gr_traceId = st_traceId st, gr_timestamp = now, gr_sql = Some q\<rparr>])))"
  by (cases op; cases "op_context op") (auto simp: db_sudo_def db_raw_def recordGovernance_def)

section \<open>Properties\<close>

text \<open>C10: compiling a template is composing its pieces. When the literal parts contain no dollar
  sign and do not begin with a digit, and every interpolated fragment carries its own parameters,
  the compiled text with its parameters denotes exactly the literal characters with each argument
  at its own place, however deep the fragments nest, and no placeholder is without a parameter.\<close>

theorem template_composes:
  assumes "\<forall>s \<in> set strings. CHR ''$'' \<notin> set s" and "\<forall>s \<in> set (tl strings). no_digit_start s"
    and "\<forall>v \<in> set args. valid_value v"
  shows "\<exists>text ps. template_loop strings args ([], []) = Inr (text, ps) \<and>
           bound text ps = template_pieces strings args \<and> Hole None \<notin> set (bound text ps)"
proof -
  have "holes_ok [] []" by (simp add: holes_ok_def)
  then obtain t ps where t: "template_loop strings args ([], []) = Inr (t, ps)"
      "bound t ps = bound [] [] @ template_pieces strings args" "holes_ok t ps"
    using template_loop_pieces[of "[]" "[]" strings args] assms by blast
  have "map_piece (param_at ps) p \<noteq> Hole None" if "p \<in> set (tokens t)" for p
    by (cases p) (use that t(3) in \<open>auto simp: holes_ok_def param_at_def\<close>)
  then have "Hole None \<notin> set (bound t ps)" by (fastforce simp: bound_def)
  moreover have "bound [] [] = []" by (simp add: bound_def)
  ultimately show ?thesis using t(1,2) by simp
qed

text \<open>The witness: a fragment after a parameter is renumbered to the second placeholder.\<close>

theorem template_composes_witness:
  "template_loop [''SELECT * FROM t WHERE a = '', '' AND '', '' LIMIT 5'']
       [JNum 7, fragment_value \<lparr>fr_sql = ''b = $1'', fr_params = [JStr ''x'']\<rparr>] ([], [])
     = Inr (''SELECT * FROM t WHERE a = $1 AND b = $2 LIMIT 5'', [JNum 7, JStr ''x'']) \<and>
   (\<exists>text ps. template_loop [''SELECT * FROM t WHERE a = '', '' AND '', '' LIMIT 5'']
       [JNum 7, fragment_value \<lparr>fr_sql = ''b = $1'', fr_params = [JStr ''x'']\<rparr>] ([], []) = Inr (text, ps) \<and>
     Hole None \<notin> set (bound text ps))"
proof
  let ?strings = "[''SELECT * FROM t WHERE a = '', '' AND '', '' LIMIT 5'']"
  let ?f = "fragment_value \<lparr>fr_sql = ''b = $1'', fr_params = [JStr ''x'']\<rparr>"
  show "template_loop ?strings [JNum 7, ?f] ([], [])
     = Inr (''SELECT * FROM t WHERE a = $1 AND b = $2 LIMIT 5'', [JNum 7, JStr ''x''])"
    by code_simp
  have "tokens ''b = $1'' = [Ch CHR ''b'', Ch CHR '' '', Ch CHR ''='', Ch CHR '' '', Hole 1]" by code_simp
  then have "holes_ok ''b = $1'' [JStr ''x'']" by (auto simp: holes_ok_def)
  moreover have "no_digit_start ''b = $1''" by code_simp
  ultimately have "valid_value ?f"
    by (simp add: valid_value_def fragment_value_def fragment_sql_def fragment_params_def)
  moreover have "valid_value (JNum 7)" by (simp add: valid_value_def isFragment_def)
  moreover have "no_digit_start '' AND ''" "no_digit_start '' LIMIT 5''" by code_simp+
  ultimately show "\<exists>text ps. template_loop ?strings [JNum 7, ?f] ([], []) = Inr (text, ps) \<and>
      Hole None \<notin> set (bound text ps)"
    using template_composes[of ?strings "[JNum 7, ?f]"] by auto
qed

text \<open>C11: the tenant filter. For every SELECT that does not mention \<open>org_id\<close> and a tenant id
  without a dollar sign, the injected text is the query's own text with one condition inserted;
  the quoted literal in it reads back as exactly the tenant id, whatever quotes it contains, and
  the soft-delete condition follows it.\<close>

theorem tenant_filter_injected:
  assumes "starts_with (to_upper (trim q)) ''SELECT''" and "\<not> includes_str (to_lower q) ''org_id''"
    and "CHR ''$'' \<notin> set tenantId"
  shows "\<exists>before rest after. injectFilters q tenantId = before @ ''WHERE org_id = '' @ quote_char # rest \<and>
           read_literal rest = Some (tenantId, '' AND deleted_at IS NULL'' @ after) \<and>
           ((\<exists>w tail. q = before @ w @ tail \<and> to_upper w = ''WHERE'' \<and> after = '' AND'' @ tail) \<or>
            (\<exists>tail. q = before @ tail \<and> after = '' '' @ tail) \<or> (before = q @ '' '' \<and> after = []))"
proof -
  have lit: "read_literal (escape_quotes tenantId @ quote_char # '' AND deleted_at IS NULL'' @ after)
      = Some (tenantId, '' AND deleted_at IS NULL'' @ after)" for after
    by (rule read_escaped) simp
  have inj: "\<exists>before rest after. injectFilters q tenantId = before @ ''WHERE org_id = '' @ quote_char # rest \<and>
      read_literal rest = Some (tenantId, '' AND deleted_at IS NULL'' @ after) \<and> P before after"
    if "injectFilters q tenantId = before @ ''WHERE '' @ tenant_filter tenantId @ after" "P before after"
    for before after and P :: "string \<Rightarrow> string \<Rightarrow> bool"
    using that lit[of after] by (auto simp: tenant_filter_def)
  show ?thesis
  proof (cases "find_word False [''WHERE''] q")
    case (Some il)
    then obtain i l where il: "find_word False [''WHERE''] q = Some (i, l)" by (cases il) auto
    have "CHR ''$'' \<notin> set (''WHERE '' @ tenant_filter tenantId @ '' AND'')"
      using assms(3) set_escape_quotes[of tenantId] by (auto simp: tenant_filter_def)
    from expand_replacement_plain[OF this] have "injectFilters q tenantId
        = take i q @ (''WHERE '' @ tenant_filter tenantId @ '' AND'') @ drop (i + l) q"
      using assms(1,2) il by (simp only: injectFilters_def if_True if_False not_True_eq_False
        not_False_eq_True option.case prod.case)
    then have "injectFilters q tenantId
        = take i q @ ''WHERE '' @ tenant_filter tenantId @ '' AND'' @ drop (i + l) q"
      by (simp only: append_assoc)
    moreover have "q = take i q @ take l (drop i q) @ drop (i + l) q"
      by (metis append_take_drop_id drop_drop add.commute)
    ultimately show ?thesis using find_word_Some[OF il] by (intro inj) auto
  next
    case None
    note none = this
    show ?thesis
    proof (cases "find_word False [''ORDER BY'', ''LIMIT'', ''GROUP BY'', ''HAVING''] q")
      case (Some il)
      then obtain i l where "find_word False [''ORDER BY'', ''LIMIT'', ''GROUP BY'', ''HAVING''] q = Some (i, l)"
        by (cases il) auto
      then have "injectFilters q tenantId = take i q @ ''WHERE '' @ tenant_filter tenantId @ '' '' @ drop i q"
        using assms(1,2) none by (simp add: injectFilters_def)
      then show ?thesis by (intro inj) (auto intro: exI[of _ "drop i q"])
    next
      case None
      then have "injectFilters q tenantId = (q @ '' '') @ ''WHERE '' @ tenant_filter tenantId @ []"
        using assms(1,2) none by (simp add: injectFilters_def)
      then show ?thesis by (intro inj) auto
    qed
  qed
qed

theorem tenant_filter_injected_witness:
  "\<exists>before rest after. injectFilters ''SELECT id FROM orders WHERE x = $1'' (''o'' @ [quote_char] @ ''r'')
       = before @ ''WHERE org_id = '' @ quote_char # rest \<and>
     read_literal rest = Some (''o'' @ [quote_char] @ ''r'', '' AND deleted_at IS NULL'' @ after)"
proof -
  have "starts_with (to_upper (trim ''SELECT id FROM orders WHERE x = $1'')) ''SELECT''"
    "\<not> includes_str (to_lower ''SELECT id FROM orders WHERE x = $1'') ''org_id''"
    "CHR ''$'' \<notin> set (''o'' @ [quote_char] @ ''r'')"
    by code_simp+
  from tenant_filter_injected[OF this] show ?thesis by blast
qed



text \<open>The dollar sign matters: the replacement string of the WHERE branch is expanded, so a tenant
  id (which a request header can set) containing \<open>$'\<close> ends its literal and adds SQL of its own.\<close>

lemma tenant_id_breaks_out:
  "injectFilters ''SELECT * FROM t WHERE x = 1'' (''$'' @ [quote_char] @ '' OR 1=1 --'')
     = ''SELECT * FROM t WHERE org_id = '' @ [quote_char] @ '' x = 1'' @ [quote_char] @ '' OR 1=1 --'' @
       [quote_char] @ '' AND deleted_at IS NULL AND x = 1''"
  by code_simp

text \<open>A disjunction in the query's own condition is not put in parentheses, so the tenant filter
  binds only its first alternative.\<close>

lemma tenant_filter_or:
  "injectFilters ''SELECT * FROM t WHERE a OR b'' ''acme''
     = ''SELECT * FROM t WHERE org_id = '' @ [quote_char] @ ''acme'' @ [quote_char] @
       '' AND deleted_at IS NULL AND a OR b''"
  by code_simp

text \<open>A value from a request body that has the fragment's shape becomes SQL text.\<close>

lemma json_value_becomes_sql:
  "template_loop [''SELECT * FROM t WHERE a = '', []]
     [JObj [(''_type'', JStr ''SqlFragment''), (''sql'', JStr ''1 OR 1=1''), (''params'', JArr [])]] ([], [])
   = Inr (''SELECT * FROM t WHERE a = 1 OR 1=1'', [])"
  by code_simp

end
