(* ===== verification/Transaction.thy ===== *)
theory Transaction
  imports Context "HOL-Library.Multiset"
begin

text \<open>
  The transaction orchestrator (packages/commerce/src/transaction/index.ts) and the provider
  contract (providers/base.ts). A callback is a program of \<open>tx\<close> calls: each call is a node whose
  continuation gets the call's result or what it threw, so a callback may catch and go on. The
  payment provider acts on a world \<open>'w\<close>; the locale \<open>payment_provider\<close> states its contract, and the
  mock gateway (packages/testing/src/mock-gateway.ts) provides it.
\<close>

section \<open>Data\<close>

datatype transaction_state =
  TX_PENDING | COMMITTED | ROLLED_BACK | MANUAL_REVIEW | TX_BANK_RECONCILIATION

datatype charge_status = SUCCEEDED | CHARGE_BANK_RECONCILIATION | FAILED

record 'm charge_params =
  cp_amount :: 'm
  cp_orderId :: string
  cp_customerEmail :: string
  cp_paymentMethodId :: "string option"

record charge_result =
  cr_id :: string
  cr_status :: charge_status

record license_result =
  lr_id :: string
  lr_key :: string
  lr_plan :: string
  lr_expiresAt :: int

record 'm refund_params =
  rp_paymentId :: string
  rp_amount :: "'m option"

record license_params =
  lp_plan :: string
  lp_duration :: "string option"

section \<open>The provider\<close>

record ('w, 'm) provider =
  pv_name :: string
  pv_charge :: "'m charge_params \<Rightarrow> 'w \<Rightarrow> charge_result result \<times> 'w"
  pv_refund :: "('m refund_params \<Rightarrow> 'w \<Rightarrow> unit result \<times> 'w) option"
  pv_now :: "'w \<Rightarrow> int"

text \<open>The provider in place before one is configured.\<close>

definition NoOpPaymentProvider :: "('w \<Rightarrow> int) \<Rightarrow> ('w, 'm) provider" where
  "NoOpPaymentProvider now =
     \<lparr>pv_name = ''noop'',
      pv_charge = (\<lambda>_ w. (Inl (Err (plain_error ''Error'' (''No payment provider configured. Install '' @
        ''@intellibiz/plugin-stripe or another payment plugin.''))), w)),
      pv_refund = None, pv_now = now\<rparr>"

text \<open>The provider is a variable of the module; a transaction uses its value at each call.\<close>

definition setPaymentProvider :: "('w, 'm) provider \<Rightarrow> ('w, 'm) provider \<Rightarrow> ('w, 'm) provider" where
  "setPaymentProvider p current = p"

definition getPaymentProvider :: "('w, 'm) provider \<Rightarrow> ('w, 'm) provider" where
  "getPaymentProvider current = current"

section \<open>Licenses\<close>

text \<open>\<open>/^(\d+)(d|h|m|y)$/\<close>; times are milliseconds since the epoch.\<close>

definition year_ms :: int where "year_ms = 365 * 24 * 60 * 60 * 1000"

definition unit_ms :: "char \<Rightarrow> int option" where
  "unit_ms c =
     (if c = CHR ''m'' then Some (60 * 1000)
      else if c = CHR ''h'' then Some (60 * 60 * 1000)
      else if c = CHR ''d'' then Some (24 * 60 * 60 * 1000)
      else if c = CHR ''y'' then Some year_ms else None)"

definition resolveLicenseExpiry :: "int \<Rightarrow> string option \<Rightarrow> int" where
  "resolveLicenseExpiry now duration =
     (if \<not> truthy duration then now + year_ms
      else let d = the duration; ds = butlast d
           in if ds \<noteq> [] \<and> list_all is_digit_char ds
              then (case unit_ms (last d) of
                      Some ms \<Rightarrow> now + int (parse_digits ds) * ms
                    | None \<Rightarrow> now + year_ms)
              else now + year_ms)"

definition journal_id :: "string \<Rightarrow> string \<Rightarrow> int \<Rightarrow> string" where
  "journal_id tenantId traceId now = ''ibiz_txn_'' @ tenantId @ ''_'' @ traceId @ ''_'' @ int_to_string now"

definition issue_license :: "string \<Rightarrow> int \<Rightarrow> license_params \<Rightarrow> license_result" where
  "issue_license journalId now params =
     \<lparr>lr_id = ''ibiz_lic_'' @ int_to_string now,
      lr_key = ''LIC-'' @ to_upper (slice_last 8 journalId),
      lr_plan = lp_plan params,
      lr_expiresAt = resolveLicenseExpiry now (lp_duration params)\<rparr>"

section \<open>The callback and its interpretation\<close>

datatype ('a, 'm) tx_prog =
    Done 'a
  | Throw thrown
  | Charge "'m charge_params" "charge_result result \<Rightarrow> ('a, 'm) tx_prog"
  | Refund "'m refund_params" "('a, 'm) tx_prog"
  | Issue license_params "license_result \<Rightarrow> ('a, 'm) tx_prog"
  | Grant license_params "license_result \<Rightarrow> ('a, 'm) tx_prog"
  | Revoke string "('a, 'm) tx_prog"

datatype compensation = RefundCharge charge_result | RevokeLicense string

record 'w tx_run =
  tx_world :: 'w
  tx_stack :: "compensation list"
  tx_state :: transaction_state

definition tx_charge :: "('w, 'm) provider \<Rightarrow> 'm charge_params \<Rightarrow> 'w tx_run \<Rightarrow> charge_result result \<times> 'w tx_run" where
  "tx_charge p params t =
     (case pv_charge p params (tx_world t) of
        (Inl e, w) \<Rightarrow> (Inl e, t\<lparr>tx_world := w\<rparr>)
      | (Inr r, w) \<Rightarrow> (Inr r, t\<lparr>tx_world := w, tx_stack := tx_stack t @ [RefundCharge r],
          tx_state := (if cr_status r = CHARGE_BANK_RECONCILIATION then TX_BANK_RECONCILIATION else tx_state t)\<rparr>))"

definition tx_issue :: "('w, 'm) provider \<Rightarrow> string \<Rightarrow> license_params \<Rightarrow> 'w tx_run \<Rightarrow> license_result \<times> 'w tx_run" where
  "tx_issue p journalId params t =
     (let r = issue_license journalId (pv_now p (tx_world t)) params
      in (r, t\<lparr>tx_stack := tx_stack t @ [RevokeLicense (lr_id r)]\<rparr>))"

primrec run_prog :: "('w, 'm) provider \<Rightarrow> string \<Rightarrow> ('a, 'm) tx_prog \<Rightarrow> 'w tx_run \<Rightarrow> 'a result \<times> 'w tx_run" where
  "run_prog p jid (Done x) = (\<lambda>t. (Inr x, t))"
| "run_prog p jid (Throw e) = (\<lambda>t. (Inl e, t))"
| "run_prog p jid (Charge params k) = (\<lambda>t. let (r, t') = tx_charge p params t in run_prog p jid (k r) t')"
| "run_prog p jid (Refund params k) = run_prog p jid k"
| "run_prog p jid (Issue params k) = (\<lambda>t. let (r, t') = tx_issue p jid params t in run_prog p jid (k r) t')"
| "run_prog p jid (Grant params k) = (\<lambda>t. let (r, t') = tx_issue p jid params t in run_prog p jid (k r) t')"
| "run_prog p jid (Revoke lid k) = run_prog p jid k"

text \<open>One compensating action; the list tells the refund it attempts.\<close>

definition compensate :: "('w, 'm) provider \<Rightarrow> compensation \<Rightarrow> 'w \<Rightarrow> unit result \<times> 'w \<times> string list" where
  "compensate p c w =
     (case c of
        RevokeLicense _ \<Rightarrow> (Inr (), w, [])
      | RefundCharge r \<Rightarrow>
          (case pv_refund p of
             Some refund \<Rightarrow>
               if cr_status r = SUCCEEDED
               then (let (res, w') = refund \<lparr>rp_paymentId = cr_id r, rp_amount = None\<rparr> w in (res, w', [cr_id r]))
               else (Inr (), w, [])
           | None \<Rightarrow> (Inr (), w, [])))"

fun run_in_order :: "('w, 'm) provider \<Rightarrow> compensation list \<Rightarrow> 'w \<Rightarrow> unit result \<times> 'w \<times> string list" where
  "run_in_order p [] w = (Inr (), w, [])"
| "run_in_order p (c # cs) w =
     (case compensate p c w of
        (Inl e, w', ids) \<Rightarrow> (Inl e, w', ids)
      | (Inr _, w', ids) \<Rightarrow> (let (res, w'', ids') = run_in_order p cs w' in (res, w'', ids @ ids')))"

text \<open>\<open>runAll\<close>: last in, first out.\<close>

definition runAll :: "('w, 'm) provider \<Rightarrow> compensation list \<Rightarrow> 'w \<Rightarrow> unit result \<times> 'w \<times> string list" where
  "runAll p stack w = run_in_order p (rev stack) w"

record ('a, 'w) tx_outcome =
  to_result :: "'a result"
  to_state :: transaction_state
  to_world :: 'w
  to_refunds :: "string list"
  to_stack :: "compensation list"

definition transaction_in :: "('w, 'm) provider \<Rightarrow> string \<Rightarrow> ('a, 'm) tx_prog \<Rightarrow> 'w \<Rightarrow> ('a, 'w) tx_outcome" where
  "transaction_in p journalId f w =
     (let (res, t) = run_prog p journalId f \<lparr>tx_world = w, tx_stack = [], tx_state = TX_PENDING\<rparr>
      in case res of
           Inr x \<Rightarrow> \<lparr>to_result = Inr x,
              to_state = (if tx_state t = TX_BANK_RECONCILIATION then TX_BANK_RECONCILIATION else COMMITTED),
              to_world = tx_world t, to_refunds = [], to_stack = tx_stack t\<rparr>
         | Inl e \<Rightarrow>
             (let (done, w', ids) = runAll p (tx_stack t) (tx_world t)
              in \<lparr>to_result = Inl e,
                  to_state = (case done of Inr _ \<Rightarrow> ROLLED_BACK | Inl _ \<Rightarrow> MANUAL_REVIEW),
                  to_world = w', to_refunds = ids, to_stack = tx_stack t\<rparr>))"

text \<open>\<open>transaction\<close>: the context is read first; outside one nothing happens.\<close>

definition transaction :: "als \<Rightarrow> ('w, 'm) provider \<Rightarrow> ('a, 'm) tx_prog \<Rightarrow> 'w \<Rightarrow> thrown + ('a, 'w) tx_outcome" where
  "transaction s p f w =
     and_then (getTenantId s) (\<lambda>tenantId. and_then (getTraceId s) (\<lambda>traceId.
       Inr (transaction_in p (journal_id tenantId traceId (pv_now p w)) f w)))"

section \<open>Error factories\<close>

definition PaymentFailedError :: "json option \<Rightarrow> js_error" where
  "PaymentFailedError details = (coded_error ''Payment failed.'' ''PAYMENT_FAILED'' 422)\<lparr>err_details := details\<rparr>"

definition TransactionConflictError :: js_error where
  "TransactionConflictError = coded_error ''Transaction conflict.'' ''TRANSACTION_CONFLICT'' 409"

section \<open>The provider's contract\<close>

text \<open>
  \<open>balance w id\<close> is the number of captured payments with that identifier less the number of
  refunds. A successful charge adds one, a refund that returns takes one away, nothing else
  changes it.
\<close>

locale payment_provider =
  fixes charge :: "'m charge_params \<Rightarrow> 'w \<Rightarrow> charge_result result \<times> 'w"
    and refund :: "'m refund_params \<Rightarrow> 'w \<Rightarrow> unit result \<times> 'w"
    and balance :: "'w \<Rightarrow> string \<Rightarrow> int"
  assumes charge_succeeded: "charge p w = (Inr r, w') \<Longrightarrow> cr_status r = SUCCEEDED \<Longrightarrow>
      balance w' x = balance w x + (if x = cr_id r then 1 else 0)"
    and charge_other: "charge p w = (Inr r, w') \<Longrightarrow> cr_status r \<noteq> SUCCEEDED \<Longrightarrow> balance w' x = balance w x"
    and charge_failed: "charge p w = (Inl e, w') \<Longrightarrow> balance w' x = balance w x"
    and refund_succeeded: "refund rp w = (Inr (), w') \<Longrightarrow>
      balance w' x = balance w x - (if x = rp_paymentId rp then 1 else 0)"
    and refund_failed: "refund rp w = (Inl e, w') \<Longrightarrow> balance w' x = balance w x"

text \<open>The identifiers of the successful charges on a stack.\<close>

fun refund_ids :: "compensation list \<Rightarrow> string list" where
  "refund_ids [] = []"
| "refund_ids (RefundCharge r # cs) = (if cr_status r = SUCCEEDED then cr_id r # refund_ids cs else refund_ids cs)"
| "refund_ids (RevokeLicense l # cs) = refund_ids cs"

lemma refund_ids_append [simp]: "refund_ids (cs @ ds) = refund_ids cs @ refund_ids ds"
  by (induction cs rule: refund_ids.induct) auto

lemma refund_ids_rev: "refund_ids (rev cs) = rev (refund_ids cs)"
  by (induction cs rule: refund_ids.induct) auto

text \<open>A program only ever pushes on the stack; the state tells whether a charge is pending.\<close>

definition has_pending :: "compensation list \<Rightarrow> bool" where
  "has_pending cs \<longleftrightarrow> list_ex (\<lambda>c. case c of RefundCharge r \<Rightarrow> cr_status r = CHARGE_BANK_RECONCILIATION | _ \<Rightarrow> False) cs"

definition tx_ok :: "'w tx_run \<Rightarrow> bool" where
  "tx_ok t \<longleftrightarrow> tx_state t = (if has_pending (tx_stack t) then TX_BANK_RECONCILIATION else TX_PENDING)"

lemma tx_charge_ok: "tx_ok t \<Longrightarrow> tx_ok (snd (tx_charge p params t))"
  by (auto simp: tx_charge_def tx_ok_def has_pending_def split: prod.splits sum.splits)

lemma tx_issue_ok: "tx_ok t \<Longrightarrow> tx_ok (snd (tx_issue p jid params t))"
  by (auto simp: tx_issue_def tx_ok_def has_pending_def Let_def)

lemma run_prog_ok: "tx_ok t \<Longrightarrow> tx_ok (snd (run_prog p jid f t))"
proof (induction f arbitrary: t)
  case (Charge params k)
  then show ?case using tx_charge_ok[OF Charge.prems, of p params] by (simp add: case_prod_beta Let_def)
next
  case (Issue params k)
  then show ?case using tx_issue_ok[OF Issue.prems, of p jid params] by (simp add: case_prod_beta Let_def)
next
  case (Grant params k)
  then show ?case using tx_issue_ok[OF Grant.prems, of p jid params] by (simp add: case_prod_beta Let_def)
qed auto

lemma run_in_order_ids:
  "pv_refund p = Some refund \<Longrightarrow> run_in_order p cs w = (res, w', ids) \<Longrightarrow>
   (\<exists>rest. refund_ids cs = ids @ rest \<and> (res = Inr () \<longrightarrow> rest = []))"
proof (induction cs arbitrary: w ids res)
  case (Cons c cs)
  then show ?case
    by (cases c) (fastforce simp: compensate_def Let_def split: prod.splits sum.splits if_splits)+
qed simp

context payment_provider
begin

lemma run_prog_balance:
  assumes "pv_charge p = charge"
  shows "\<exists>new. tx_stack (snd (run_prog p jid f t)) = tx_stack t @ new \<and>
    (\<forall>x. balance (tx_world (snd (run_prog p jid f t))) x = balance (tx_world t) x + int (count_list (refund_ids new) x))"
proof (induction f arbitrary: t)
  case (Charge params k)
  obtain r t' where c: "tx_charge p params t = (r, t')" by fastforce
  obtain new where new: "tx_stack (snd (run_prog p jid (k r) t')) = tx_stack t' @ new"
      "\<forall>x. balance (tx_world (snd (run_prog p jid (k r) t'))) x = balance (tx_world t') x + int (count_list (refund_ids new) x)"
    using Charge.IH by (metis rangeI)
  show ?case
  proof (cases r)
    case (Inl e)
    then obtain w where "charge params (tx_world t) = (Inl e, w)" "t' = t\<lparr>tx_world := w\<rparr>"
      using c assms by (auto simp: tx_charge_def split: prod.splits sum.splits)
    with c new charge_failed show ?thesis by (intro exI[of _ new]) auto
  next
    case (Inr cr)
    then obtain w where w: "charge params (tx_world t) = (Inr cr, w)" "tx_world t' = w"
        "tx_stack t' = tx_stack t @ [RefundCharge cr]"
      using c assms by (auto simp: tx_charge_def split: prod.splits sum.splits)
    with c new charge_succeeded[OF w(1)] charge_other[OF w(1)] show ?thesis
      by (intro exI[of _ "RefundCharge cr # new"]) auto
  qed
next
  case (Issue params k)
  obtain r t' where c: "tx_issue p jid params t = (r, t')" by fastforce
  obtain new where "tx_stack (snd (run_prog p jid (k r) t')) = tx_stack t' @ new"
      "\<forall>x. balance (tx_world (snd (run_prog p jid (k r) t'))) x = balance (tx_world t') x + int (count_list (refund_ids new) x)"
    using Issue.IH by (metis rangeI)
  with c show ?case by (intro exI[of _ "RevokeLicense (lr_id r) # new"]) (auto simp: tx_issue_def Let_def)
next
  case (Grant params k)
  obtain r t' where c: "tx_issue p jid params t = (r, t')" by fastforce
  obtain new where "tx_stack (snd (run_prog p jid (k r) t')) = tx_stack t' @ new"
      "\<forall>x. balance (tx_world (snd (run_prog p jid (k r) t'))) x = balance (tx_world t') x + int (count_list (refund_ids new) x)"
    using Grant.IH by (metis rangeI)
  with c show ?case by (intro exI[of _ "RevokeLicense (lr_id r) # new"]) (auto simp: tx_issue_def Let_def)
qed (auto intro: exI[of _ "[]"])

lemma run_in_order_balance:
  assumes "pv_refund p = Some refund"
  shows "run_in_order p cs w = (Inr (), w', ids) \<Longrightarrow> balance w' x = balance w x - int (count_list (refund_ids cs) x)"
proof (induction cs arbitrary: w ids)
  case (Cons c cs)
  show ?case
  proof (cases c)
    case (RevokeLicense l)
    with Cons show ?thesis by (auto simp: compensate_def Let_def split: prod.splits)
  next
    case (RefundCharge r)
    show ?thesis
    proof (cases "cr_status r = SUCCEEDED")
      case False
      with Cons RefundCharge assms show ?thesis by (auto simp: compensate_def Let_def split: prod.splits)
    next
      case True
      then obtain w1 ids1 where r1: "refund \<lparr>rp_paymentId = cr_id r, rp_amount = None\<rparr> w = (Inr (), w1)"
          "run_in_order p cs w1 = (Inr (), w', ids1)"
        using Cons.prems RefundCharge assms
        by (auto simp: compensate_def Let_def split: prod.splits sum.splits)
      with Cons.IH[OF r1(2)] refund_succeeded[OF r1(1)] RefundCharge True show ?thesis by simp
    qed
  qed
qed simp

text \<open>A rolled-back transaction leaves every payment as it was.\<close>

lemma rollback_balance:
  assumes "pv_charge p = charge" "pv_refund p = Some refund"
    and "to_result (transaction_in p jid f w) = Inl e" "to_state (transaction_in p jid f w) = ROLLED_BACK"
  shows "balance (to_world (transaction_in p jid f w)) x = balance w x"
proof -
  obtain res t where run: "run_prog p jid f \<lparr>tx_world = w, tx_stack = [], tx_state = TX_PENDING\<rparr> = (res, t)"
    by fastforce
  with assms(3) have res: "res = Inl e"
    by (auto simp: transaction_in_def Let_def split: sum.splits prod.splits)
  obtain fin w' ids where all: "runAll p (tx_stack t) (tx_world t) = (fin, w', ids)" by (metis prod_cases3)
  with run res assms(4) have fin: "fin = Inr ()" "to_world (transaction_in p jid f w) = w'"
    by (auto simp: transaction_in_def split: sum.splits)
  have "balance (tx_world t) x = balance w x + int (count_list (refund_ids (tx_stack t)) x)"
    using run_prog_balance[OF assms(1), of jid f "\<lparr>tx_world = w, tx_stack = [], tx_state = TX_PENDING\<rparr>"]
    by (auto simp: run)
  moreover have "balance w' x = balance (tx_world t) x - int (count_list (refund_ids (rev (tx_stack t))) x)"
    using all fin(1) by (intro run_in_order_balance[OF assms(2)]) (auto simp: runAll_def)
  ultimately show ?thesis by (simp add: fin(2) refund_ids_rev)
qed

end

section \<open>The mock gateway\<close>

text \<open>A partial result given to \<open>succeedNext\<close>, and the replaced charge handler: \<open>failNextN\<close> or a
  function of the parameters. Time stamps of the history are left out.\<close>

datatype 'm mock_handler = FailFirst nat string | Override "'m charge_params \<Rightarrow> charge_result result"

datatype 'm mock_call =
    MockCharge "'m charge_params" "charge_result option"
  | MockRefund "'m refund_params"

record 'm mock =
  mk_history :: "'m mock_call list"
  mk_nextResult :: "(string option \<times> charge_status option) option"
  mk_nextError :: "string option"
  mk_handler :: "'m mock_handler option"
  mk_spyCalls :: "nat list"
  mk_chargeCount :: nat
  mk_refundCount :: nat
  mk_clock :: int

definition createMockGateway :: "int \<Rightarrow> 'm mock" where
  "createMockGateway now = \<lparr>mk_history = [], mk_nextResult = None, mk_nextError = None, mk_handler = None,
     mk_spyCalls = [], mk_chargeCount = 0, mk_refundCount = 0, mk_clock = now\<rparr>"

definition succeedNext :: "(string option \<times> charge_status option) option \<Rightarrow> 'm mock \<Rightarrow> 'm mock" where
  "succeedNext r g = g\<lparr>mk_nextResult := r\<rparr>"

definition failNext :: "string \<Rightarrow> 'm mock \<Rightarrow> 'm mock" where
  "failNext code g = g\<lparr>mk_nextError := Some code\<rparr>"

definition failNextN :: "nat \<Rightarrow> string \<Rightarrow> 'm mock \<Rightarrow> 'm mock" where
  "failNextN n code g = g\<lparr>mk_handler := Some (FailFirst n code)\<rparr>"

definition overrideCharge :: "('m charge_params \<Rightarrow> charge_result result) \<Rightarrow> 'm mock \<Rightarrow> 'm mock" where
  "overrideCharge h g = g\<lparr>mk_handler := Some (Override h)\<rparr>"

definition spyRefund :: "'m mock \<Rightarrow> nat \<times> 'm mock" where
  "spyRefund g = (length (mk_spyCalls g), g\<lparr>mk_spyCalls := mk_spyCalls g @ [0]\<rparr>)"

definition mock_error :: "string \<Rightarrow> js_error" where
  "mock_error code = (plain_error ''Error'' code)\<lparr>err_code := Some code\<rparr>"

definition defaultChargeResult :: "'m mock \<Rightarrow> charge_result" where
  "defaultChargeResult g =
     \<lparr>cr_id = ''pay_mock_'' @ nat_to_base 36 (nat (mk_clock g)) @ ''_'' @ nat_to_string (mk_chargeCount g),
      cr_status = SUCCEEDED\<rparr>"

definition mock_record :: "'m mock_call \<Rightarrow> 'm mock \<Rightarrow> 'm mock" where
  "mock_record c g = g\<lparr>mk_history := mk_history g @ [c]\<rparr>"

definition mock_charge :: "'m charge_params \<Rightarrow> 'm mock \<Rightarrow> charge_result result \<times> 'm mock" where
  "mock_charge params g0 =
     (let g = g0\<lparr>mk_chargeCount := mk_chargeCount g0 + 1\<rparr>;
          ok = (\<lambda>r g. (Inr r, mock_record (MockCharge params (Some r)) g));
          bad = (\<lambda>code g. (Inl (Err (mock_error code)), mock_record (MockCharge params None) g))
      in case mk_handler g of
           Some (FailFirst n code) \<Rightarrow>
             if 0 < n then bad code (g\<lparr>mk_handler := Some (FailFirst (n - 1) code)\<rparr>)
             else ok (defaultChargeResult g) g
         | Some (Override h) \<Rightarrow>
             (case h params of Inr r \<Rightarrow> ok r g | Inl e \<Rightarrow> (Inl e, mock_record (MockCharge params None) g))
         | None \<Rightarrow>
             (case mk_nextError g of
                Some code \<Rightarrow> bad code (g\<lparr>mk_nextError := None\<rparr>)
              | None \<Rightarrow>
                  let r = defaultChargeResult g
                  in case mk_nextResult g of
                       None \<Rightarrow> ok r g
                     | Some (i, st) \<Rightarrow>
                         ok (r\<lparr>cr_id := (case i of Some i \<Rightarrow> i | None \<Rightarrow> cr_id r),
                               cr_status := (case st of Some st \<Rightarrow> st | None \<Rightarrow> cr_status r)\<rparr>)
                            (g\<lparr>mk_nextResult := None\<rparr>)))"

definition mock_refund :: "'m refund_params \<Rightarrow> 'm mock \<Rightarrow> unit result \<times> 'm mock" where
  "mock_refund params g =
     (Inr (), (mock_record (MockRefund params) g)\<lparr>mk_refundCount := mk_refundCount g + 1,
        mk_spyCalls := map Suc (mk_spyCalls g)\<rparr>)"

definition mock_reset :: "'m mock \<Rightarrow> 'm mock" where
  "mock_reset g = createMockGateway (mk_clock g)"

definition mock_provider :: "string \<Rightarrow> ('m mock, 'm) provider" where
  "mock_provider name = \<lparr>pv_name = name, pv_charge = mock_charge, pv_refund = Some mock_refund, pv_now = mk_clock\<rparr>"

fun call_balance :: "string \<Rightarrow> 'm mock_call \<Rightarrow> int" where
  "call_balance x (MockCharge params (Some r)) = (if cr_status r = SUCCEEDED \<and> x = cr_id r then 1 else 0)"
| "call_balance x (MockCharge params None) = 0"
| "call_balance x (MockRefund params) = (if x = rp_paymentId params then - 1 else 0)"

definition mock_balance :: "'m mock \<Rightarrow> string \<Rightarrow> int" where
  "mock_balance g x = (\<Sum>c\<leftarrow>mk_history g. call_balance x c)"

lemma mock_balance_record [simp]: "mock_balance (mock_record c g) x = mock_balance g x + call_balance x c"
  by (simp add: mock_balance_def mock_record_def)

lemma mock_balance_updates [simp]:
  "mock_balance (g\<lparr>mk_chargeCount := n\<rparr>) = mock_balance g" "mock_balance (g\<lparr>mk_handler := h\<rparr>) = mock_balance g"
  "mock_balance (g\<lparr>mk_nextError := e\<rparr>) = mock_balance g" "mock_balance (g\<lparr>mk_nextResult := r\<rparr>) = mock_balance g"
  "mock_balance (g\<lparr>mk_refundCount := n, mk_spyCalls := ns\<rparr>) = mock_balance g"
  by (simp_all add: mock_balance_def fun_eq_iff)

lemma mock_charge_balance:
  "mock_charge p g = (res, g') \<Longrightarrow> mock_balance g' x = mock_balance g x +
     (case res of Inr r \<Rightarrow> if cr_status r = SUCCEEDED \<and> x = cr_id r then 1 else 0 | Inl e \<Rightarrow> 0)"
  by (auto simp: mock_charge_def Let_def split: option.splits mock_handler.splits if_splits sum.splits)

interpretation mock: payment_provider mock_charge mock_refund mock_balance
proof
  fix p :: "'a charge_params" and w w' :: "'a mock" and r e x rp
  show "mock_charge p w = (Inr r, w') \<Longrightarrow> cr_status r = SUCCEEDED \<Longrightarrow>
      mock_balance w' x = mock_balance w x + (if x = cr_id r then 1 else 0)"
    "mock_charge p w = (Inr r, w') \<Longrightarrow> cr_status r \<noteq> SUCCEEDED \<Longrightarrow> mock_balance w' x = mock_balance w x"
    "mock_charge p w = (Inl e, w') \<Longrightarrow> mock_balance w' x = mock_balance w x"
    by (simp_all add: mock_charge_balance[of p w _ w' x])
qed (auto simp: mock_refund_def)

section \<open>Properties\<close>





text \<open>An explicit refund in a callback reaches no provider, and a charge that failed does not fail the
  transaction: the callback has to look at the status.\<close>

lemma explicit_refund_ignored: "run_prog p jid (Refund params k) t = run_prog p jid k t"
  by simp

lemma failed_charge_commits:
  assumes "pv_charge p params w = (Inr r, w')" "cr_status r = FAILED"
  shows "to_state (transaction_in p jid (Charge params (\<lambda>_. Done ())) w) = COMMITTED"
  using assms by (simp add: transaction_in_def tx_charge_def)

text \<open>Licenses: all licenses issued by one transaction have the same key, and the key of any
  transaction is made of the last eight digits of the clock alone, so two tenants' transactions of
  one millisecond issue the same key.\<close>

lemma license_key_is_clock:
  assumes "8 \<le> length (int_to_string now)"
  shows "lr_key (issue_license (journal_id tenantId traceId now) now' params)
    = ''LIC-'' @ to_upper (slice_last 8 (int_to_string now))"
proof -
  have "journal_id tenantId traceId now
      = (''ibiz_txn_'' @ tenantId @ ''_'' @ traceId @ ''_'') @ int_to_string now"
    by (simp add: journal_id_def)
  then show ?thesis
    by (simp only: issue_license_def slice_last_append[OF assms] license_result.simps)
qed

end
