(* ===== verification/Names.thy ===== *)
theory Names
  imports Errors
begin

text \<open>
  Name normalisation and the simple generators of the command line tool
  (packages/cli/src/scaffold.ts): camel, Pascal and kebab case, and the generated action, override,
  plugin and migration. Generated text is a list of lines with their indentation. Regular expression
  replacements are written out: \<open>replace_runs\<close> for a class under \<open>+\<close> with the global flag.
\<close>

section \<open>Text\<close>

abbreviation tab_char :: char where "tab_char \<equiv> CHR 0x09"
abbreviation nl :: string where "nl \<equiv> [CHR 0x0A]"
abbreviation bs :: string where "bs \<equiv> [CHR 0x5C]"

definition text_line :: "nat \<times> string \<Rightarrow> string" where
  "text_line l = replicate (fst l) tab_char @ snd l"

text \<open>Lines joined by a newline, and lines that each end in one.\<close>

definition text_of :: "(nat \<times> string) list \<Rightarrow> string" where
  "text_of ls = join nl (map text_line ls)"

definition text_nl :: "(nat \<times> string) list \<Rightarrow> string" where
  "text_nl ls = concat (map (\<lambda>l. text_line l @ nl) ls)"

text \<open>In the literals below a tilde stands for the single quote; the templates contain no tilde.\<close>

definition lit :: "string \<Rightarrow> string" where
  "lit s = map (\<lambda>c. if c = CHR ''~'' then quote_char else c) s"

section \<open>Names\<close>

definition is_alnum :: "char \<Rightarrow> bool" where
  "is_alnum c \<longleftrightarrow> is_lower_char c \<or> is_upper_char c \<or> is_digit_char c"

definition is_name_sep :: "char \<Rightarrow> bool" where
  "is_name_sep c \<longleftrightarrow> c = CHR ''-'' \<or> c = CHR ''_'' \<or> is_space_char c"

text \<open>\<open>acc\<close> is the run of separators read so far, reversed.\<close>

fun camel_humps :: "string \<Rightarrow> string \<Rightarrow> string" where
  "camel_humps acc [] = rev acc"
| "camel_humps acc (c # s) =
     (if is_name_sep c then camel_humps (c # acc) s
      else if acc \<noteq> [] \<and> is_alnum c then upper_char c # camel_humps [] s
      else rev acc @ c # camel_humps [] s)"

definition is_identifier_start :: "char \<Rightarrow> bool" where
  "is_identifier_start c \<longleftrightarrow> is_lower_char c \<or> is_upper_char c \<or> c = CHR ''_'' \<or> c = CHR ''$''"

definition toCamelCase :: "string \<Rightarrow> string" where
  "toCamelCase name = dropWhile (\<lambda>c. \<not> is_identifier_start c) (camel_humps [] (trim name))"

definition toPascalCase :: "string \<Rightarrow> string" where
  "toPascalCase name = (case toCamelCase name of [] \<Rightarrow> [] | c # s \<Rightarrow> upper_char c # s)"

fun kebab_humps :: "string \<Rightarrow> string" where
  "kebab_humps (a # b # s) =
     (if (is_lower_char a \<or> is_digit_char a) \<and> is_upper_char b then a # CHR ''-'' # b # kebab_humps s
      else a # kebab_humps (b # s))"
| "kebab_humps s = s"

fun replace_runs :: "(char \<Rightarrow> bool) \<Rightarrow> char \<Rightarrow> string \<Rightarrow> string" where
  "replace_runs P r [] = []"
| "replace_runs P r (c # s) =
     (if P c then (if s \<noteq> [] \<and> P (hd s) then replace_runs P r s else r # replace_runs P r s)
      else c # replace_runs P r s)"

definition strip_dash :: "string \<Rightarrow> string" where
  "strip_dash s =
     (let t = (if s \<noteq> [] \<and> hd s = CHR ''-'' then tl s else s)
      in if t \<noteq> [] \<and> last t = CHR ''-'' then butlast t else t)"

definition toKebabCase :: "string \<Rightarrow> string" where
  "toKebabCase name =
     (let s1 = trim name;
          s2 = kebab_humps s1;
          s3 = replace_runs (\<lambda>c. is_space_char c \<or> c = CHR ''_'') CHR ''-'' s2;
          s4 = filter (\<lambda>c. is_alnum c \<or> c = CHR ''-'') s3;
          s5 = replace_runs (\<lambda>c. c = CHR ''-'') CHR ''-'' s4;
          s6 = strip_dash s5
      in to_lower s6)"

section \<open>JSON text\<close>

text \<open>The values the generators print, with \<open>JSON.stringify(v, null, '\t')\<close> at depth \<open>d\<close>.\<close>

datatype js_literal =
    LStr string
  | LBool bool
  | LArr "js_literal list"
  | LObj "(string \<times> js_literal) list"

definition json_char :: "char \<Rightarrow> string" where
  "json_char c =
     (if c = CHR 0x22 \<or> c = CHR 0x5C then bs @ [c]
      else if c = CHR 0x08 then bs @ ''b'' else if c = CHR 0x09 then bs @ ''t''
      else if c = CHR 0x0A then bs @ ''n'' else if c = CHR 0x0C then bs @ ''f''
      else if c = CHR 0x0D then bs @ ''r''
      else if (of_char c :: nat) < 32 then bs @ ''u'' @ hex_digits 4 (of_char c)
      else [c])"

definition json_quote :: "string \<Rightarrow> string" where
  "json_quote s = [CHR 0x22] @ concat (map json_char s) @ [CHR 0x22]"

definition json_block :: "nat \<Rightarrow> string \<Rightarrow> string \<Rightarrow> string list \<Rightarrow> string" where
  "json_block d l r items =
     (if items = [] then l @ r
      else l @ nl @ join ('','' @ nl) (map (\<lambda>s. replicate (Suc d) tab_char @ s) items) @ nl @
        replicate d tab_char @ r)"

fun stringify :: "nat \<Rightarrow> js_literal \<Rightarrow> string" where
  "stringify d (LStr s) = json_quote s"
| "stringify d (LBool b) = (if b then ''true'' else ''false'')"
| "stringify d (LArr xs) = json_block d ''['' '']'' (map (stringify (Suc d)) xs)"
| "stringify d (LObj fs) =
     json_block d ''{'' ''}'' (map (\<lambda>(k, v). json_quote k @ '': '' @ stringify (Suc d) v) fs)"

section \<open>Generators\<close>

record scaffolded_action =
  sa_file :: string
  sa_exportName :: string
  sa_schemaName :: string
  sa_source :: string

definition action_source :: "string \<Rightarrow> string \<Rightarrow> string" where
  "action_source schemaName exportName = text_nl
     [(0, lit ''import { defineAction } from ~intellibiz~;''),
      (0, lit ''import { z } from ~zod~;''),
      (0, ''''),
      (0, ''const '' @ schemaName @ '' = z.object({''),
      (1, ''// define your input schema''),
      (0, ''});''),
      (0, ''''),
      (0, ''export const '' @ exportName @ '' = defineAction({''),
      (1, ''input: '' @ schemaName @ '',''),
      (1, ''async handler(action) {''),
      (2, ''// action.data is fully typed from '' @ schemaName),
      (2, ''// action.db / action.log / action.emit are available''),
      (2, ''return {};''),
      (1, ''}''),
      (0, ''});'')]"

definition scaffoldAction :: "string \<Rightarrow> scaffolded_action result" where
  "scaffoldAction rawName =
     (let file = toKebabCase rawName;
          exportName = toCamelCase rawName;
          schemaName = toPascalCase rawName @ ''Input''
      in if file = [] \<or> exportName = []
         then Inl (Err (plain_error ''Error''
           (''Invalid action name \"'' @ rawName @ ''\": must contain at least one letter or digit.'')))
         else Inr \<lparr>sa_file = file, sa_exportName = exportName, sa_schemaName = schemaName,
           sa_source = action_source schemaName exportName\<rparr>)"

record scaffolded_override =
  so_file :: string
  so_flag :: string
  so_source :: string

definition override_source :: "string \<Rightarrow> string" where
  "override_source flag = text_nl
     [(0, lit ''import { defineConfigOverride } from ~intellibiz~;''),
      (0, ''''),
      (0, ''/**''),
      (0, '' * Overrides applied when the `'' @ flag @ ''` flag is active.''),
      (0, '' * Registered in intellibiz.config.ts via `overrides: { '' @ flag @ '' }`.''),
      (0, '' */''),
      (0, ''export default defineConfigOverride({''),
      (1, toCamelCase flag @ '': {''),
      (2, ''// override values here''),
      (1, ''}''),
      (0, ''});'')]"

definition scaffoldOverride :: "string \<Rightarrow> scaffolded_override result" where
  "scaffoldOverride rawFlag =
     (let flag = toKebabCase rawFlag
      in if flag = [] then Inl (Err (plain_error ''Error'' (''Invalid override flag \"'' @ rawFlag @ ''\".'')))
         else Inr \<lparr>so_file = flag, so_flag = flag, so_source = override_source flag\<rparr>)"

record scaffolded_plugin =
  sp_dir :: string
  sp_name :: string
  sp_source :: string

definition plugin_package :: "string \<Rightarrow> js_literal" where
  "plugin_package dir = LObj [
     (''name'', LStr (''@intellibiz/'' @ dir)),
     (''version'', LStr ''0.0.0''),
     (''private'', LBool True),
     (''type'', LStr ''module''),
     (''main'', LStr ''./dist/index.cjs''),
     (''module'', LStr ''./dist/index.mjs''),
     (''types'', LStr ''./dist/index.d.mts''),
     (''exports'', LObj [(''.'', LObj [
        (''import'', LObj [(''types'', LStr ''./dist/index.d.mts''), (''default'', LStr ''./dist/index.mjs'')]),
        (''require'', LObj [(''types'', LStr ''./dist/index.d.cts''), (''default'', LStr ''./dist/index.cjs'')])])]),
     (''scripts'', LObj [
        (''build'', LStr ''tsdown src/index.ts --format esm,cjs --dts --clean --sourcemap --target es2022''),
        (''test'', LStr ''vitest run''),
        (''typecheck'', LStr ''tsc --noEmit''),
        (''clean'', LStr ''rm -rf dist'')]),
     (''peerDependencies'', LObj [(''@intellibiz/core'', LStr ''workspace:*'')])]"

definition scaffoldPlugin :: "string \<Rightarrow> scaffolded_plugin result" where
  "scaffoldPlugin rawName =
     (let dir = toKebabCase rawName
      in if dir = [] then Inl (Err (plain_error ''Error'' (''Invalid plugin name \"'' @ rawName @ ''\".'')))
         else Inr \<lparr>sp_dir = dir, sp_name = ''@intellibiz/'' @ dir,
           sp_source = stringify 0 (plugin_package dir) @ nl\<rparr>)"

text \<open>\<open>now\<close> is the clock's value in milliseconds.\<close>

definition scaffoldMigration :: "string \<Rightarrow> int \<Rightarrow> string" where
  "scaffoldMigration name now =
     (let slug = (if toKebabCase name = [] then ''migration'' else toKebabCase name)
      in int_to_string now @ ''_'' @ slug)"

section \<open>Kebab names\<close>

fun no_double_dash :: "string \<Rightarrow> bool" where
  "no_double_dash (a # b # s) \<longleftrightarrow> \<not> (a = CHR ''-'' \<and> b = CHR ''-'') \<and> no_double_dash (b # s)"
| "no_double_dash _ \<longleftrightarrow> True"

definition kebab_ok :: "string \<Rightarrow> bool" where
  "kebab_ok s \<longleftrightarrow> list_all (\<lambda>c. is_lower_char c \<or> is_digit_char c \<or> c = CHR ''-'') s \<and>
     no_double_dash s \<and> (s \<noteq> [] \<longrightarrow> hd s \<noteq> CHR ''-'' \<and> last s \<noteq> CHR ''-'')"

lemma kebab_chars:
  "is_alnum c \<Longrightarrow> is_lower_char (lower_char c) \<or> is_digit_char (lower_char c)"
  "lower_char c = CHR ''-'' \<longleftrightarrow> c = CHR ''-''"
proof -
  have "\<forall>c :: char. (is_alnum c \<longrightarrow> is_lower_char (lower_char c) \<or> is_digit_char (lower_char c))" by code_simp
  then show "is_alnum c \<Longrightarrow> is_lower_char (lower_char c) \<or> is_digit_char (lower_char c)" by blast
  have "\<forall>c :: char. lower_char c = CHR ''-'' \<longleftrightarrow> c = CHR ''-''" by code_simp
  then show "lower_char c = CHR ''-'' \<longleftrightarrow> c = CHR ''-''" by blast
qed

lemma kebab_char_props:
  assumes "is_lower_char c \<or> is_digit_char c \<or> c = CHR ''-''"
  shows "\<not> is_space_char c" "\<not> is_upper_char c" "c \<noteq> CHR ''_''" "is_alnum c \<or> c = CHR ''-''" "lower_char c = c"
  using assms
  by (auto simp: is_lower_char_def is_digit_char_def is_space_char_def is_upper_char_def is_alnum_def
      lower_char_def less_eq_char_def)

lemma replace_runs_hd: "s \<noteq> [] \<Longrightarrow> hd (replace_runs (\<lambda>c. c = x) x s) = hd s \<and> replace_runs (\<lambda>c. c = x) x s \<noteq> []"
proof (induction s)
  case (Cons c s)
  then show ?case by (cases s) auto
qed simp

lemma replace_runs_no_double: "no_double_dash (replace_runs (\<lambda>c. c = CHR ''-'') CHR ''-'' s)"
proof (induction s)
  case (Cons c s)
  let ?r = "replace_runs (\<lambda>c. c = CHR ''-'') CHR ''-'' s"
  show ?case
  proof (cases "s = []")
    case False
    with replace_runs_hd[OF False, of "CHR ''-''"] Cons show ?thesis
      by (cases ?r) auto
  qed simp
qed simp

lemma no_double_dash_tl: "no_double_dash s \<Longrightarrow> no_double_dash (tl s)"
  by (cases s rule: no_double_dash.cases) auto

lemma no_double_dash_butlast: "no_double_dash s \<Longrightarrow> no_double_dash (butlast s)"
  by (induction s rule: no_double_dash.induct) (auto elim: no_double_dash.elims)

lemma no_double_dash_last: "no_double_dash s \<Longrightarrow> length s \<ge> 2 \<Longrightarrow> last s = CHR ''-'' \<Longrightarrow> last (butlast s) \<noteq> CHR ''-''"
proof (induction s rule: no_double_dash.induct)
  case (1 a b s)
  then show ?case by (cases s) auto
qed auto

lemma no_double_dash_map: "no_double_dash (map lower_char s) = no_double_dash s"
  by (induction s rule: no_double_dash.induct) (auto simp: kebab_chars)


lemma set_replace_runs: "set (replace_runs P r s) \<subseteq> insert r (set s)"
  by (induction s) auto

lemma set_strip_dash: "set (strip_dash s) \<subseteq> set s"
  by (auto simp: strip_dash_def Let_def split: if_splits dest: in_set_butlastD list.set_sel(2))

lemma strip_dash_ok:
  assumes "no_double_dash s"
  shows "no_double_dash (strip_dash s)"
    and "strip_dash s \<noteq> [] \<Longrightarrow> hd (strip_dash s) \<noteq> CHR ''-'' \<and> last (strip_dash s) \<noteq> CHR ''-''"
proof -
  define t where "t = (if s \<noteq> [] \<and> hd s = CHR ''-'' then tl s else s)"
  have eq: "strip_dash s = (if t \<noteq> [] \<and> last t = CHR ''-'' then butlast t else t)"
    by (simp add: strip_dash_def t_def Let_def)
  have nt: "no_double_dash t" using assms no_double_dash_tl by (simp add: t_def)
  then show "no_double_dash (strip_dash s)" using no_double_dash_butlast by (simp add: eq)
  have ht: "t \<noteq> [] \<Longrightarrow> hd t \<noteq> CHR ''-''"
  proof (cases s)
    case (Cons a u)
    then show "t \<noteq> [] \<Longrightarrow> hd t \<noteq> CHR ''-''" using assms by (cases u) (auto simp: t_def)
  qed (simp add: t_def)
  show "strip_dash s \<noteq> [] \<Longrightarrow> hd (strip_dash s) \<noteq> CHR ''-'' \<and> last (strip_dash s) \<noteq> CHR ''-''"
  proof (cases "t \<noteq> [] \<and> last t = CHR ''-''")
    case True
    assume ne: "strip_dash s \<noteq> []"
    with True have b: "strip_dash s = butlast t" "butlast t \<noteq> []" by (simp_all add: eq)
    then have l: "2 \<le> length t" by (cases t) (auto simp: Suc_le_eq split: if_splits)
    have "hd (butlast t) = hd t" using b(2) by (cases t) auto
    with b ht True no_double_dash_last[OF nt l] show ?thesis by auto
  next
    case False
    assume "strip_dash s \<noteq> []"
    with False ht show ?thesis by (auto simp: eq)
  qed
qed

lemma toKebabCase_ok: "kebab_ok (toKebabCase name)"
proof -
  define s4 where "s4 = filter (\<lambda>c. is_alnum c \<or> c = CHR ''-'')
    (replace_runs (\<lambda>c. is_space_char c \<or> c = CHR ''_'') CHR ''-'' (kebab_humps (trim name)))"
  define s5 where "s5 = replace_runs (\<lambda>c. c = CHR ''-'') CHR ''-'' s4"
  have k: "toKebabCase name = map lower_char (strip_dash s5)"
    by (simp add: toKebabCase_def to_lower_def s5_def s4_def Let_def)
  have "set s4 \<subseteq> {c. is_alnum c \<or> c = CHR ''-''}" by (auto simp: s4_def)
  with set_replace_runs[of _ _ s4] set_strip_dash[of s5]
  have "set (strip_dash s5) \<subseteq> {c. is_alnum c \<or> c = CHR ''-''}" unfolding s5_def by blast
  then have "list_all (\<lambda>c. is_lower_char c \<or> is_digit_char c \<or> c = CHR ''-'') (toKebabCase name)"
    using kebab_chars by (fastforce simp: k list_all_iff)
  moreover have n: "no_double_dash s5" by (simp add: s5_def replace_runs_no_double)
  note strip_dash_ok[OF n]
  ultimately show ?thesis
    by (auto simp: kebab_ok_def k no_double_dash_map hd_map last_map kebab_chars)
qed

lemma dropWhile_no: "(\<And>c. c \<in> set s \<Longrightarrow> \<not> P c) \<Longrightarrow> dropWhile P s = s"
  by (cases s) auto

lemma trim_no_space: "(\<And>c. c \<in> set s \<Longrightarrow> \<not> is_space_char c) \<Longrightarrow> trim s = s"
  using dropWhile_no[of s is_space_char] dropWhile_no[of "rev s" is_space_char]
  by (simp add: trim_def trim_start_def)

lemma kebab_humps_no_upper: "(\<And>c. c \<in> set s \<Longrightarrow> \<not> is_upper_char c) \<Longrightarrow> kebab_humps s = s"
  by (induction s rule: kebab_humps.induct) auto

lemma replace_runs_none: "(\<And>c. c \<in> set s \<Longrightarrow> \<not> P c) \<Longrightarrow> replace_runs P r s = s"
  by (induction s) auto

lemma replace_runs_single: "no_double_dash s \<Longrightarrow> replace_runs (\<lambda>c. c = CHR ''-'') CHR ''-'' s = s"
  by (induction s rule: no_double_dash.induct) auto

lemma toKebabCase_id:
  assumes "kebab_ok s"
  shows "toKebabCase s = s"
proof -
  have c: "c \<in> set s \<Longrightarrow> is_lower_char c \<or> is_digit_char c \<or> c = CHR ''-''" for c
    using assms by (simp add: kebab_ok_def list_all_iff)
  note p = kebab_char_props[OF c]
  have 1: "trim s = s" by (rule trim_no_space) (rule p)
  have 2: "kebab_humps s = s" by (rule kebab_humps_no_upper) (rule p)
  have 3: "replace_runs (\<lambda>c. is_space_char c \<or> c = CHR ''_'') CHR ''-'' s = s"
    by (rule replace_runs_none) (use p in blast)
  have 4: "filter (\<lambda>c. is_alnum c \<or> c = CHR ''-'') s = s" by (rule filter_True) (use p(4) in blast)
  have 5: "replace_runs (\<lambda>c. c = CHR ''-'') CHR ''-'' s = s"
    by (rule replace_runs_single) (use assms in \<open>simp add: kebab_ok_def\<close>)
  have 6: "strip_dash s = s" using assms by (auto simp: strip_dash_def kebab_ok_def)
  have 7: "to_lower s = s" unfolding to_lower_def by (rule map_idI) (rule p)
  show ?thesis by (simp add: toKebabCase_def 1 2 3 4 5 6 7)
qed

text \<open>Names become safe file names, once and for all. The kebab form of any name consists of
  lower-case letters, digits and single dashes, neither starts nor ends with a dash (so it can hold
  no path separator, dot or quote), and normalising it again changes nothing.\<close>

lemma toKebabCase_safe:
  "kebab_ok (toKebabCase name) \<and> toKebabCase (toKebabCase name) = toKebabCase name"
  using toKebabCase_ok toKebabCase_id by blast

end
