(* ===== verification/Testing.thy ===== *)
theory Testing
  imports Dedup EventBus Sql Transaction Names
begin

text \<open>
  The test helpers (packages/testing/src): tenant contexts, the virtual clock, the ledger and its
  assertions, the payment switches of \<open>mockPayments\<close>, the inspection of the mock gateway and the
  reset between tests. Clock readings are arguments; times are whole milliseconds, exact below
  2^53. An assertion returns or throws; its optional message replaces the generated one.
\<close>

section \<open>Contexts\<close>

record tenant_context_options =
  tn_tenantId :: string
  tn_userId :: "string option"
  tn_role :: "string option"
  tn_traceId :: "string option"
  tn_origin :: "context_origin option"

text \<open>\<open>fresh\<close> is a new trace id, \<open>now\<close> the monotonic clock. A user that is absent or null is null.\<close>

definition createTenantStore :: "string \<Rightarrow> int \<Rightarrow> tenant_context_options \<Rightarrow> store" where
  "createTenantStore fresh now opts =
     \<lparr>st_traceId = (case tn_traceId opts of Some t \<Rightarrow> t | None \<Rightarrow> fresh),
      st_tenantId = tn_tenantId opts, st_userId = tn_userId opts,
      st_role = (case tn_role opts of Some r \<Rightarrow> r | None \<Rightarrow> ''member''),
      st_startTime = now,
      st_origin = (case tn_origin opts of Some x \<Rightarrow> x | None \<Rightarrow> OriginHttp)\<rparr>"

text \<open>The spread \<open>{ tenantId, ...overrides }\<close>: \<open>overrides\<close> has no tenant by its type.\<close>

record context_overrides =
  co_userId :: "string option"
  co_role :: "string option"
  co_traceId :: "string option"
  co_origin :: "context_origin option"

definition withTenantContext :: "string \<Rightarrow> int \<Rightarrow> string \<Rightarrow> context_overrides \<Rightarrow> (als \<Rightarrow> 'a) \<Rightarrow> 'a" where
  "withTenantContext fresh now tenantId ov f = runWithContext
     (createTenantStore fresh now \<lparr>tn_tenantId = tenantId, tn_userId = co_userId ov, tn_role = co_role ov,
        tn_traceId = co_traceId ov, tn_origin = co_origin ov\<rparr>) f"

definition as_user :: "string option \<Rightarrow> string \<Rightarrow> context_overrides" where
  "as_user userId role = \<lparr>co_userId = userId, co_role = Some role, co_traceId = None, co_origin = None\<rparr>"

definition asSystemIdentity :: "string \<Rightarrow> int \<Rightarrow> string \<Rightarrow> (als \<Rightarrow> 'a) \<Rightarrow> 'a" where
  "asSystemIdentity fresh now tenantId = withTenantContext fresh now tenantId (as_user None ''system'')"

definition asOwner :: "string \<Rightarrow> int \<Rightarrow> string \<Rightarrow> string \<Rightarrow> (als \<Rightarrow> 'a) \<Rightarrow> 'a" where
  "asOwner fresh now tenantId userId = withTenantContext fresh now tenantId (as_user (Some userId) ''owner'')"

definition asAdmin :: "string \<Rightarrow> int \<Rightarrow> string \<Rightarrow> string \<Rightarrow> (als \<Rightarrow> 'a) \<Rightarrow> 'a" where
  "asAdmin fresh now tenantId userId = withTenantContext fresh now tenantId (as_user (Some userId) ''admin'')"

definition asViewer :: "string \<Rightarrow> int \<Rightarrow> string \<Rightarrow> string \<Rightarrow> (als \<Rightarrow> 'a) \<Rightarrow> 'a" where
  "asViewer fresh now tenantId userId = withTenantContext fresh now tenantId (as_user (Some userId) ''viewer'')"

definition asAnonymous :: "string \<Rightarrow> int \<Rightarrow> string \<Rightarrow> (als \<Rightarrow> 'a) \<Rightarrow> 'a" where
  "asAnonymous fresh now tenantId = withTenantContext fresh now tenantId (as_user None ''anonymous'')"

record test_context_options =
  tc_tenantId :: string
  tc_userId :: "string option"
  tc_role :: "string option"
  tc_traceId :: "string option"

definition withContext :: "string \<Rightarrow> int \<Rightarrow> test_context_options \<Rightarrow> (als \<Rightarrow> 'a) \<Rightarrow> 'a" where
  "withContext fresh now opts f = runWithContext
     \<lparr>st_traceId = (case tc_traceId opts of Some t \<Rightarrow> t | None \<Rightarrow> fresh),
      st_tenantId = tc_tenantId opts, st_userId = tc_userId opts,
      st_role = (case tc_role opts of Some r \<Rightarrow> r | None \<Rightarrow> ''member''),
      st_startTime = now, st_origin = OriginHttp\<rparr> f"

definition withTenant :: "string \<Rightarrow> int \<Rightarrow> string \<Rightarrow> (als \<Rightarrow> 'a) \<Rightarrow> 'a" where
  "withTenant fresh now tenantId f = withContext fresh now
     \<lparr>tc_tenantId = tenantId, tc_userId = None, tc_role = None, tc_traceId = None\<rparr> f"

text \<open>Inside every helper the code sees the tenant it was given; the two families agree.\<close>

lemma helpers_set_tenant:
  "withTenantContext fresh now tenantId ov getTenantId = Inr tenantId"
  "withTenant fresh now tenantId getTenantId = Inr tenantId"
  "asSystemIdentity fresh now tenantId getUserId = Inr None"
  "asOwner fresh now tenantId userId getUserId = Inr (Some userId)"
  by (simp_all add: withTenantContext_def withTenant_def withContext_def runWithContext_def context_accessors
      createTenantStore_def asSystemIdentity_def asOwner_def as_user_def)

lemma withTenant_is_member:
  "withTenant fresh now tenantId f = withTenantContext fresh now tenantId
     \<lparr>co_userId = None, co_role = Some ''member'', co_traceId = None, co_origin = None\<rparr> f"
  by (simp add: withTenant_def withContext_def withTenantContext_def createTenantStore_def)

section \<open>The virtual clock\<close>

record virtual_clock =
  vc_offset :: int
  vc_frozenAt :: "int option"
  vc_installed :: bool

definition duration_error :: "string \<Rightarrow> js_error" where
  "duration_error d = plain_error ''Error'' (''Invalid duration format: '' @ [quote_char] @ d @ [quote_char] @
     ''. Use '' @ join '', '' (map (\<lambda>s. [quote_char] @ s @ [quote_char])
        [''30d'', ''2h'', ''15m'', ''1y'', ''500ms'', ''30s'', ''2w'']) @ ''.'')"

definition duration_units :: "(string, int) jsmap" where
  "duration_units = [(''ms'', 1), (''s'', 1000), (''m'', 60000), (''h'', 3600000), (''d'', 86400000),
     (''w'', 604800000), (''y'', 31536000000)]"

text \<open>\<open>/^(\d+)(ms|s|m|h|d|w|y)$/\<close>: the digits, then exactly one unit.\<close>

definition parseDuration :: "string \<Rightarrow> int result" where
  "parseDuration duration =
     (let ds = takeWhile is_digit_char duration; u = dropWhile is_digit_char duration
      in if ds = [] then Inl (Err (duration_error duration))
         else (case jm_get duration_units u of
                 Some ms \<Rightarrow> Inr (int (parse_digits ds) * ms)
               | None \<Rightarrow> Inl (Err (duration_error duration))))"

definition virtualNow :: "int \<Rightarrow> virtual_clock \<Rightarrow> int" where
  "virtualNow rnow c = (case vc_frozenAt c of Some t \<Rightarrow> t | None \<Rightarrow> rnow + vc_offset c)"

definition installVirtualClock :: "virtual_clock \<Rightarrow> virtual_clock" where
  "installVirtualClock c = c\<lparr>vc_installed := True\<rparr>"

definition restoreRealClock :: "virtual_clock \<Rightarrow> virtual_clock" where
  "restoreRealClock c = \<lparr>vc_offset = 0, vc_frozenAt = None, vc_installed = False\<rparr>"

text \<open>\<open>Date.now\<close> as the program under test sees it.\<close>

definition date_now :: "int \<Rightarrow> virtual_clock \<Rightarrow> int" where
  "date_now rnow c = (if vc_installed c then virtualNow rnow c else rnow)"

definition advance :: "string \<Rightarrow> virtual_clock \<Rightarrow> virtual_clock result" where
  "advance duration c = and_then (parseDuration duration) (\<lambda>ms. Inr (c\<lparr>vc_offset := vc_offset c + ms\<rparr>))"

definition freeze :: "int \<Rightarrow> int \<Rightarrow> virtual_clock \<Rightarrow> virtual_clock" where
  "freeze rnow timestampMs c = c\<lparr>vc_frozenAt := Some timestampMs, vc_offset := timestampMs - rnow\<rparr>"

definition advanceFromFrozen :: "string \<Rightarrow> virtual_clock \<Rightarrow> virtual_clock result" where
  "advanceFromFrozen duration c =
     (case vc_frozenAt c of
        None \<Rightarrow> Inl (Err (plain_error ''Error'' ''advanceFromFrozen: clock is not frozen. Call time.freeze() first.''))
      | Some t \<Rightarrow> and_then (parseDuration duration) (\<lambda>ms. Inr (c\<lparr>vc_frozenAt := Some (t + ms)\<rparr>)))"

text \<open>The time value of a \<open>Date\<close>; out of its range the date is invalid.\<close>

definition virtualDate :: "int \<Rightarrow> virtual_clock \<Rightarrow> int option" where
  "virtualDate rnow c = (let t = virtualNow rnow c in if \<bar>t\<bar> \<le> 8640000000000000 then Some t else None)"

definition getOffset :: "virtual_clock \<Rightarrow> int" where
  "getOffset c = vc_offset c"

definition time_reset :: "virtual_clock \<Rightarrow> virtual_clock" where
  "time_reset c = c\<lparr>vc_offset := 0, vc_frozenAt := None\<rparr>"

lemma parseDuration_units:
  assumes "jm_get duration_units u = Some ms"
  shows "parseDuration (nat_to_string n @ u) = Inr (int n * ms)"
proof -
  have "u \<in> set (jm_keys duration_units)" using assms by (metis jm_get_None_iff option.distinct(1))
  then have "u \<noteq> [] \<and> \<not> is_digit_char (hd u)"
    by (auto simp: duration_units_def jm_keys_def is_digit_char_def less_eq_char_def)
  then obtain c v where u: "u = c # v" "\<not> is_digit_char c" by (cases u) auto
  have "takeWhile is_digit_char (nat_to_string n @ u) = nat_to_string n"
    "dropWhile is_digit_char (nat_to_string n @ u) = u"
    using u by (simp_all add: takeWhile_append dropWhile_append nat_to_string_digits)
  with assms show ?thesis by (simp add: parseDuration_def)
qed

text \<open>Advancing a running clock moves it by the duration; a frozen clock stands still under it.\<close>

lemma advance_running:
  assumes "advance d c = Inr c'" "vc_frozenAt c = None"
  shows "\<exists>ms\<ge>0. parseDuration d = Inr ms \<and> virtualNow rnow c' = virtualNow rnow c + ms"
  using assms
  by (auto simp: advance_def and_then_Inr_iff virtualNow_def parseDuration_def Let_def duration_units_def
      split: if_splits option.splits)

lemma advance_frozen_ignored:
  assumes "advance d c = Inr c'" "vc_frozenAt c = Some t"
  shows "virtualNow rnow c' = t"
  using assms by (auto simp: advance_def and_then_Inr_iff virtualNow_def)

lemma frozen_clock:
  "virtualNow rnow (freeze rnow' t c) = t"
  "advanceFromFrozen d (freeze rnow' t c) = Inr c' \<Longrightarrow> \<exists>ms. parseDuration d = Inr ms \<and> virtualNow rnow c' = t + ms"
  "date_now rnow (restoreRealClock c) = rnow" "virtualNow rnow (time_reset c) = rnow"
  by (auto simp: virtualNow_def freeze_def advanceFromFrozen_def and_then_Inr_iff restoreRealClock_def date_now_def
      time_reset_def)

section \<open>The test ledger\<close>

record test_ledger_entry =
  le_action :: string
  le_amount :: "string option"
  le_currency :: "string option"
  le_tenantId :: string
  le_traceId :: string
  le_timestamp :: int

datatype field_value = FStr string | FInt int

text \<open>\<open>entry[k]\<close>, with \<open>None\<close> for \<open>undefined\<close>; a filter is the list of its own properties.\<close>

definition entry_field :: "string \<Rightarrow> test_ledger_entry \<Rightarrow> field_value option" where
  "entry_field k e =
     (if k = ''action'' then Some (FStr (le_action e))
      else if k = ''amount'' then map_option FStr (le_amount e)
      else if k = ''currency'' then map_option FStr (le_currency e)
      else if k = ''tenantId'' then Some (FStr (le_tenantId e))
      else if k = ''traceId'' then Some (FStr (le_traceId e))
      else if k = ''timestamp'' then Some (FInt (le_timestamp e)) else None)"

type_synonym entry_filter = "(string, field_value option) jsmap"

definition filterEntries :: "test_ledger_entry list \<Rightarrow> entry_filter \<Rightarrow> test_ledger_entry list" where
  "filterEntries entries flt = filter (\<lambda>e. list_all (\<lambda>(k, v). entry_field k e = v) flt) entries"

definition getLastEntry :: "test_ledger_entry list \<Rightarrow> entry_filter option \<Rightarrow> test_ledger_entry option" where
  "getLastEntry entries flt =
     (let filtered = (case flt of Some f \<Rightarrow> filterEntries entries f | None \<Rightarrow> entries)
      in if filtered = [] then None else Some (last filtered))"

definition getEntriesInWindow :: "test_ledger_entry list \<Rightarrow> int \<Rightarrow> int \<Rightarrow> test_ledger_entry list" where
  "getEntriesInWindow entries startMs endMs = filter (\<lambda>e. startMs \<le> le_timestamp e \<and> le_timestamp e \<le> endMs) entries"

text \<open>\<open>JSON.stringify\<close> of a filter: undefined properties are left out.\<close>

definition filter_json :: "entry_filter \<Rightarrow> string" where
  "filter_json flt = ''{'' @ join '','' (List.map_filter (\<lambda>(k, v). map_option (\<lambda>x. json_quote k @ '':'' @
     (case x of FStr s \<Rightarrow> json_quote s | FInt i \<Rightarrow> int_to_string i)) v) flt) @ ''}''"

definition assert_that :: "bool \<Rightarrow> string option \<Rightarrow> string \<Rightarrow> unit result" where
  "assert_that ok message generated =
     (if ok then Inr () else Inl (Err (plain_error ''Error'' (case message of Some m \<Rightarrow> m | None \<Rightarrow> generated))))"

definition assertLedgerContains :: "test_ledger_entry list \<Rightarrow> entry_filter \<Rightarrow> string option \<Rightarrow> unit result" where
  "assertLedgerContains entries flt message =
     assert_that (length (filterEntries entries flt) \<noteq> 0) message
       (''Expected ledger to contain entry matching '' @ filter_json flt @ '', but found none.'')"

definition assertLedgerNotContains :: "test_ledger_entry list \<Rightarrow> entry_filter \<Rightarrow> string option \<Rightarrow> unit result" where
  "assertLedgerNotContains entries flt message =
     (let matches = filterEntries entries flt
      in assert_that (\<not> 0 < length matches) message
        (''Expected ledger to NOT contain entry matching '' @ filter_json flt @ '', but found '' @
         nat_to_string (length matches) @ ''.''))"

definition assertLedgerCount :: "test_ledger_entry list \<Rightarrow> entry_filter \<Rightarrow> int \<Rightarrow> string option \<Rightarrow> unit result" where
  "assertLedgerCount entries flt expectedCount message =
     (let matches = filterEntries entries flt
      in assert_that (int (length matches) = expectedCount) message
        (''Expected '' @ int_to_string expectedCount @ '' entries matching '' @ filter_json flt @ '', but found '' @
         nat_to_string (length matches) @ ''.''))"

text \<open>The loops stop at the first offending entry; \<open>i\<close> is its index.\<close>

fun first_drop :: "nat \<Rightarrow> test_ledger_entry list \<Rightarrow> (nat \<times> int \<times> int) option" where
  "first_drop i (a # b # es) =
     (if le_timestamp b < le_timestamp a then Some (i, le_timestamp b, le_timestamp a) else first_drop (i + 1) (b # es))"
| "first_drop i _ = None"

definition assertLedgerChronological :: "test_ledger_entry list \<Rightarrow> string option \<Rightarrow> unit result" where
  "assertLedgerChronological entries message =
     (case first_drop 1 entries of
        None \<Rightarrow> Inr ()
      | Some (i, t, before) \<Rightarrow> assert_that False message
          (''Ledger entries are not in chronological order. Entry '' @ nat_to_string i @ '' ('' @ int_to_string t @
           '') is before entry '' @ nat_to_string (i - 1) @ '' ('' @ int_to_string before @ '').''))"

fun first_other :: "string \<Rightarrow> nat \<Rightarrow> test_ledger_entry list \<Rightarrow> (nat \<times> string) option" where
  "first_other t i [] = None"
| "first_other t i (e # es) = (if le_tenantId e \<noteq> t then Some (i, le_tenantId e) else first_other t (i + 1) es)"

abbreviation quoted :: "string \<Rightarrow> string" where "quoted s \<equiv> [quote_char] @ s @ [quote_char]"

definition assertSingleTenant :: "test_ledger_entry list \<Rightarrow> string option \<Rightarrow> unit result" where
  "assertSingleTenant entries message =
     (case entries of
        [] \<Rightarrow> Inr ()
      | e # es \<Rightarrow>
          (case first_other (le_tenantId e) 1 es of
             None \<Rightarrow> Inr ()
           | Some (i, t) \<Rightarrow> assert_that False message
               (''Expected all entries to belong to tenant '' @ quoted (le_tenantId e) @ '', but entry '' @
                nat_to_string i @ '' belongs to '' @ quoted t @ ''.'')))"

text \<open>A \<open>Set\<close> of a list keeps first occurrences in order.\<close>

definition set_in_order :: "'a list \<Rightarrow> 'a list" where
  "set_in_order xs = rev (remdups (rev xs))"

definition assertMultiTenant :: "test_ledger_entry list \<Rightarrow> string list \<Rightarrow> string option \<Rightarrow> unit result" where
  "assertMultiTenant entries expectedTenants message =
     (let actualTenants = set_in_order (map le_tenantId entries)
      in case find (\<lambda>tenant. tenant \<notin> set actualTenants) expectedTenants of
           None \<Rightarrow> Inr ()
         | Some tenant \<Rightarrow> assert_that False message
             (''Expected tenant '' @ quoted tenant @ '' to have ledger entries, but found none. Present tenants: ['' @
              join '', '' actualTenants @ '']''))"

definition assertEntriesSpanTime :: "test_ledger_entry list \<Rightarrow> int \<Rightarrow> string option \<Rightarrow> unit result" where
  "assertEntriesSpanTime entries minSpanMs message =
     (if length entries < 2 then assert_that False message ''Cannot check time span with fewer than 2 entries.''
      else let timestamps = sort (map le_timestamp entries); span = last timestamps - hd timestamps
           in assert_that (\<not> span < minSpanMs) message
             (''Expected entries to span at least '' @ int_to_string minSpanMs @ ''ms, but span was '' @
              int_to_string span @ ''ms.''))"

datatype expected_outcome = ExpectCommitted | ExpectRolledBack

definition assertTransactionPattern ::
    "test_ledger_entry list \<Rightarrow> string \<Rightarrow> expected_outcome \<Rightarrow> string option \<Rightarrow> unit result" where
  "assertTransactionPattern entries traceId expected message =
     (let txEntries = filter (\<lambda>e. le_traceId e = traceId) entries;
          actions = map le_action txEntries;
          missing = (\<lambda>action. ''Expected '' @ action @ '' entry for traceId '' @ quoted traceId @ '', but found none.'')
      in and_then (assert_that (length txEntries \<noteq> 0) message (''No entries found for traceId '' @ quoted traceId @ ''.''))
        (\<lambda>_. and_then (assert_that (''TRANSACTION_PENDING'' \<in> set actions) message (missing ''TRANSACTION_PENDING''))
        (\<lambda>_. and_then (assert_that (\<not> (expected = ExpectCommitted \<and> ''TRANSACTION_COMMITTED'' \<notin> set actions)) message
                 (missing ''TRANSACTION_COMMITTED''))
        (\<lambda>_. assert_that (\<not> (expected = ExpectRolledBack \<and> ''TRANSACTION_ROLLED_BACK'' \<notin> set actions)) message
                 (missing ''TRANSACTION_ROLLED_BACK'')))))"

subsection \<open>What the assertions mean\<close>

lemma assert_that_iff [simp]: "assert_that ok message generated = Inr u \<longleftrightarrow> ok"
  by (simp add: assert_that_def)

lemma and_then_unit_iff: "and_then (a :: unit result) f = Inr y \<longleftrightarrow> a = Inr () \<and> f () = Inr y"
  by (simp add: and_then_Inr_iff)

lemma first_drop_None: "first_drop i es = None \<longleftrightarrow> sorted (map le_timestamp es)"
proof (induction i es rule: first_drop.induct)
  case (1 i a b es)
  then show ?case by (auto simp: not_less)
qed simp_all

lemma first_other_None: "first_other t i es = None \<longleftrightarrow> (\<forall>e \<in> set es. le_tenantId e = t)"
  by (induction t i es rule: first_other.induct) auto

lemma sorted_span:
  fixes xs :: "int list"
  assumes "sorted xs" "xs \<noteq> []"
  shows "d \<le> last xs - hd xs \<longleftrightarrow> (\<exists>a \<in> set xs. \<exists>b \<in> set xs. d \<le> b - a)"
proof
  assume "d \<le> last xs - hd xs"
  with assms(2) show "\<exists>a \<in> set xs. \<exists>b \<in> set xs. d \<le> b - a" by (meson hd_in_set last_in_set)
next
  assume "\<exists>a \<in> set xs. \<exists>b \<in> set xs. d \<le> b - a"
  then obtain a b where ab: "a \<in> set xs" "b \<in> set xs" "d \<le> b - a" by blast
  have "hd xs \<le> x" "x \<le> last xs" if "x \<in> set xs" for x
  proof -
    obtain y ys where xs: "xs = y # ys" using assms(2) by (cases xs) auto
    obtain z zs where zs: "xs = zs @ [z]" using assms(2) by (cases xs rule: rev_cases) auto
    from assms(1) that xs show "hd xs \<le> x" by auto
    from assms(1) that zs show "x \<le> last xs" by (auto simp: sorted_append)
  qed
  with ab show "d \<le> last xs - hd xs" by (meson diff_mono order_trans)
qed

text \<open>Each assertion holds exactly for the ledgers its name says.\<close>

lemma ledger_assertions_exact:
  "assertLedgerContains es flt m = Inr () \<longleftrightarrow> (\<exists>e \<in> set es. \<forall>(k, v) \<in> set flt. entry_field k e = v)"
  "assertLedgerNotContains es flt m = Inr () \<longleftrightarrow> assertLedgerContains es flt m \<noteq> Inr ()"
  "assertLedgerChronological es m = Inr () \<longleftrightarrow> sorted (map le_timestamp es)"
  "assertSingleTenant es m = Inr () \<longleftrightarrow> (\<exists>t. \<forall>e \<in> set es. le_tenantId e = t)"
  "assertMultiTenant es ts m = Inr () \<longleftrightarrow> set ts \<subseteq> le_tenantId ` set es"
  "assertEntriesSpanTime es d m = Inr () \<longleftrightarrow>
     2 \<le> length es \<and> (\<exists>a \<in> set es. \<exists>b \<in> set es. d \<le> le_timestamp b - le_timestamp a)"
proof -
  show "assertLedgerContains es flt m = Inr () \<longleftrightarrow> (\<exists>e \<in> set es. \<forall>(k, v) \<in> set flt. entry_field k e = v)"
    by (auto simp: assertLedgerContains_def filterEntries_def filter_empty_conv list_all_iff)
  show "assertLedgerNotContains es flt m = Inr () \<longleftrightarrow> assertLedgerContains es flt m \<noteq> Inr ()"
    by (simp add: assertLedgerContains_def assertLedgerNotContains_def Let_def)
  show "assertLedgerChronological es m = Inr () \<longleftrightarrow> sorted (map le_timestamp es)"
    using first_drop_None[of 1 es] by (auto simp: assertLedgerChronological_def split: option.splits)
  show "assertSingleTenant es m = Inr () \<longleftrightarrow> (\<exists>t. \<forall>e \<in> set es. le_tenantId e = t)"
  proof (cases es)
    case (Cons e es')
    have "first_other (le_tenantId e) 1 es' = None \<longleftrightarrow> (\<forall>x \<in> set es'. le_tenantId x = le_tenantId e)"
      by (rule first_other_None)
    then show ?thesis
      by (cases "first_other (le_tenantId e) 1 es'") (auto simp: Cons assertSingleTenant_def)
  qed (simp add: assertSingleTenant_def)
  show "assertMultiTenant es ts m = Inr () \<longleftrightarrow> set ts \<subseteq> le_tenantId ` set es"
    by (auto simp: assertMultiTenant_def set_in_order_def find_None_iff find_Some_iff split: option.splits dest!: nth_mem)
  show "assertEntriesSpanTime es d m = Inr () \<longleftrightarrow>
     2 \<le> length es \<and> (\<exists>a \<in> set es. \<exists>b \<in> set es. d \<le> le_timestamp b - le_timestamp a)"
  proof (cases "length es < 2")
    case False
    then have "es \<noteq> []" by auto
    then have "sort (map le_timestamp es) \<noteq> []" by (metis length_0_conv length_map length_sort)
    from sorted_span[OF sorted_sort this, of d] False show ?thesis
      by (auto simp: assertEntriesSpanTime_def Let_def not_less)
  qed (simp add: assertEntriesSpanTime_def)
qed

lemma transaction_pattern_exact:
  "assertTransactionPattern es tr x m = Inr () \<longleftrightarrow>
     (let acts = le_action ` {e \<in> set es. le_traceId e = tr}
      in ''TRANSACTION_PENDING'' \<in> acts \<and>
         (case x of ExpectCommitted \<Rightarrow> ''TRANSACTION_COMMITTED'' \<in> acts
          | ExpectRolledBack \<Rightarrow> ''TRANSACTION_ROLLED_BACK'' \<in> acts))"
  by (auto simp: assertTransactionPattern_def and_then_unit_iff Let_def filter_empty_conv image_iff
      split: expected_outcome.splits)

text \<open>A ledger with both outcomes of one transaction passes for either.\<close>

lemma both_outcomes_pass:
  fixes e
  defines "e \<equiv> (\<lambda>a. \<lparr>le_action = a, le_amount = None, le_currency = None, le_tenantId = ''t'', le_traceId = ''x'', le_timestamp = 0\<rparr>)"
  defines "es \<equiv> map e [''TRANSACTION_PENDING'', ''TRANSACTION_COMMITTED'', ''TRANSACTION_ROLLED_BACK'']"
  shows "assertTransactionPattern es ''x'' ExpectCommitted None = Inr ()"
    "assertTransactionPattern es ''x'' ExpectRolledBack None = Inr ()"
  by (simp_all add: e_def es_def assertTransactionPattern_def and_then_unit_iff)

section \<open>Payment switches and the mock gateway's inspection\<close>

record mock_payments =
  mp_nextFailure :: "string option"
  mp_nextSuccess :: "(string option \<times> charge_status option) option"
  mp_stepFailures :: "(string \<times> js_error) list"
  mp_refundSpy :: bool

definition mp_failNext :: "string \<Rightarrow> mock_payments \<Rightarrow> mock_payments" where
  "mp_failNext code p = p\<lparr>mp_nextFailure := Some code\<rparr>"

definition mp_succeedNext :: "(string option \<times> charge_status option) option \<Rightarrow> mock_payments \<Rightarrow> mock_payments" where
  "mp_succeedNext r p = p\<lparr>mp_nextSuccess := r\<rparr>"

definition mp_failOn :: "string \<Rightarrow> js_error \<Rightarrow> mock_payments \<Rightarrow> mock_payments" where
  "mp_failOn step err p = p\<lparr>mp_stepFailures := mp_stepFailures p @ [(step, err)]\<rparr>"

definition mp_spyRefund :: "mock_payments \<Rightarrow> mock_payments" where
  "mp_spyRefund p = p\<lparr>mp_refundSpy := True\<rparr>"

definition consumeFailure :: "mock_payments \<Rightarrow> string option \<times> mock_payments" where
  "consumeFailure p = (mp_nextFailure p, p\<lparr>mp_nextFailure := None\<rparr>)"

definition consumeSuccess :: "mock_payments \<Rightarrow> (string option \<times> charge_status option) option \<times> mock_payments" where
  "consumeSuccess p = (mp_nextSuccess p, p\<lparr>mp_nextSuccess := None\<rparr>)"

text \<open>The first failure registered for the step is removed and returned.\<close>

fun take_failure :: "string \<Rightarrow> (string \<times> js_error) list \<Rightarrow> js_error option \<times> (string \<times> js_error) list" where
  "take_failure step [] = (None, [])"
| "take_failure step ((s, err) # fs) =
     (if s = step then (Some err, fs) else (let (r, fs') = take_failure step fs in (r, (s, err) # fs')))"

definition getStepFailure :: "string \<Rightarrow> mock_payments \<Rightarrow> js_error option \<times> mock_payments" where
  "getStepFailure step p =
     (let (r, fs) = take_failure step (mp_stepFailures p) in (r, p\<lparr>mp_stepFailures := fs\<rparr>))"

definition mp_reset :: "mock_payments \<Rightarrow> mock_payments" where
  "mp_reset p = \<lparr>mp_nextFailure = None, mp_nextSuccess = None, mp_stepFailures = [], mp_refundSpy = False\<rparr>"

definition getChargeCount :: "'m mock \<Rightarrow> nat" where
  "getChargeCount g = mk_chargeCount g"

definition getRefundCount :: "'m mock \<Rightarrow> nat" where
  "getRefundCount g = mk_refundCount g"

definition getCallHistory :: "'m mock \<Rightarrow> 'm mock_call list" where
  "getCallHistory g = mk_history g"

fun charge_call :: "'m mock_call \<Rightarrow> 'm charge_params option" where
  "charge_call (MockCharge params r) = Some params"
| "charge_call (MockRefund params) = None"

definition getLastCharge :: "'m mock \<Rightarrow> 'm charge_params option" where
  "getLastCharge g =
     (let charges = List.map_filter charge_call (mk_history g) in if charges = [] then None else Some (last charges))"

definition createStripeMock :: "int \<Rightarrow> ('m mock, 'm) provider \<times> 'm mock" where
  "createStripeMock now = (mock_provider ''stripe'', createMockGateway now)"

definition createPayFastMock :: "int \<Rightarrow> ('m mock, 'm) provider \<times> 'm mock" where
  "createPayFastMock now = (mock_provider ''payfast-ozow'', createMockGateway now)"

text \<open>Failures of one step come out in the order they were registered, and leave the others.\<close>

lemma take_failure_filter:
  "take_failure step fs = (r, fs') \<Longrightarrow>
     filter (\<lambda>(s, _). s \<noteq> step) fs' = filter (\<lambda>(s, _). s \<noteq> step) fs \<and>
     (case r of Some err \<Rightarrow> filter (\<lambda>(s, _). s = step) fs = (step, err) # filter (\<lambda>(s, _). s = step) fs'
      | None \<Rightarrow> filter (\<lambda>(s, _). s = step) fs = [])"
proof (induction step fs arbitrary: r fs' rule: take_failure.induct)
  case (2 step s err fs)
  obtain r1 fs1 where t: "take_failure step fs = (r1, fs1)" by fastforce
  show ?case
  proof (cases "s = step")
    case False
    with 2 t show ?thesis by (auto split: option.splits)
  qed (use 2 in auto)
qed simp

text \<open>The gateway's counters count the calls in its history, from its creation or last reset.\<close>

definition mock_counted :: "'m mock \<Rightarrow> bool" where
  "mock_counted g \<longleftrightarrow>
     getChargeCount g = length (List.map_filter charge_call (getCallHistory g)) \<and>
     getRefundCount g = length (filter (\<lambda>c. charge_call c = None) (getCallHistory g))"

lemma mock_counted:
  "mock_counted (createMockGateway now)" "mock_counted (mock_reset g)"
  "mock_counted g \<Longrightarrow> mock_counted (snd (mock_charge params g))"
  "mock_counted g \<Longrightarrow> mock_counted (snd (mock_refund rparams g))"
proof -
  have fresh: "mock_counted (createMockGateway t)" for t :: int and g :: "'a mock"
    by (simp add: mock_counted_def createMockGateway_def getChargeCount_def getRefundCount_def getCallHistory_def map_filter_def)
  show "mock_counted (createMockGateway now)" "mock_counted (mock_reset g)" by (simp_all add: mock_reset_def fresh)
  show "mock_counted g \<Longrightarrow> mock_counted (snd (mock_charge params g))"
    by (auto simp: mock_counted_def mock_charge_def mock_record_def getChargeCount_def getRefundCount_def
        getCallHistory_def map_filter_def Let_def split: option.splits mock_handler.splits sum.splits)
  show "mock_counted g \<Longrightarrow> mock_counted (snd (mock_refund rparams g))"
    by (auto simp: mock_counted_def mock_refund_def mock_record_def getChargeCount_def getRefundCount_def
        getCallHistory_def map_filter_def)
qed

section \<open>The reset between tests\<close>

definition governance_name :: "governance_type \<Rightarrow> string" where
  "governance_name t = (case t of GOVERNANCE_SUDO_ACCESS \<Rightarrow> ''GOVERNANCE_SUDO_ACCESS''
     | GOVERNANCE_RAW_QUERY \<Rightarrow> ''GOVERNANCE_RAW_QUERY'')"

definition assertNoGovernanceWarnings :: "governance_log \<Rightarrow> unit result" where
  "assertNoGovernanceWarnings glog =
     assert_that (\<not> 0 < length glog) None
       (''Expected no governance warnings, but found:'' @ nl @ join nl (map (\<lambda>e. ''  '' @ governance_name (gr_type e) @
          '' (traceId: '' @ gr_traceId e @ '')'') glog))"

record test_state =
  ts_ledger :: "test_ledger_entry list"
  ts_clock :: virtual_clock
  ts_payments :: mock_payments
  ts_webhooks :: dedup_cache
  ts_bus :: bus
  ts_glog :: governance_log

definition recordTestLedgerEntry :: "test_ledger_entry \<Rightarrow> test_state \<Rightarrow> test_state" where
  "recordTestLedgerEntry e s = s\<lparr>ts_ledger := ts_ledger s @ [e]\<rparr>"

definition getLedgerEntries :: "entry_filter option \<Rightarrow> test_state \<Rightarrow> test_ledger_entry list" where
  "getLedgerEntries flt s =
     (case flt of None \<Rightarrow> ts_ledger s
      | Some f \<Rightarrow> filter (\<lambda>e. list_all (\<lambda>(k, v). entry_field k e = v) f) (ts_ledger s))"

definition resetTestState :: "test_state \<Rightarrow> test_state" where
  "resetTestState s = s\<lparr>ts_ledger := [], ts_clock := time_reset (ts_clock s), ts_payments := mp_reset (ts_payments s),
     ts_webhooks := clearWebhookCache (ts_webhooks s), ts_bus := clearAllListeners (ts_bus s),
     ts_glog := clearGovernanceLog (ts_glog s)\<rparr>"

text \<open>What a test sees after the reset does not depend on the tests before it; only the installed
  clock, which then shows the real time, and the retry budgets of listeners stay.\<close>

lemma reset_isolates:
  "getLedgerEntries flt (resetTestState s) = []"
  "assertNoGovernanceWarnings (ts_glog (resetTestState s)) = Inr ()"
  "date_now rnow (ts_clock (resetTestState s)) = rnow"
  "fst (consumeFailure (ts_payments (resetTestState s))) = None"
  "fst (isDuplicate t t' i (ts_webhooks (resetTestState s))) = False"
  "listenerCount event (ts_bus (resetTestState s)) = 0"
  "resetTestState (resetTestState s) = resetTestState s"
  by (auto simp: resetTestState_def getLedgerEntries_def assertNoGovernanceWarnings_def clearGovernanceLog_def
      date_now_def virtualNow_def time_reset_def consumeFailure_def mp_reset_def isDuplicate_def evictExpired_def
      clearWebhookCache_def listenerCount_def clearAllListeners_def Let_def split: option.splits)

end
