(* ===== verification/Scaffold.thy ===== *)
theory Scaffold
  imports ScaffoldText
begin

text \<open>
  Project scaffolding (packages/cli/src/scaffold.ts): the package manifest, the compiler options and
  the map from paths to file contents. The generated text is then read back: import specifiers and
  exported names of each source file, and the configuration object of intellibiz.config.ts, which
  is handed to \<open>defineConfig\<close> of the theory Config.
\<close>

section \<open>The generated project\<close>

definition SCAFFOLD_VERSIONS :: "(string, string) jsmap" where
  "SCAFFOLD_VERSIONS = [(''intellibiz'', ''^1.18.2''), (''zod'', ''^4.4.3''), (''hono'', ''^2.1.0''),
     (''tsx'', ''^4.0.0''), (''typescript'', ''^5.9.3''), (''vitest'', ''^4.1.10''), (''nodeTypes'', ''^22.0.0'')]"

definition version_of :: "string \<Rightarrow> string" where
  "version_of k = (case jm_get SCAFFOLD_VERSIONS k of Some v \<Rightarrow> v | None \<Rightarrow> [])"

definition scaffold_dependencies :: "resolved_options \<Rightarrow> (string, string) jsmap" where
  "scaffold_dependencies options =
     (let deps = [(''@hono/node-server'', version_of ''hono''), (''intellibiz'', version_of ''intellibiz''),
            (''zod'', version_of ''zod'')]
      in if has options ''commerce'' then jm_set ''@intellibiz/core'' (version_of ''intellibiz'') deps else deps)"

definition scaffold_devDependencies :: "resolved_options \<Rightarrow> (string, string) jsmap" where
  "scaffold_devDependencies options =
     (let deps = [(''@types/node'', version_of ''nodeTypes''), (''tsx'', version_of ''tsx''),
            (''typescript'', version_of ''typescript'')]
      in if ro_tests options
         then jm_set ''vitest'' (version_of ''vitest'') (jm_set ''@intellibiz/testing'' (version_of ''intellibiz'') deps)
         else deps)"

definition scaffold_scripts :: "resolved_options \<Rightarrow> (string, string) jsmap" where
  "scaffold_scripts options =
     (let scripts = [(''dev'', ''tsx src/index.ts''), (''start'', ''tsx src/index.ts''), (''typecheck'', ''tsc --noEmit'')]
      in if ro_tests options then jm_set ''test'' ''vitest run'' scripts else scripts)"

definition str_object :: "(string, string) jsmap \<Rightarrow> js_literal" where
  "str_object m = LObj (map (\<lambda>(k, v). (k, LStr v)) m)"

definition package_json :: "string \<Rightarrow> resolved_options \<Rightarrow> js_literal" where
  "package_json projectName options = LObj [(''name'', LStr projectName), (''version'', LStr ''0.1.0''),
     (''private'', LBool True), (''type'', LStr ''module''),
     (''scripts'', str_object (scaffold_scripts options)),
     (''dependencies'', str_object (scaffold_dependencies options)),
     (''devDependencies'', str_object (scaffold_devDependencies options))]"

definition tsconfig_json :: "resolved_options \<Rightarrow> js_literal" where
  "tsconfig_json options = LObj [
     (''compilerOptions'', LObj [
        (''target'', LStr ''ES2022''), (''module'', LStr ''NodeNext''), (''moduleResolution'', LStr ''NodeNext''),
        (''lib'', LArr [LStr ''ES2022'']), (''types'', LArr [LStr ''node'']),
        (''strict'', LBool True), (''noEmit'', LBool True), (''skipLibCheck'', LBool True),
        (''esModuleInterop'', LBool True), (''forceConsistentCasingInFileNames'', LBool True),
        (''isolatedModules'', LBool True), (''resolveJsonModule'', LBool True)]),
     (''include'', LArr (map LStr (if ro_tests options then [''src'', ''tests'', ''intellibiz.config.ts'']
        else [''src'', ''intellibiz.config.ts''])))]"

definition gitignore :: string where
  "gitignore = text_nl [(0, ''node_modules''), (0, ''dist''), (0, ''.turbo''), (0, ''.env''), (0, ''.env.*''),
     (0, ''!.env.example'')]"

text \<open>Every assignment to \<open>files\<close> adds a key that is new, so the map grows at its end.\<close>

definition scaffold_files :: "string \<Rightarrow> resolved_options \<Rightarrow> (string, string) jsmap" where
  "scaffold_files projectName options =
     [(''package.json'', stringify 0 (package_json projectName options) @ nl),
      (''tsconfig.json'', stringify 0 (tsconfig_json options) @ nl),
      (''intellibiz.config.ts'', buildConfigSource projectName options),
      (''src/index.ts'', buildEntrySource projectName options),
      (''src/actions/greet.ts'', buildGreetAction),
      (''README.md'', buildReadme projectName options),
      (''.gitignore'', gitignore),
      (''.env.example'', buildEnvExample options)] @
     (if uses_finance options then [(''src/actions/quote.ts'', buildQuoteAction)] else []) @
     (if has options ''identity'' then [(''src/actions/whoami.ts'', buildWhoamiAction)] else []) @
     (if has options ''commerce'' then
       [(''src/types.ts'', buildEventRegistry),
        (''src/payments/dev-provider.ts'', buildDevProvider),
        (''src/payments/register.ts'', buildProviderRegistration),
        (''src/actions/create-order.ts'', buildCreateOrderAction),
        (''src/webhooks/payment.ts'', buildWebhookHandler projectName)]
      else []) @
     (if ro_tests options then [(''tests/app.test.ts'', buildTestSuite options)] else []) @
     (if ro_docker options then [(''docker-compose.yml'', buildCompose projectName)] else []) @
     (if ro_ci options then [(''.github/workflows/ci.yml'', buildCiWorkflow)] else [])"

record scaffolded_project =
  pr_dirName :: string
  pr_projectName :: string
  pr_options :: resolved_options
  pr_files :: "(string, string) jsmap"

definition scaffoldProject :: "string \<Rightarrow> scaffold_options \<Rightarrow> scaffolded_project result" where
  "scaffoldProject rawName options =
     (let dirName = toKebabCase rawName
      in if dirName = [] then Inl (Err (plain_error ''Error''
           (''Invalid project name \"'' @ rawName @ ''\": must contain at least one letter or digit.'')))
         else (let projectName = dirName;
                   resolved = resolveScaffoldOptions options
               in Inr \<lparr>pr_dirName = dirName, pr_projectName = projectName, pr_options = resolved,
                    pr_files = scaffold_files projectName resolved\<rparr>))"

lemma scaffoldProject_Inr:
  assumes "scaffoldProject rawName options = Inr p"
  shows "pr_files p = scaffold_files (toKebabCase rawName) (resolveScaffoldOptions options)"
    "pr_options p = resolveScaffoldOptions options" "pr_dirName p = toKebabCase rawName"
    "toKebabCase rawName \<noteq> []" "kebab_ok (pr_dirName p)"
  using assms toKebabCase_ok by (auto simp: scaffoldProject_def Let_def split: if_splits)

section \<open>Reading source text back\<close>

text \<open>The module specifier of a line that ends an import statement, and the names it imports.\<close>

definition import_spec :: "string \<Rightarrow> string option" where
  "import_spec l =
     (if starts_with l ''import '' \<or> starts_with l ''} from ''
      then (case split_on quote_char l of _ # spec # _ \<Rightarrow> Some spec | _ \<Rightarrow> None) else None)"

definition import_names :: "string \<Rightarrow> string list" where
  "import_names l =
     (case split_on CHR ''{'' l of _ # r # _ \<Rightarrow> map trim (split_on CHR '','' (hd (split_on CHR ''}'' r))) | _ \<Rightarrow> [])"

definition source_imports :: "string list \<Rightarrow> (string \<times> string list) list" where
  "source_imports ls = List.map_filter (\<lambda>l. map_option (\<lambda>s. (s, import_names l)) (import_spec l)) ls"

definition export_name :: "string \<Rightarrow> string option" where
  "export_name l =
     (if starts_with l ''export const '' then Some (takeWhile is_word_char (drop 13 l))
      else if starts_with l ''export async function '' then Some (takeWhile is_word_char (drop 22 l)) else None)"

definition source_exports :: "string list \<Rightarrow> string list" where
  "source_exports ls = List.map_filter export_name ls"

definition text_lines :: "string \<Rightarrow> string list" where
  "text_lines s = split_on CHR 0x0A s"

text \<open>A relative specifier as a path of the project, with the extension of the source file; the
  package of any other specifier.\<close>

fun path_walk :: "string list \<Rightarrow> string list \<Rightarrow> string list" where
  "path_walk d [] = d"
| "path_walk d (s # ss) = (if s = ''.'' then path_walk d ss
     else if s = ''..'' then path_walk (butlast d) ss else path_walk (d @ [s]) ss)"

definition resolve_import :: "string \<Rightarrow> string \<Rightarrow> string" where
  "resolve_import path spec =
     (let p = join ''/'' (path_walk (butlast (split_on CHR ''/'' path)) (split_on CHR ''/'' spec))
      in if slice_last 3 p = ''.js'' then take (length p - 3) p @ ''.ts'' else p)"

definition package_of :: "string \<Rightarrow> string" where
  "package_of spec = (let w = split_on CHR ''/'' spec
     in if starts_with spec ''@'' then join ''/'' (take 2 w) else hd w)"

text \<open>What a statement imports exists: a relative one names a generated file that exports the names,
  any other one a package of the manifest.\<close>

definition import_ok :: "(string, string) jsmap \<Rightarrow> string list \<Rightarrow> string \<Rightarrow> string \<times> string list \<Rightarrow> bool" where
  "import_ok files packages path imp =
     (if starts_with (fst imp) ''.''
      then (case jm_get files (resolve_import path (fst imp)) of None \<Rightarrow> False
            | Some text \<Rightarrow> set (snd imp) \<subseteq> set (source_exports (text_lines text)))
      else package_of (fst imp) \<in> set packages)"

definition is_source_path :: "string \<Rightarrow> bool" where
  "is_source_path path \<longleftrightarrow> slice_last 3 path = ''.ts''"

end
