(* ===== verification/ScaffoldImports.thy ===== *)
theory ScaffoldImports
  imports Scaffold
begin

text \<open>
  Every import of a generated source file resolves. The text of each file is split into lines again;
  the statements and exported names found there are computed line by line.
\<close>

section \<open>Lines of generated text\<close>

definition line_ok :: "nat \<times> string \<Rightarrow> bool" where
  "line_ok l \<longleftrightarrow> CHR 0x0A \<notin> set (snd l)"

lemma text_lines_nl: "list_all line_ok ls \<Longrightarrow> text_lines (text_nl ls) = map text_line ls @ [[]]"
proof (induction ls)
  case (Cons l ls)
  then have "CHR 0x0A \<notin> set (text_line l)" by (simp add: line_ok_def text_line_def)
  from split_on_append[OF this] Cons show ?case by (simp add: text_nl_def text_lines_def)
qed (simp add: text_nl_def text_lines_def)

lemma text_lines_of: "ls \<noteq> [] \<Longrightarrow> list_all line_ok ls \<Longrightarrow> text_lines (text_of ls) = map text_line ls"
  unfolding text_of_def text_lines_def
  by (rule split_on_join) (auto simp: list_all_iff line_ok_def text_line_def)

definition line_imports :: "(nat \<times> string) list \<Rightarrow> (string \<times> string list) list" where
  "line_imports ls = source_imports (map text_line ls)"

definition line_exports :: "(nat \<times> string) list \<Rightarrow> string list" where
  "line_exports ls = source_exports (map text_line ls)"

lemma line_append:
  "line_imports (xs @ ys) = line_imports xs @ line_imports ys"
  "line_exports (xs @ ys) = line_exports xs @ line_exports ys"
  by (simp_all add: line_imports_def source_imports_def line_exports_def source_exports_def List.map_filter_def)

lemma line_import_cases:
  "line_imports [] = []"
  "0 < k \<Longrightarrow> line_imports ((k, s) # ls) = line_imports ls"
  "line_imports ((0, []) # ls) = line_imports ls"
  "c \<noteq> CHR ''i'' \<Longrightarrow> c \<noteq> CHR ''}'' \<Longrightarrow> line_imports ((0, c # s) # ls) = line_imports ls"
  by (cases k; simp add: line_imports_def source_imports_def import_spec_def text_line_def map_filter_simps)+

lemma line_import:
  "line_imports ((0, c # s) # ls) =
   (case import_spec (c # s) of None \<Rightarrow> [] | Some p \<Rightarrow> [(p, import_names (c # s))]) @ line_imports ls"
  by (simp add: line_imports_def source_imports_def text_line_def map_filter_simps split: option.splits)

lemma line_export_cases:
  "line_exports [] = []"
  "0 < k \<Longrightarrow> line_exports ((k, s) # ls) = line_exports ls"
  "line_exports ((0, []) # ls) = line_exports ls"
  "c \<noteq> CHR ''e'' \<Longrightarrow> line_exports ((0, c # s) # ls) = line_exports ls"
  by (cases k; simp add: line_exports_def source_exports_def export_name_def text_line_def map_filter_simps)+

lemma line_export:
  "line_exports ((0, c # s) # ls) = (case export_name (c # s) of None \<Rightarrow> [] | Some p \<Rightarrow> [p]) @ line_exports ls"
  by (simp add: line_exports_def source_exports_def text_line_def map_filter_simps split: option.splits)

lemmas import_simps = line_import_cases line_import import_spec_def import_names_def trim_def trim_start_def is_space_char_def
lemmas export_simps = line_export_cases line_export export_name_def is_word_char_def is_lower_char_def is_upper_char_def is_digit_char_def less_eq_char_def

lemma list_all_lines: "list_all line_ok [] = True" "list_all line_ok ((k, s) # ls) = (CHR 0x0A \<notin> set s \<and> list_all line_ok ls)"
  by (simp_all add: line_ok_def)

lemma source_of_nl: "list_all line_ok ls \<Longrightarrow> source_imports (text_lines (text_nl ls)) = line_imports ls"
  "list_all line_ok ls \<Longrightarrow> source_exports (text_lines (text_nl ls)) = line_exports ls"
  by (simp_all add: text_lines_nl line_imports_def line_exports_def source_imports_def source_exports_def
     import_spec_def export_name_def List.map_filter_def)

lemma source_of: "ls \<noteq> [] \<Longrightarrow> list_all line_ok ls \<Longrightarrow> source_imports (text_lines (text_of ls)) = line_imports ls"
  by (simp add: text_lines_of line_imports_def)


lemmas source_simps = line_ok_def em_dash_def import_simps export_simps line_append

lemma greet_source:
  "source_imports (text_lines buildGreetAction) = [(''intellibiz'', [''defineAction'']), (''zod'', [''z''])]"
  "source_exports (text_lines buildGreetAction) = [''GreetInput'', ''greet'']"
  unfolding buildGreetAction_def lit_def by (subst source_of_nl; simp add: source_simps)+

lemma quote_source:
  "source_imports (text_lines buildQuoteAction) = [(''intellibiz'', [''defineAction'', ''money'']), (''zod'', [''z''])]"
  "source_exports (text_lines buildQuoteAction) = [''QuoteInput'', ''quote'']"
  unfolding buildQuoteAction_def lit_def by (subst source_of_nl; simp add: source_simps)+

lemma whoami_source:
  "source_imports (text_lines buildWhoamiAction) = [(''intellibiz'', [''defineAction''])]"
  "source_exports (text_lines buildWhoamiAction) = [''whoami'']"
  unfolding buildWhoamiAction_def lit_def by (subst source_of_nl; simp add: source_simps)+

lemma types_source:
  "source_imports (text_lines buildEventRegistry) = []"
  "source_exports (text_lines buildEventRegistry) = []"
  unfolding buildEventRegistry_def lit_def by (subst source_of_nl; simp add: source_simps)+

lemma dev_source:
  "source_imports (text_lines buildDevProvider) = [(''intellibiz'', [])]"
  "source_exports (text_lines buildDevProvider) = [''devPaymentProvider'']"
  unfolding buildDevProvider_def lit_def by (subst source_of_nl; simp add: source_simps)+

lemma register_source:
  "source_imports (text_lines buildProviderRegistration) =
    [(''intellibiz'', [''commerce'']), (''./dev-provider.js'', [''devPaymentProvider''])]"
  "source_exports (text_lines buildProviderRegistration) = []"
  unfolding buildProviderRegistration_def lit_def by (subst source_of_nl; simp add: source_simps)+

lemma order_source:
  "source_imports (text_lines buildCreateOrderAction) =
    [(''intellibiz'', [''commerce'', ''defineAction'', ''money'']), (''zod'', [''z''])]"
  "source_exports (text_lines buildCreateOrderAction) = [''CreateOrderInput'', ''createOrder'']"
  unfolding buildCreateOrderAction_def lit_def by (subst source_of_nl; simp add: source_simps)+

lemma webhook_source:
  assumes "CHR 0x0A \<notin> set name"
  shows "source_imports (text_lines (buildWebhookHandler name)) =
      [(''intellibiz'', [''commerce'', ''StripeProvider'']), (''intellibiz'', [''RequestContext''])]"
    "source_exports (text_lines (buildWebhookHandler name)) = [''paymentWebhook'']"
  unfolding buildWebhookHandler_def lit_def using assms by (subst source_of_nl; simp add: source_simps)+

lemma test_source:
  "source_imports (text_lines (buildTestSuite options)) =
     [(''vitest'', [''beforeEach'', ''describe'', ''expect'', ''it'']),
      (''@intellibiz/testing'', [''resetTestState'', ''withContext'']), (''../src/actions/greet.js'', [''greet''])] @
     (if uses_finance options then [(''../src/actions/quote.js'', [''quote''])] else []) @
     (if has options ''commerce''
      then [(''../src/actions/create-order.js'', [''createOrder'']), (''../src/payments/register.js'', [])] else [])"
  unfolding buildTestSuite_def test_imports_def test_cases_def lit_def
  by (cases "uses_finance options"; cases "has options ''commerce''"; subst source_of_nl; simp add: source_simps)

lemma set_join: "set (join sep ws) \<subseteq> set sep \<union> \<Union> (set ` set ws)"
  by (induction sep ws rule: join.induct) auto

lemma config_source:
  assumes "CHR 0x0A \<notin> set name" "\<forall>m \<in> set (ro_modules options). CHR 0x0A \<notin> set m"
  shows "source_imports (text_lines (buildConfigSource name options)) = [(''intellibiz/config'', [''defineConfig''])]"
proof -
  have "CHR 0x0A \<notin> set (join '', '' (map (\<lambda>m. quote_char # m @ [quote_char]) (ro_modules options)))"
  proof
    assume "CHR 0x0A \<in> set (join '', '' (map (\<lambda>m. quote_char # m @ [quote_char]) (ro_modules options)))"
    from subsetD[OF set_join this] assms(2) show False by (auto split: if_splits)
  qed
  with assms show ?thesis
    unfolding buildConfigSource_def config_blocks_def lit_def
    by (subst source_of_nl) (simp_all add: source_simps)
qed

lemma entry_source:
  assumes "CHR 0x0A \<notin> set name"
  shows "source_imports (text_lines (buildEntrySource name options)) =
     [(''intellibiz'', (if has options ''commerce'' then [''commerce''] else []) @ [''http'']),
      (''./actions/greet.js'', [''greet''])] @
     (if uses_finance options then [(''./actions/quote.js'', [''quote''])] else []) @
     (if has options ''commerce''
      then [(''./actions/create-order.js'', [''createOrder'']), (''./payments/register.js'', []),
            (''./webhooks/payment.js'', [''paymentWebhook''])] else []) @
     (if has options ''identity'' then [(''./actions/whoami.js'', [''whoami''])] else [])"
  unfolding buildEntrySource_def entry_lines_def entry_imports_def entry_routes_def lit_def using assms
  by (cases "uses_finance options"; cases "has options ''commerce''"; cases "has options ''identity''";
      subst source_of; simp add: source_simps)


lemma resolved_modules:
  "ro_modules (resolveScaffoldOptions options) = filter (\<lambda>m. m \<in> set (coalesce (sc_modules options)
     (st_modules (SCAFFOLD_TEMPLATES (coalesce (sc_template options) Store))))) MODULE_NAMES"
  by (simp add: resolveScaffoldOptions_def Let_def)

lemma kebab_no_nl: "kebab_ok s \<Longrightarrow> CHR 0x0A \<notin> set s"
  by (auto simp: kebab_ok_def list_all_iff is_lower_char_def is_digit_char_def less_eq_char_def)

definition scaffold_packages :: "resolved_options \<Rightarrow> string list" where
  "scaffold_packages options = jm_keys (scaffold_dependencies options) @ jm_keys (scaffold_devDependencies options)"

lemma packages_eq: "scaffold_packages options =
    [''@hono/node-server'', ''intellibiz'', ''zod''] @ (if has options ''commerce'' then [''@intellibiz/core''] else []) @
    [''@types/node'', ''tsx'', ''typescript''] @ (if ro_tests options then [''@intellibiz/testing'', ''vitest''] else [])"
  by (simp add: scaffold_packages_def scaffold_dependencies_def scaffold_devDependencies_def jm_keys_def Let_def)

lemma files_get:
  fixes name options
  defines "F \<equiv> scaffold_files name options"
  shows "jm_get F ''src/actions/greet.ts'' = Some buildGreetAction"
    "uses_finance options \<Longrightarrow> jm_get F ''src/actions/quote.ts'' = Some buildQuoteAction"
    "has options ''identity'' \<Longrightarrow> jm_get F ''src/actions/whoami.ts'' = Some buildWhoamiAction"
    "has options ''commerce'' \<Longrightarrow> jm_get F ''src/actions/create-order.ts'' = Some buildCreateOrderAction"
    "has options ''commerce'' \<Longrightarrow> jm_get F ''src/payments/register.ts'' = Some buildProviderRegistration"
    "has options ''commerce'' \<Longrightarrow> jm_get F ''src/payments/dev-provider.ts'' = Some buildDevProvider"
    "has options ''commerce'' \<Longrightarrow> jm_get F ''src/webhooks/payment.ts'' = Some (buildWebhookHandler name)"
    "jm_get F ''intellibiz.config.ts'' = Some (buildConfigSource name options)"
    "jm_get F ''src/index.ts'' = Some (buildEntrySource name options)"
    "ro_tests options \<Longrightarrow> jm_get F ''tests/app.test.ts'' = Some (buildTestSuite options)"
  by (simp_all add: F_def scaffold_files_def)

lemma imports_resolve_to:
  "resolve_import ''src/index.ts'' ''./actions/greet.js'' = ''src/actions/greet.ts''"
  "resolve_import ''src/index.ts'' ''./actions/quote.js'' = ''src/actions/quote.ts''"
  "resolve_import ''src/index.ts'' ''./actions/whoami.js'' = ''src/actions/whoami.ts''"
  "resolve_import ''src/index.ts'' ''./actions/create-order.js'' = ''src/actions/create-order.ts''"
  "resolve_import ''src/index.ts'' ''./payments/register.js'' = ''src/payments/register.ts''"
  "resolve_import ''src/index.ts'' ''./webhooks/payment.js'' = ''src/webhooks/payment.ts''"
  "resolve_import ''src/payments/register.ts'' ''./dev-provider.js'' = ''src/payments/dev-provider.ts''"
  "resolve_import ''tests/app.test.ts'' ''../src/actions/greet.js'' = ''src/actions/greet.ts''"
  "resolve_import ''tests/app.test.ts'' ''../src/actions/quote.js'' = ''src/actions/quote.ts''"
  "resolve_import ''tests/app.test.ts'' ''../src/actions/create-order.js'' = ''src/actions/create-order.ts''"
  "resolve_import ''tests/app.test.ts'' ''../src/payments/register.js'' = ''src/payments/register.ts''"
  by (simp_all add: resolve_import_def slice_last_def)

lemma packages_of:
  "package_of ''intellibiz'' = ''intellibiz''" "package_of ''intellibiz/config'' = ''intellibiz''"
  "package_of ''zod'' = ''zod''" "package_of ''vitest'' = ''vitest''"
  "package_of ''@intellibiz/testing'' = ''@intellibiz/testing''"
  by (simp_all add: package_of_def)

lemma sources_ok:
  assumes n: "CHR 0x0A \<notin> set name" and m: "\<forall>m \<in> set (ro_modules options). CHR 0x0A \<notin> set m"
  shows "list_all (\<lambda>(path, text). is_source_path path \<longrightarrow>
    list_all (import_ok (scaffold_files name options) (scaffold_packages options) path) (source_imports (text_lines text)))
    (scaffold_files name options)"
proof -
  define F where "F = scaffold_files name options"
  define K where "K = scaffold_packages options"
  note get = files_get[where name = name and options = options, folded F_def]
  have base: "set [''intellibiz'', ''zod''] \<subseteq> set K" "ro_tests options \<Longrightarrow> set [''@intellibiz/testing'', ''vitest''] \<subseteq> set K"
    by (auto simp: K_def packages_eq)
  have u: "has options ''commerce'' \<Longrightarrow> uses_finance options" by (simp add: uses_finance_def)
  have "list_all (\<lambda>(path, text). is_source_path path \<longrightarrow>
      list_all (import_ok F K path) (source_imports (text_lines text))) (scaffold_files name options)"
    unfolding scaffold_files_def
    using base u
    by (simp add: is_source_path_def slice_last_def import_ok_def imports_resolve_to packages_of get
       greet_source quote_source whoami_source types_source dev_source register_source order_source
       webhook_source[OF n] config_source[OF n m] entry_source[OF n] test_source)
  then show ?thesis by (simp add: F_def K_def)
qed

lemma files_distinct: "distinct (jm_keys (scaffold_files name options))"
  by (cases "uses_finance options"; cases "has options ''identity''"; cases "has options ''commerce''";
      cases "ro_tests options"; cases "ro_docker options"; cases "ro_ci options";
      simp add: scaffold_files_def jm_keys_def)

lemma resolved_in_names: "m \<in> set (ro_modules (resolveScaffoldOptions options)) \<Longrightarrow> m \<in> set MODULE_NAMES"
  by (simp add: resolved_modules)

lemma module_names_no_nl:
  "m \<in> set (ro_modules (resolveScaffoldOptions options)) \<Longrightarrow> CHR 0x0A \<notin> set m"
  using resolved_in_names by (fastforce simp: MODULE_NAMES_def)

text \<open>C37: generated projects have no dangling import. Whatever the name, template, modules and
  features, each path is generated once, and every import statement of every generated source file
  either names another generated file, which exports all the names imported from it, or belongs to
  a package that the generated package.json lists.\<close>

theorem scaffold_imports_resolve:
  assumes "scaffoldProject rawName options = Inr p"
    and "(path, text) \<in> set (pr_files p)" "is_source_path path"
    and "imp \<in> set (source_imports (text_lines text))"
  shows "distinct (jm_keys (pr_files p)) \<and>
    import_ok (pr_files p) (scaffold_packages (pr_options p)) path imp"
proof -
  note p = scaffoldProject_Inr[OF assms(1)]
  have "CHR 0x0A \<notin> set (toKebabCase rawName)" by (rule kebab_no_nl) (rule toKebabCase_ok)
  from sources_ok[OF this, of "pr_options p"] module_names_no_nl assms(2-4) files_distinct show ?thesis
    by (fastforce simp: p list_all_iff)
qed

theorem scaffold_imports_resolve_witness:
  "\<exists>p. scaffoldProject ''My Shop'' no_options = Inr p \<and>
    import_ok (pr_files p) (scaffold_packages (pr_options p)) ''src/index.ts''
      (''./webhooks/payment.js'', [''paymentWebhook''])"
proof -
  have k: "toKebabCase ''My Shop'' = ''my-shop''" by code_simp
  then obtain p where p: "scaffoldProject ''My Shop'' no_options = Inr p" by (simp add: scaffoldProject_def Let_def)
  note f = scaffoldProject_Inr[OF p]
  have c: "has (resolveScaffoldOptions no_options) ''commerce''" by code_simp
  have "(''src/index.ts'', buildEntrySource ''my-shop'' (resolveScaffoldOptions no_options)) \<in> set (pr_files p)"
    by (simp add: f k scaffold_files_def)
  moreover have "is_source_path ''src/index.ts''" by code_simp
  moreover have "(''./webhooks/payment.js'', [''paymentWebhook'']) \<in>
      set (source_imports (text_lines (buildEntrySource ''my-shop'' (resolveScaffoldOptions no_options))))"
    by (subst entry_source) (simp_all add: c)
  ultimately show ?thesis using p scaffold_imports_resolve[OF p] by blast
qed

end
