(* ===== verification/Config.thy ===== *)
theory Config
  imports Errors
begin

text \<open>
  Configuration (packages/core/src/config/schema.ts and validate.ts). The schemas are expressions of
  the validation library zod, which is a dependency: a schema is its expression tree, and
  \<open>safeParse\<close> is an argument whose documented behaviour is the locale \<open>schema_lib\<close>. The reference
  parser shows that the contract can be met, and every parser that meets it accepts the same
  configurations with the same result. Functions inside a configuration (a resolver, plugins) are
  opaque values.
\<close>

section \<open>Schema expressions\<close>

datatype str_check = CMinLen nat | CLen nat | CUpperCase | CPattern "string \<Rightarrow> bool"

datatype num_check = CInt | CPositive | CNonneg | CAtLeast rat | CAtMost rat

datatype schema =
    ZEnum "string list"
  | ZString "str_check list"
  | ZBool
  | ZNum "num_check list"
  | ZAny
  | ZArr schema
  | ZObj "(string \<times> schema) list"
  | ZOptional schema
  | ZDefault json schema

text \<open>The checks of a string run in order; \<open>toUpperCase\<close> changes what the later ones see.\<close>

fun run_str :: "str_check list \<Rightarrow> string \<Rightarrow> string option" where
  "run_str [] s = Some s"
| "run_str (CMinLen n # cs) s = (if n \<le> length s then run_str cs s else None)"
| "run_str (CLen n # cs) s = (if length s = n then run_str cs s else None)"
| "run_str (CUpperCase # cs) s = run_str cs (to_upper s)"
| "run_str (CPattern p # cs) s = (if p s then run_str cs s else None)"

fun num_ok :: "num_check \<Rightarrow> rat \<Rightarrow> bool" where
  "num_ok CInt x = (x = of_int \<lfloor>x\<rfloor>)"
| "num_ok CPositive x = (0 < x)"
| "num_ok CNonneg x = (0 \<le> x)"
| "num_ok (CAtLeast a) x = (a \<le> x)"
| "num_ok (CAtMost a) x = (x \<le> a)"

text \<open>The present fields of an object, in the schema's order.\<close>

fun present :: "(string \<times> 'a) list \<Rightarrow> json option list \<Rightarrow> (string \<times> json) list" where
  "present ((k, _) # fs) (Some j # rs) = (k, j) # present fs rs"
| "present (_ # fs) (None # rs) = present fs rs"
| "present _ _ = []"

section \<open>The contract of the validation library\<close>

type_synonym issues = "(string list \<times> string) list"

text \<open>An absent value is \<open>None\<close>. The laws say which values are accepted and with what result; the
  issues of a rejection are left open.\<close>

locale schema_lib =
  fixes safeParse :: "schema \<Rightarrow> json option \<Rightarrow> issues + json option"
  assumes parse_enum: "safeParse (ZEnum vs) v = Inr r \<longleftrightarrow> (\<exists>s \<in> set vs. v = Some (JStr s) \<and> r = v)"
    and parse_string: "safeParse (ZString cs) v = Inr r \<longleftrightarrow>
      (\<exists>s s'. v = Some (JStr s) \<and> run_str cs s = Some s' \<and> r = Some (JStr s'))"
    and parse_bool: "safeParse ZBool v = Inr r \<longleftrightarrow> (\<exists>b. v = Some (JBool b) \<and> r = v)"
    and parse_num: "safeParse (ZNum ns) v = Inr r \<longleftrightarrow>
      (\<exists>x. v = Some (JNum x) \<and> list_all (\<lambda>c. num_ok c x) ns \<and> r = v)"
    and parse_any: "safeParse ZAny v = Inr v"
    and parse_arr: "safeParse (ZArr s) v = Inr r \<longleftrightarrow>
      (\<exists>xs ys. v = Some (JArr xs) \<and> list_all2 (\<lambda>x y. safeParse s (Some x) = Inr (Some y)) xs ys \<and> r = Some (JArr ys))"
    and parse_obj: "safeParse (ZObj fs) v = Inr r \<longleftrightarrow>
      (\<exists>kvs rs. v = Some (JObj kvs) \<and> list_all2 (\<lambda>f r. safeParse (snd f) (jm_get kvs (fst f)) = Inr r) fs rs \<and>
         r = Some (JObj (present fs rs)))"
    and parse_optional: "safeParse (ZOptional s) v = (if v = None then Inr None else safeParse s v)"
    and parse_default: "safeParse (ZDefault d s) v = (if v = None then Inr (Some d) else safeParse s v)"

text \<open>A parser that meets the contract.\<close>

fun ref_parse :: "schema \<Rightarrow> json option \<Rightarrow> json option option"
  and ref_fields :: "(string \<times> schema) list \<Rightarrow> (string \<times> json) list \<Rightarrow> json option list option" where
  "ref_parse (ZEnum vs) v = (case v of Some (JStr s) \<Rightarrow> if s \<in> set vs then Some v else None | _ \<Rightarrow> None)"
| "ref_parse (ZString cs) v = (case v of
     Some (JStr s) \<Rightarrow> map_option (\<lambda>s'. Some (JStr s')) (run_str cs s) | _ \<Rightarrow> None)"
| "ref_parse ZBool v = (case v of Some (JBool _) \<Rightarrow> Some v | _ \<Rightarrow> None)"
| "ref_parse (ZNum ns) v = (case v of
     Some (JNum x) \<Rightarrow> if list_all (\<lambda>c. num_ok c x) ns then Some v else None | _ \<Rightarrow> None)"
| "ref_parse ZAny v = Some v"
| "ref_parse (ZArr s) v = (case v of
     Some (JArr xs) \<Rightarrow> map_option (\<lambda>ys. Some (JArr ys))
       (those (map (\<lambda>x. Option.bind (ref_parse s (Some x)) (\<lambda>y. y)) xs)) | _ \<Rightarrow> None)"
| "ref_parse (ZObj fs) v = (case v of
     Some (JObj kvs) \<Rightarrow> map_option (\<lambda>rs. Some (JObj (present fs rs))) (ref_fields fs kvs) | _ \<Rightarrow> None)"
| "ref_parse (ZOptional s) v = (if v = None then Some None else ref_parse s v)"
| "ref_parse (ZDefault d s) v = (if v = None then Some (Some d) else ref_parse s v)"
| "ref_fields [] kvs = Some []"
| "ref_fields ((k, s) # fs) kvs = (case ref_parse s (jm_get kvs k) of
     None \<Rightarrow> None
   | Some r \<Rightarrow> map_option (\<lambda>rs. r # rs) (ref_fields fs kvs))"

definition ref_safeParse :: "schema \<Rightarrow> json option \<Rightarrow> issues + json option" where
  "ref_safeParse s v = (case ref_parse s v of Some r \<Rightarrow> Inr r | None \<Rightarrow> Inl [([], ''Invalid input'')])"

lemma those_list_all2: "those (map f xs) = Some ys \<longleftrightarrow> list_all2 (\<lambda>x y. f x = Some y) xs ys"
proof (induction xs arbitrary: ys)
  case (Cons x xs)
  then show ?case by (cases ys) (auto split: option.splits)
qed auto

lemma ref_fields_list_all2:
  "ref_fields fs kvs = Some rs \<longleftrightarrow> list_all2 (\<lambda>f r. ref_parse (snd f) (jm_get kvs (fst f)) = Some r) fs rs"
proof (induction fs arbitrary: rs)
  case (Cons f fs)
  then show ?case by (cases f; cases rs) (auto split: option.splits)
qed auto

lemma ref_safeParse_Inr: "ref_safeParse s v = Inr r \<longleftrightarrow> ref_parse s v = Some r"
  by (simp add: ref_safeParse_def split: option.splits)

lemma bind_id: "Option.bind x (\<lambda>y. y) = Some y \<longleftrightarrow> x = Some (Some y)"
  by (cases x) auto

interpretation ref: schema_lib ref_safeParse
proof unfold_locales
  show "ref_safeParse (ZOptional s) v = (if v = None then Inr None else ref_safeParse s v)" for s v
    by (simp add: ref_safeParse_def)
  show "ref_safeParse (ZDefault d s) v = (if v = None then Inr (Some d) else ref_safeParse s v)" for d s v
    by (simp add: ref_safeParse_def)
qed (auto simp: ref_safeParse_Inr those_list_all2 bind_id ref_fields_list_all2 split: option.splits json.splits)

context schema_lib
begin

lemma parse_determined: "safeParse s v = Inr r \<longleftrightarrow> ref_parse s v = Some r"
proof (induction s arbitrary: v r)
  case (ZArr s)
  then show ?case
    by (auto simp: parse_arr those_list_all2 bind_id split: option.splits json.splits)
next
  case (ZObj fs)
  have IH: "safeParse (snd (fs ! i)) v = Inr r \<longleftrightarrow> ref_parse (snd (fs ! i)) v = Some r" if "i < length fs" for i v r
    using ZObj[OF nth_mem[OF that]] by (cases "fs ! i") simp
  have "list_all2 (\<lambda>f r. safeParse (snd f) (jm_get kvs (fst f)) = Inr r) fs rs \<longleftrightarrow> ref_fields fs kvs = Some rs" for kvs rs
    by (auto simp: ref_fields_list_all2 list_all2_conv_all_nth IH)
  then show ?case by (auto simp: parse_obj split: option.splits json.splits)
qed (auto simp: parse_enum parse_string parse_bool parse_num parse_any parse_optional parse_default
    split: option.splits json.splits)

lemma parse_iff_ref: "safeParse s v = Inr r \<longleftrightarrow> ref_safeParse s v = Inr r"
  by (simp add: parse_determined ref_safeParse_Inr)

end

section \<open>The configuration schema\<close>

abbreviation z_str :: schema where "z_str \<equiv> ZString []"
abbreviation z_opt_str :: "string \<Rightarrow> schema" where "z_opt_str d \<equiv> ZDefault (JStr d) z_str"
abbreviation z_enum :: "string list \<Rightarrow> string \<Rightarrow> schema" where "z_enum vs d \<equiv> ZDefault (JStr d) (ZEnum vs)"
abbreviation z_bool :: "bool \<Rightarrow> schema" where "z_bool d \<equiv> ZDefault (JBool d) ZBool"
abbreviation z_num :: "num_check list \<Rightarrow> rat \<Rightarrow> schema" where "z_num ns d \<equiv> ZDefault (JNum d) (ZNum ns)"

definition TenancySchema :: schema where
  "TenancySchema = ZObj [(''strategy'', ZEnum [''column'', ''schema'']),
     (''key'', ZDefault (JStr ''org_id'') (ZString [CMinLen 1])),
     (''type'', z_enum [''uuid'', ''string''] ''uuid''),
     (''strict'', z_bool True),
     (''resolve'', ZOptional ZAny)]"

definition AuthSchema :: schema where
  "AuthSchema = ZObj [(''provider'', ZEnum [''internal'', ''external'']),
     (''jwtSecret'', ZOptional z_str),
     (''algorithm'', z_enum [''HS256'', ''RS256''] ''HS256''),
     (''tokenExpiry'', z_opt_str ''24h''),
     (''refreshTokenExpiry'', z_opt_str ''30d'')]"

definition FinanceSchema :: schema where
  "FinanceSchema = ZObj [(''baseCurrency'', ZString [CLen 3, CUpperCase]),
     (''rounding'', z_enum [''bankers'', ''half-up'', ''truncate''] ''bankers''),
     (''taxation'', ZOptional (ZObj [(''provider'', z_enum [''internal'', ''external''] ''internal''),
        (''autoCalculate'', z_bool True)])),
     (''exchangeRates'', ZOptional (ZObj [
        (''provider'', z_enum [''internal'', ''openexchangerates'', ''fixer''] ''internal''),
        (''syncInterval'', z_enum [''hourly'', ''daily'', ''manual''] ''hourly'')]))]"

definition CommerceSchema :: schema where
  "CommerceSchema = ZObj [
     (''ledger'', ZOptional (ZObj [(''mode'', z_enum [''atomic'', ''background''] ''atomic'')])),
     (''invoicing'', z_enum [''auto'', ''manual''] ''manual''),
     (''webhookDedup'', ZOptional (ZObj [(''provider'', z_enum [''memory'', ''redis''] ''memory''),
        (''ttlHours'', z_num [CInt, CPositive] 24)]))]"

text \<open>\<open>/^\d+[dwmy]$/\<close>; without the multiline flag \<open>$\<close> is the end of the string.\<close>

definition is_retention :: "string \<Rightarrow> bool" where
  "is_retention s \<longleftrightarrow> 2 \<le> length s \<and> list_all is_digit_char (butlast s) \<and> last s \<in> set ''dwmy''"

definition LedgerSchema :: schema where
  "LedgerSchema = ZObj [(''mode'', z_enum [''atomic'', ''background''] ''atomic''),
     (''sync'', ZDefault (JArr [JStr ''db'']) (ZArr z_str)),
     (''retention'', ZDefault (JStr ''7y'') (ZString [CPattern is_retention])),
     (''signatureAlgorithm'', z_enum [''ed25519'', ''sha256''] ''sha256'')]"

definition GovernanceSchema :: schema where
  "GovernanceSchema = ZObj [(''auditAll'', z_bool True), (''allowSudo'', z_bool False),
     (''excludeSensitive'', ZDefault (JArr [JStr ''password'', JStr ''cardNumber'', JStr ''ssn'']) (ZArr z_str))]"

text \<open>\<open>is_url\<close> is the library's URL check.\<close>

definition DatabaseSchema :: "(string \<Rightarrow> bool) \<Rightarrow> schema" where
  "DatabaseSchema is_url = ZObj [(''url'', ZOptional (ZString [CPattern is_url])),
     (''pool'', ZOptional (ZObj [(''min'', z_num [CInt, CNonneg] 2), (''max'', z_num [CInt, CPositive] 10)])),
     (''queryTimeout'', z_num [CInt, CPositive] 30000),
     (''defaultLimit'', z_num [CInt, CPositive] 100)]"

definition EnvironmentSchema :: schema where
  "EnvironmentSchema = ZObj [(''dryRun'', z_bool False), (''trace'', z_bool True),
     (''logLevel'', z_enum [''debug'', ''info'', ''warn'', ''error'', ''silent''] ''info'')]"

definition EventBusSchema :: schema where
  "EventBusSchema = ZObj [(''provider'', z_enum [''internal'', ''redis'', ''nats''] ''internal''),
     (''maxRetries'', z_num [CInt, CNonneg] 3), (''deadLetterRetention'', z_opt_str ''7d'')]"

definition InventorySchema :: schema where
  "InventorySchema = ZObj [(''mode'', z_enum [''strict'', ''lenient''] ''strict''),
     (''lowStockAlert'', z_num [CInt, CNonneg] 5), (''reservationTtl'', z_opt_str ''15m'')]"

definition OverridesSchema :: schema where
  "OverridesSchema = ZObj [(''taxCalculation'', z_bool False), (''autoScaffold'', z_bool True),
     (''path'', z_opt_str ''./intellibiz'')]"

definition IntellibizConfigSchema :: "(string \<Rightarrow> bool) \<Rightarrow> schema" where
  "IntellibizConfigSchema is_url = ZObj [
     (''modules'', ZOptional (ZArr (ZEnum [''commerce'', ''finance'', ''identity'', ''legal'', ''db'',
        ''inventory'', ''logistics'']))),
     (''tenancy'', ZOptional TenancySchema),
     (''auth'', ZOptional AuthSchema),
     (''finance'', ZOptional FinanceSchema),
     (''commerce'', ZOptional CommerceSchema),
     (''ledger'', ZOptional LedgerSchema),
     (''governance'', ZOptional GovernanceSchema),
     (''database'', ZOptional (DatabaseSchema is_url)),
     (''inventory'', ZOptional InventorySchema),
     (''environment'', ZOptional EnvironmentSchema),
     (''eventBus'', ZOptional EventBusSchema),
     (''taxation'', ZOptional (ZObj [(''provider'', z_enum [''internal'', ''external''] ''internal''),
        (''defaultRate'', z_num [CAtLeast 0, CAtMost 1] 0)])),
     (''plugins'', ZOptional (ZArr ZAny)),
     (''overrides'', ZOptional OverridesSchema)]"

section \<open>Dependency rules and \<open>defineConfig\<close>\<close>

text \<open>\<open>c.a?.b\<close> on the resolved configuration, and the truth value of a property.\<close>

definition cfg_get :: "json \<Rightarrow> string \<Rightarrow> string \<Rightarrow> json option" where
  "cfg_get c a b = Option.bind (jget c a) (\<lambda>v. jget v b)"

definition cfg_truthy :: "json option \<Rightarrow> bool" where
  "cfg_truthy v = (case v of None \<Rightarrow> False | Some JNull \<Rightarrow> False | Some (JBool b) \<Rightarrow> b
     | Some (JNum x) \<Rightarrow> x \<noteq> 0 | Some (JStr s) \<Rightarrow> s \<noteq> [] | _ \<Rightarrow> True)"

record dependency_rule =
  dr_flag :: string
  dr_requires :: string
  dr_isViolated :: "string option \<Rightarrow> json \<Rightarrow> bool"

text \<open>\<open>env\<close> is NODE_ENV.\<close>

definition DEPENDENCY_RULES :: "dependency_rule list" where
  "DEPENDENCY_RULES = [
     \<lparr>dr_flag = ''auth.jwtSecret'', dr_requires = ''auth.provider = \"internal\"'',
      dr_isViolated = (\<lambda>env c. cfg_get c ''auth'' ''provider'' = Some (JStr ''internal'') \<and>
        \<not> cfg_truthy (cfg_get c ''auth'' ''jwtSecret''))\<rparr>,
     \<lparr>dr_flag = ''tenancy'', dr_requires = ''ledger.mode = \"atomic\"'',
      dr_isViolated = (\<lambda>env c. cfg_get c ''ledger'' ''mode'' = Some (JStr ''atomic'') \<and>
        \<not> cfg_truthy (jget c ''tenancy''))\<rparr>,
     \<lparr>dr_flag = ''governance.auditAll'', dr_requires = ''governance.allowSudo = true'',
      dr_isViolated = (\<lambda>env c. cfg_get c ''governance'' ''allowSudo'' = Some (JBool True) \<and>
        cfg_get c ''governance'' ''auditAll'' = Some (JBool False))\<rparr>,
     \<lparr>dr_flag = ''environment.dryRun = false'', dr_requires = ''production'',
      dr_isViolated = (\<lambda>env c. cfg_get c ''environment'' ''dryRun'' = Some (JBool True) \<and>
        env = Some ''production'')\<rparr>,
     \<lparr>dr_flag = ''finance.baseCurrency'', dr_requires = ''commerce'',
      dr_isViolated = (\<lambda>env c. cfg_truthy (jget c ''commerce'') \<and>
        \<not> cfg_truthy (cfg_get c ''finance'' ''baseCurrency''))\<rparr>]"

definition startup_warnings :: "string option \<Rightarrow> json \<Rightarrow> string list" where
  "startup_warnings env config =
     (if cfg_truthy (cfg_get config ''governance'' ''allowSudo'')
      then [''[intellibiz] WARNING: governance.allowSudo is true. db.sudo() bypasses tenancy. Ensure all usages are audited.'']
      else []) @
     (if cfg_truthy (cfg_get config ''environment'' ''dryRun'')
      then [''[intellibiz] WARNING: environment.dryRun is true. No data will be written.''] else []) @
     (if \<not> cfg_truthy (jget config ''tenancy'') \<and> env = Some ''production''
      then [''[intellibiz] WARNING: No tenancy configuration. Multi-tenancy is disabled.''] else [])"

definition issue_line :: "string list \<times> string \<Rightarrow> string" where
  "issue_line i = ''  '' @ join ''.'' (fst i) @ '': '' @ snd i"

definition newline :: string where "newline = [CHR 0x0A]"

definition schema_error :: "issues \<Rightarrow> js_error" where
  "schema_error issues =
     ConfigValidationError
       (''intellibiz.config.ts failed schema validation:'' @ newline @ join newline (map issue_line issues))
       (Some (JObj [(''issueCount'', JNum (of_nat (length issues))),
          (''issues'', JArr (map (\<lambda>(path, msg). JObj [(''path'', JStr (join ''.'' path)), (''message'', JStr msg)]) issues))]))"

text \<open>The result is the resolved configuration and the warnings printed.\<close>

definition defineConfig ::
    "(schema \<Rightarrow> json option \<Rightarrow> issues + json option) \<Rightarrow> (string \<Rightarrow> bool) \<Rightarrow> string option \<Rightarrow> json \<Rightarrow> (json \<times> string list) result" where
  "defineConfig safeParse is_url env config =
     (case safeParse (IntellibizConfigSchema is_url) (Some config) of
        Inl issues \<Rightarrow> Inl (Err (schema_error issues))
      | Inr r \<Rightarrow>
          let resolved = the r in
          (case filter (\<lambda>rule. dr_isViolated rule env resolved) DEPENDENCY_RULES of
             rule # _ \<Rightarrow> Inl (Err (ConfigDependencyError (dr_flag rule) (dr_requires rule)))
           | [] \<Rightarrow> Inr (resolved, startup_warnings env resolved)))"

section \<open>Validating twice\<close>

text \<open>A schema is stable when its string checks accept what they produce, its defaults pass it and its
  keys are distinct.\<close>

fun stable :: "schema \<Rightarrow> bool" and stable_fields :: "(string \<times> schema) list \<Rightarrow> bool" where
  "stable (ZString cs) = (\<forall>x y. run_str cs x = Some y \<longrightarrow> run_str cs y = Some y)"
| "stable (ZArr s) = stable s"
| "stable (ZObj fs) = (distinct (map fst fs) \<and> stable_fields fs)"
| "stable (ZOptional s) = stable s"
| "stable (ZDefault d s) = (stable s \<and> ref_parse s (Some d) = Some (Some d))"
| "stable _ = True"
| "stable_fields [] = True"
| "stable_fields ((k, s) # fs) = (stable s \<and> stable_fields fs)"

lemma ref_parse_Some: "ref_parse s (Some x) = Some r \<Longrightarrow> r \<noteq> None"
  by (induction s) (auto split: option.splits json.splits if_splits)

lemma jm_get_present_notin: "k \<notin> fst ` set fs \<Longrightarrow> jm_get (present fs rs) k = None"
  by (induction fs rs rule: present.induct) auto

lemma ref_fields_present:
  assumes "length rs = length gs"
  shows "distinct (map fst (gs :: (string \<times> schema) list)) \<Longrightarrow> i < length gs \<Longrightarrow> jm_get (present gs rs) (fst (gs ! i)) = rs ! i"
  using assms
proof (induction gs arbitrary: i rs)
  case (Cons g gs)
  obtain r rs' where rs: "rs = r # rs'" using Cons.prems(3) by (cases rs) auto
  obtain k s where g: "g = (k, s)" by fastforce
  show ?case
  proof (cases i)
    case 0
    then show ?thesis using Cons.prems jm_get_present_notin[of k gs rs'] by (cases r) (auto simp: rs g)
  next
    case (Suc j)
    have "fst (gs ! j) \<in> fst ` set gs" using Cons.prems(2) Suc by auto
    then have "fst (gs ! j) \<noteq> k" using Cons.prems(1) by (auto simp: g)
    with Cons Suc show ?thesis by (cases r) (auto simp: rs g)
  qed
qed simp

lemma ref_fields_nth:
  "ref_fields fs kvs = Some rs \<longleftrightarrow> length rs = length fs \<and>
    (\<forall>i < length fs. ref_parse (snd (fs ! i)) (jm_get kvs (fst (fs ! i))) = Some (rs ! i))"
  by (auto simp: ref_fields_list_all2 list_all2_conv_all_nth)

lemma stable_fields_iff: "stable_fields fs \<longleftrightarrow> (\<forall>f \<in> set fs. stable (snd f))"
  by (induction fs) auto

lemma ref_parse_idem: "stable s \<Longrightarrow> ref_parse s v = Some r \<Longrightarrow> ref_parse s r = Some r"
proof (induction s arbitrary: v r)
  case (ZArr s)
  then obtain xs ys where v: "v = Some (JArr xs)" "r = Some (JArr ys)"
    and l: "list_all2 (\<lambda>x y. ref_parse s (Some x) = Some (Some y)) xs ys"
    by (auto simp: those_list_all2 bind_id split: option.splits json.splits)
  have "list_all2 (\<lambda>x y. ref_parse s (Some x) = Some (Some y)) ys ys"
    using l ZArr by (auto simp: list_all2_conv_all_nth)
  then show ?case by (simp add: v those_list_all2 bind_id)
next
  case (ZObj fs)
  then obtain kvs rs where v: "v = Some (JObj kvs)" "r = Some (JObj (present fs rs))"
    and l: "ref_fields fs kvs = Some rs"
    by (auto split: option.splits json.splits)
  have d: "distinct (map fst fs)" and st: "\<And>i. i < length fs \<Longrightarrow> stable (snd (fs ! i))"
    using ZObj.prems(1) by (auto simp: stable_fields_iff)
  have len: "length rs = length fs" using l by (simp add: ref_fields_nth)
  have "ref_parse (snd (fs ! i)) (jm_get (present fs rs) (fst (fs ! i))) = Some (rs ! i)" if i: "i < length fs" for i
  proof -
    have "ref_parse (snd (fs ! i)) (jm_get kvs (fst (fs ! i))) = Some (rs ! i)"
      using l i by (simp add: ref_fields_nth)
    from ZObj.IH[OF nth_mem[OF i] _ st[OF i] this] have "ref_parse (snd (fs ! i)) (rs ! i) = Some (rs ! i)"
      by (cases "fs ! i") simp
    then show ?thesis using ref_fields_present[OF len d i] by simp
  qed
  with len have "ref_fields fs (present fs rs) = Some rs" by (simp add: ref_fields_nth)
  then show ?case by (simp add: v)
next
  case (ZOptional s)
  then show ?case by (auto split: if_splits)
next
  case (ZDefault d s)
  then show ?case using ref_parse_Some[of s _ r] by (cases v) (auto split: if_splits)
qed (auto split: option.splits json.splits if_splits)

lemmas schema_defs = IntellibizConfigSchema_def TenancySchema_def AuthSchema_def FinanceSchema_def
  CommerceSchema_def LedgerSchema_def GovernanceSchema_def DatabaseSchema_def EnvironmentSchema_def
  EventBusSchema_def InventorySchema_def OverridesSchema_def

lemma config_schema_stable: "stable (IntellibizConfigSchema is_url)"
proof -
  have "is_retention ''7y''" by code_simp
  then show ?thesis by (simp add: schema_defs split: if_splits)
qed

lemma parsed_field:
  assumes "ref_parse (ZObj fs) (Some c) = Some (Some c')" "stable (ZObj fs)" "(k, s) \<in> set fs"
  shows "ref_parse s (jget c' k) = Some (jget c' k)"
proof -
  from assms(1) obtain kvs rs where l: "ref_fields fs kvs = Some rs" and c': "c' = JObj (present fs rs)"
    by (auto split: json.splits)
  from assms(3) obtain i where i: "i < length fs" "fs ! i = (k, s)" by (auto simp: in_set_conv_nth)
  have len: "length rs = length fs" and d: "distinct (map fst fs)"
    using l assms(2) by (simp_all add: ref_fields_nth)
  have g: "jget c' k = rs ! i" using ref_fields_present[OF len d i(1)] i(2) by (simp add: c')
  have "ref_parse s (jm_get kvs k) = Some (rs ! i)" using l i by (auto simp: ref_fields_nth)
  moreover have "stable s" using assms(2,3) by (auto simp: stable_fields_iff)
  ultimately show ?thesis using ref_parse_idem g by simp
qed

lemma optional_field:
  assumes "ref_parse (ZObj fs) (Some c) = Some (Some c')" "stable (ZObj fs)" "(k, ZOptional s) \<in> set fs"
    "jget c' k = Some v"
  shows "ref_parse s (Some v) = Some (Some v)"
  using parsed_field[OF assms(1-3)] assms(4) by simp

text \<open>A field of a section of a parsed configuration has been parsed too.\<close>

lemma section_field:
  assumes "ref_parse (ZObj fs) (Some c0) = Some (Some c)" "stable (ZObj fs)"
    and "S = ZObj gs" "jget c k = Some f" "(k, ZOptional S) \<in> set fs" "(k', s) \<in> set gs"
  shows "ref_parse s (jget f k') = Some (jget f k')"
proof -
  have "stable (ZOptional S)" using assms(2,5) by (auto simp: stable_fields_iff)
  then have "stable (ZObj gs)" using assms(3) by simp
  from parsed_field[OF _ this assms(6)] optional_field[OF assms(1,2,5,4)] show ?thesis by (simp add: assms(3))
qed

lemma defineConfig_Inr:
  assumes "schema_lib P"
  shows "defineConfig P is_url env config = Inr (c, ws) \<longleftrightarrow>
    ref_parse (IntellibizConfigSchema is_url) (Some config) = Some (Some c) \<and>
    list_all (\<lambda>rule. \<not> dr_isViolated rule env c) DEPENDENCY_RULES \<and> ws = startup_warnings env c"
proof -
  have n: "ref_parse (IntellibizConfigSchema is_url) (Some config) \<noteq> Some None"
    using ref_parse_Some by blast
  have "P (IntellibizConfigSchema is_url) (Some config) = Inr r \<longleftrightarrow>
      ref_parse (IntellibizConfigSchema is_url) (Some config) = Some r" for r
    by (rule schema_lib.parse_determined[OF assms])
  note det = this
  show ?thesis
  proof (cases "ref_parse (IntellibizConfigSchema is_url) (Some config)")
    case None
    then obtain e where "P (IntellibizConfigSchema is_url) (Some config) = Inl e"
      using det by (metis option.distinct(1) sum.exhaust)
    with None show ?thesis by (simp add: defineConfig_def)
  next
    case (Some r)
    then obtain c' where c': "r = Some c'" using n by auto
    have "P (IntellibizConfigSchema is_url) (Some config) = Inr (Some c')" using det Some c' by blast
    with Some show ?thesis
      by (auto simp: c' defineConfig_def Let_def list_all_iff filter_empty_conv split: list.splits)
  qed
qed

lemma str_field: "ref_parse (ZString cs) v = Some v \<Longrightarrow> \<exists>s. v = Some (JStr s) \<and> run_str cs s = Some s"
  by (auto split: option.splits json.splits)

lemma default_bool_field: "ref_parse (z_bool d) v = Some v \<Longrightarrow> \<exists>b. v = Some (JBool b)"
  by (auto split: option.splits json.splits if_splits)



definition sample_config :: json where
  "sample_config = JObj [(''commerce'', JObj []), (''finance'', JObj [(''baseCurrency'', JStr ''usd'')])]"

definition sample_resolved :: json where
  "sample_resolved = JObj [(''finance'', JObj [(''baseCurrency'', JStr ''USD''), (''rounding'', JStr ''bankers'')]),
     (''commerce'', JObj [(''invoicing'', JStr ''manual'')])]"

lemma sample_defined: "defineConfig ref_safeParse (\<lambda>_. True) None sample_config = Inr (sample_resolved, [])"
  by code_simp


end
