(* ===== verification/ScaffoldConfig.thy ===== *)
theory ScaffoldConfig
  imports ScaffoldImports Config
begin

text \<open>
  The generated intellibiz.config.ts, read as the object literal it passes to \<open>defineConfig\<close> and
  validated by the model of \<open>defineConfig\<close>. The reader takes the lines between
  \<open>export default defineConfig({\<close> and the closing line, splits each into tokens and runs a stack
  machine over them; \<open>process.env[k] ?? d\<close> is one token that is evaluated in an environment.
\<close>

section \<open>Reading an object literal\<close>

datatype cfg_token = TStr string | TWord string | TSym char | TEnv string string

datatype tok_state = Plain | InWord string | InStr string

definition is_word_part :: "char \<Rightarrow> bool" where
  "is_word_part c \<longleftrightarrow> is_word_char c \<or> c = CHR ''.''"

fun cfg_tokens :: "tok_state \<Rightarrow> string \<Rightarrow> cfg_token list" where
  "cfg_tokens Plain [] = []"
| "cfg_tokens (InWord w) [] = [TWord (rev w)]"
| "cfg_tokens (InStr w) [] = []"
| "cfg_tokens Plain (c # s) =
     (if c = quote_char then cfg_tokens (InStr []) s
      else if is_word_part c then cfg_tokens (InWord [c]) s
      else if is_space_char c then cfg_tokens Plain s
      else TSym c # cfg_tokens Plain s)"
| "cfg_tokens (InWord w) (c # s) =
     (if is_word_part c then cfg_tokens (InWord (c # w)) s
      else if c = quote_char then TWord (rev w) # cfg_tokens (InStr []) s
      else if is_space_char c then TWord (rev w) # cfg_tokens Plain s
      else TWord (rev w) # TSym c # cfg_tokens Plain s)"
| "cfg_tokens (InStr w) (c # s) =
     (if c = quote_char then TStr (rev w) # cfg_tokens Plain s else cfg_tokens (InStr (c # w)) s)"

fun env_tokens :: "cfg_token list \<Rightarrow> cfg_token list" where
  "env_tokens [] = []"
| "env_tokens (t # ts) =
     (if t = TWord ''process.env'' then
        (case take 6 ts of
           [TSym a, TStr k, TSym b, TSym c, TSym d, TStr e] \<Rightarrow>
             if [a, b, c, d] = ''[]??'' then TEnv k e # env_tokens (drop 6 ts) else t # env_tokens ts
         | _ \<Rightarrow> t # env_tokens ts)
      else t # env_tokens ts)"

datatype cfg_expr =
    EStr string
  | EWord string
  | EEnv string string
  | EArr "cfg_expr list"
  | EObj "(string \<times> cfg_expr) list"

datatype obj_stage = AtKey | AfterKey string | AtValue string | AtComma

datatype frame = FTop "cfg_expr option" | FArr bool "cfg_expr list" | FObj "(string \<times> cfg_expr) list" obj_stage

fun deliver :: "cfg_expr \<Rightarrow> frame list \<Rightarrow> frame list option" where
  "deliver v (FTop None # fr) = Some (FTop (Some v) # fr)"
| "deliver v (FArr False xs # fr) = Some (FArr True (v # xs) # fr)"
| "deliver v (FObj fs (AtValue k) # fr) = Some (FObj ((k, v) # fs) AtComma # fr)"
| "deliver v _ = None"

fun cfg_step :: "cfg_token \<Rightarrow> frame list \<Rightarrow> frame list option" where
  "cfg_step (TStr s) fr = deliver (EStr s) fr"
| "cfg_step (TEnv k d) fr = deliver (EEnv k d) fr"
| "cfg_step (TWord w) fr = (case fr of
     FObj fs AtKey # r \<Rightarrow> Some (FObj fs (AfterKey w) # r) | _ \<Rightarrow> deliver (EWord w) fr)"
| "cfg_step (TSym c) fr =
     (if c = CHR ''['' then Some (FArr False [] # fr)
      else if c = CHR ''{'' then Some (FObj [] AtKey # fr)
      else (case fr of
          FArr b xs # r \<Rightarrow> if c = CHR '']'' then deliver (EArr (rev xs)) r
            else if c = CHR '','' \<and> b then Some (FArr False xs # r) else None
        | FObj fs AtKey # r \<Rightarrow> if c = CHR ''}'' then deliver (EObj (rev fs)) r else None
        | FObj fs AtComma # r \<Rightarrow> if c = CHR ''}'' then deliver (EObj (rev fs)) r
            else if c = CHR '','' then Some (FObj fs AtKey # r) else None
        | FObj fs (AfterKey k) # r \<Rightarrow> if c = CHR '':'' then Some (FObj fs (AtValue k) # r) else None
        | _ \<Rightarrow> None))"

fun cfg_run :: "cfg_token list \<Rightarrow> frame list \<Rightarrow> frame list option" where
  "cfg_run [] fr = Some fr"
| "cfg_run (t # ts) fr = Option.bind (cfg_step t fr) (cfg_run ts)"

definition cfg_parse :: "cfg_token list \<Rightarrow> cfg_expr option" where
  "cfg_parse ts = (case cfg_run ts [FTop None] of Some [FTop v] \<Rightarrow> v | _ \<Rightarrow> None)"

definition word_value :: "string \<Rightarrow> json option" where
  "word_value w = (if w = ''true'' then Some (JBool True) else if w = ''false'' then Some (JBool False)
     else if w \<noteq> [] \<and> list_all is_digit_char w then Some (JNum (of_nat (parse_digits w))) else None)"

fun cfg_eval :: "(string \<Rightarrow> string option) \<Rightarrow> cfg_expr \<Rightarrow> json option" where
  "cfg_eval env (EStr s) = Some (JStr s)"
| "cfg_eval env (EWord w) = word_value w"
| "cfg_eval env (EEnv k d) = Some (JStr (coalesce (env k) d))"
| "cfg_eval env (EArr xs) = map_option JArr (those (map (cfg_eval env) xs))"
| "cfg_eval env (EObj fs) =
     map_option JObj (those (map (\<lambda>(k, e). map_option (\<lambda>v. (k, v)) (cfg_eval env e)) fs))"

definition config_body :: "string list \<Rightarrow> string list" where
  "config_body ls = takeWhile (\<lambda>l. l \<noteq> ''});'') (tl (dropWhile (\<lambda>l. l \<noteq> ''export default defineConfig({'') ls))"

definition line_tokens :: "string \<Rightarrow> cfg_token list" where
  "line_tokens l = env_tokens (cfg_tokens Plain l)"

definition read_config :: "(string \<Rightarrow> string option) \<Rightarrow> string \<Rightarrow> json option" where
  "read_config env text = Option.bind
     (cfg_parse ([TSym CHR ''{''] @ concat (map line_tokens (config_body (text_lines text))) @ [TSym CHR ''}'']))
     (cfg_eval env)"

section \<open>The generated configuration\<close>

definition config_expr :: "resolved_options \<Rightarrow> (string \<times> cfg_expr) list" where
  "config_expr options =
     [(''modules'', EArr (map EStr (ro_modules options))),
      (''tenancy'', EObj [(''strategy'', EStr ''column''), (''key'', EStr ''org_id''), (''type'', EStr ''uuid''),
         (''strict'', EWord ''true'')])] @
     (if has options ''identity'' then [(''auth'', EObj [(''provider'', EStr ''internal''),
         (''jwtSecret'', EEnv ''JWT_SECRET'' ''dev-only-secret-change-me'')])] else []) @
     (if has options ''finance'' then [(''finance'', EObj [(''baseCurrency'', EStr ''USD''),
         (''rounding'', EStr ''bankers'')])] else []) @
     (if has options ''commerce'' then [(''commerce'', EObj [(''ledger'', EObj [(''mode'', EStr ''atomic'')]),
         (''invoicing'', EStr ''auto''),
         (''webhookDedup'', EObj [(''provider'', EStr ''memory''), (''ttlHours'', EWord ''24'')])])] else []) @
     [(''environment'', EObj [(''trace'', EWord ''true''), (''logLevel'', EStr ''info'')])]"

fun item_tokens :: "string list \<Rightarrow> cfg_token list" where
  "item_tokens [] = []"
| "item_tokens [m] = [TStr m]"
| "item_tokens (m # ms) = TStr m # TSym CHR '','' # item_tokens ms"

lemma cfg_tokens_str: "quote_char \<notin> set m \<Longrightarrow>
    cfg_tokens (InStr w) (m @ quote_char # s) = TStr (rev w @ m) # cfg_tokens Plain s"
  by (induction m arbitrary: w) auto

lemma cfg_tokens_items:
  "\<forall>m \<in> set ms. quote_char \<notin> set m \<Longrightarrow>
    cfg_tokens Plain (join '', '' (map (\<lambda>m. quote_char # m @ [quote_char]) ms) @ s) = item_tokens ms @ cfg_tokens Plain s"
  by (induction ms rule: item_tokens.induct)
    (simp_all add: cfg_tokens_str is_word_part_def is_word_char_def is_digit_char_def is_lower_char_def
      is_upper_char_def is_space_char_def less_eq_char_def)

lemma env_tokens_none: "TWord ''process.env'' \<notin> set ts \<Longrightarrow> env_tokens ts = ts"
  by (induction ts) auto

lemma item_tokens_no_word: "TWord w \<notin> set (item_tokens ms)"
  by (induction ms rule: item_tokens.induct) auto

lemma cfg_run_append: "cfg_run (a @ b) fr = Option.bind (cfg_run a fr) (cfg_run b)"
  by (induction a arbitrary: fr) (auto split: bind_splits)

lemma cfg_run_items: "cfg_run (item_tokens ms) (FArr False xs # r) = Some (FArr (ms \<noteq> []) (rev (map EStr ms) @ xs) # r)"
  by (induction ms arbitrary: xs rule: item_tokens.induct) auto


lemma quoted_module: "m \<in> set MODULE_NAMES \<Longrightarrow> quote_char \<notin> set m"
  by (auto simp: MODULE_NAMES_def)

lemma run_bind: "cfg_run ts fr = Some fr' \<Longrightarrow> cfg_run (ts @ ts') fr = cfg_run ts' fr'"
  by (simp add: cfg_run_append)

lemmas token_simps = line_tokens_def text_line_def is_word_part_def is_word_char_def is_digit_char_def
  is_lower_char_def is_upper_char_def is_space_char_def less_eq_char_def

lemma modules_line:
  assumes "\<forall>m \<in> set ms. quote_char \<notin> set m"
  shows "line_tokens (text_line (1, ''modules: ['' @ join '', '' (map (\<lambda>m. quote_char # m @ [quote_char]) ms) @ ''],'')) =
    [TWord ''modules'', TSym CHR '':'', TSym CHR ''[''] @ item_tokens ms @ [TSym CHR '']'', TSym CHR '','']"
proof -
  have "cfg_tokens Plain (text_line (1, ''modules: ['' @ join '', '' (map (\<lambda>m. quote_char # m @ [quote_char]) ms) @ ''],'')) =
    [TWord ''modules'', TSym CHR '':'', TSym CHR ''[''] @ item_tokens ms @ [TSym CHR '']'', TSym CHR '','']"
    by (simp add: token_simps cfg_tokens_items[OF assms])
  moreover have "env_tokens ([TWord ''modules'', TSym CHR '':'', TSym CHR ''[''] @ item_tokens ms @ [TSym CHR '']'', TSym CHR '','']) =
     [TWord ''modules'', TSym CHR '':'', TSym CHR ''[''] @ item_tokens ms @ [TSym CHR '']'', TSym CHR '','']"
    by (rule env_tokens_none) (simp add: item_tokens_no_word)
  ultimately show ?thesis by (simp add: line_tokens_def)
qed

lemma config_body_lines:
  assumes "CHR 0x0A \<notin> set name" "\<forall>m \<in> set (ro_modules options). CHR 0x0A \<notin> set m"
  shows "config_body (text_lines (buildConfigSource name options)) = map text_line (config_blocks options)"
proof -
  have k: "\<forall>l \<in> set (config_blocks options). fst l \<noteq> 0"
    by (auto simp: config_blocks_def)
  have t: "takeWhile (\<lambda>l. l \<noteq> ''});'') (map text_line bs @ ''});'' # r) = map text_line bs"
    if "\<forall>l \<in> set bs. fst l \<noteq> 0" for bs r
    using that
  proof (induction bs)
    case (Cons l bs)
    then obtain n where "fst l = Suc n" by (cases "fst l") auto
    with Cons show ?case by (simp add: text_line_def)
  qed simp
  have ok: "list_all line_ok (config_blocks options)"
  proof -
    have "CHR 0x0A \<notin> set (join '', '' (map (\<lambda>m. quote_char # m @ [quote_char]) (ro_modules options)))"
      using subsetD[OF set_join, of "CHR 0x0A" "'', ''"] assms(2) by (force split: if_splits)
    then show ?thesis by (simp add: config_blocks_def lit_def line_ok_def)
  qed
  show ?thesis
    unfolding buildConfigSource_def lit_def
    apply (subst text_lines_nl)
     apply (simp add: ok line_ok_def em_dash_def assms)
    apply (simp add: config_body_def text_line_def em_dash_def)
    using t[OF k] apply (simp add: text_line_def[abs_def])
    done
qed

definition block_tokens :: "(nat \<times> string) list \<Rightarrow> cfg_token list" where
  "block_tokens ls = concat (map (\<lambda>l. line_tokens (text_line l)) ls)"

lemma block_tokens_append: "block_tokens (xs @ ys) = block_tokens xs @ block_tokens ys"
  "block_tokens (if b then xs else []) = (if b then block_tokens xs else [])"
  by (simp_all add: block_tokens_def)

lemma run_modules:
  assumes "\<forall>m \<in> set ms. quote_char \<notin> set m"
  shows "cfg_run (block_tokens [(1, ''modules: ['' @ join '', '' (map (\<lambda>m. lit ''~'' @ m @ lit ''~'') ms) @ ''],'')])
     (FObj fs AtKey # r) = Some (FObj ((''modules'', EArr (map EStr ms)) # fs) AtKey # r)"
  using modules_line[OF assms] by (simp add: block_tokens_def lit_def cfg_run_append cfg_run_items)

lemma config_lines:
  "line_tokens (text_line (1, ''},'')) = [TSym CHR ''}'', TSym CHR '','']"
  "line_tokens (text_line (1, ''}'')) = [TSym CHR ''}'']"
  "line_tokens (text_line (1, ''tenancy: {'')) = [TWord ''tenancy'', TSym CHR '':'', TSym CHR ''{'']"
  "line_tokens (text_line (2, lit ''strategy: ~column~,'')) = [TWord ''strategy'', TSym CHR '':'', TStr ''column'', TSym CHR '','']"
  "line_tokens (text_line (2, lit ''key: ~org_id~,'')) = [TWord ''key'', TSym CHR '':'', TStr ''org_id'', TSym CHR '','']"
  "line_tokens (text_line (2, lit ''type: ~uuid~,'')) = [TWord ''type'', TSym CHR '':'', TStr ''uuid'', TSym CHR '','']"
  "line_tokens (text_line (2, ''strict: true'')) = [TWord ''strict'', TSym CHR '':'', TWord ''true'']"
  "line_tokens (text_line (1, ''auth: {'')) = [TWord ''auth'', TSym CHR '':'', TSym CHR ''{'']"
  "line_tokens (text_line (2, lit ''provider: ~internal~,'')) =
    [TWord ''provider'', TSym CHR '':'', TStr ''internal'', TSym CHR '','']"
  "line_tokens (text_line (2, lit ''jwtSecret: process.env[~JWT_SECRET~] ?? ~dev-only-secret-change-me~'')) =
    [TWord ''jwtSecret'', TSym CHR '':'', TEnv ''JWT_SECRET'' ''dev-only-secret-change-me'']"
  "line_tokens (text_line (1, ''finance: {'')) = [TWord ''finance'', TSym CHR '':'', TSym CHR ''{'']"
  "line_tokens (text_line (2, lit ''baseCurrency: ~USD~,'')) = [TWord ''baseCurrency'', TSym CHR '':'', TStr ''USD'', TSym CHR '','']"
  "line_tokens (text_line (2, lit ''rounding: ~bankers~'')) = [TWord ''rounding'', TSym CHR '':'', TStr ''bankers'']"
  "line_tokens (text_line (1, ''commerce: {'')) = [TWord ''commerce'', TSym CHR '':'', TSym CHR ''{'']"
  "line_tokens (text_line (2, lit ''ledger: { mode: ~atomic~ },'')) =
    [TWord ''ledger'', TSym CHR '':'', TSym CHR ''{'', TWord ''mode'', TSym CHR '':'', TStr ''atomic'', TSym CHR ''}'', TSym CHR '','']"
  "line_tokens (text_line (2, lit ''invoicing: ~auto~,'')) = [TWord ''invoicing'', TSym CHR '':'', TStr ''auto'', TSym CHR '','']"
  "line_tokens (text_line (2, lit ''webhookDedup: { provider: ~memory~, ttlHours: 24 }'')) =
    [TWord ''webhookDedup'', TSym CHR '':'', TSym CHR ''{'', TWord ''provider'', TSym CHR '':'', TStr ''memory'', TSym CHR '','',
     TWord ''ttlHours'', TSym CHR '':'', TWord ''24'', TSym CHR ''}'']"
  "line_tokens (text_line (1, ''environment: {'')) = [TWord ''environment'', TSym CHR '':'', TSym CHR ''{'']"
  "line_tokens (text_line (2, ''trace: true,'')) = [TWord ''trace'', TSym CHR '':'', TWord ''true'', TSym CHR '','']"
  "line_tokens (text_line (2, lit ''logLevel: ~info~'')) = [TWord ''logLevel'', TSym CHR '':'', TStr ''info'']"
  by code_simp+

lemma run_tenancy:
  "cfg_run (block_tokens
     [(1, ''tenancy: {''),
      (2, lit ''strategy: ~column~,''),
      (2, lit ''key: ~org_id~,''),
      (2, lit ''type: ~uuid~,''),
      (2, ''strict: true''),
      (1, ''},'')]) (FObj fs AtKey # r) =
   Some (FObj ((''tenancy'', EObj [(''strategy'', EStr ''column''), (''key'', EStr ''org_id''), (''type'', EStr ''uuid''),
         (''strict'', EWord ''true'')]) # fs) AtKey # r)"
  by (simp add: block_tokens_def config_lines del: One_nat_def)

lemma run_auth:
  "cfg_run (block_tokens
       [(1, ''auth: {''),
        (2, lit ''provider: ~internal~,''),
        (2, lit ''jwtSecret: process.env[~JWT_SECRET~] ?? ~dev-only-secret-change-me~''),
        (1, ''},'')]) (FObj fs AtKey # r) =
   Some (FObj ((''auth'', EObj [(''provider'', EStr ''internal''),
         (''jwtSecret'', EEnv ''JWT_SECRET'' ''dev-only-secret-change-me'')]) # fs) AtKey # r)"
  by (simp add: block_tokens_def config_lines del: One_nat_def)

lemma run_finance:
  "cfg_run (block_tokens
       [(1, ''finance: {''),
        (2, lit ''baseCurrency: ~USD~,''),
        (2, lit ''rounding: ~bankers~''),
        (1, ''},'')]) (FObj fs AtKey # r) =
   Some (FObj ((''finance'', EObj [(''baseCurrency'', EStr ''USD''), (''rounding'', EStr ''bankers'')]) # fs) AtKey # r)"
  by (simp add: block_tokens_def config_lines del: One_nat_def)

lemma run_commerce:
  "cfg_run (block_tokens
       [(1, ''commerce: {''),
        (2, lit ''ledger: { mode: ~atomic~ },''),
        (2, lit ''invoicing: ~auto~,''),
        (2, lit ''webhookDedup: { provider: ~memory~, ttlHours: 24 }''),
        (1, ''},'')]) (FObj fs AtKey # r) =
   Some (FObj ((''commerce'', EObj [(''ledger'', EObj [(''mode'', EStr ''atomic'')]), (''invoicing'', EStr ''auto''),
         (''webhookDedup'', EObj [(''provider'', EStr ''memory''), (''ttlHours'', EWord ''24'')])]) # fs) AtKey # r)"
  by (simp add: block_tokens_def config_lines del: One_nat_def)

lemma run_environment:
  "cfg_run (block_tokens
     [(1, ''environment: {''),
      (2, ''trace: true,''),
      (2, lit ''logLevel: ~info~''),
      (1, ''}'')]) (FObj fs AtKey # r) =
   Some (FObj ((''environment'', EObj [(''trace'', EWord ''true''), (''logLevel'', EStr ''info'')]) # fs) AtComma # r)"
  by (simp add: block_tokens_def config_lines del: One_nat_def)

lemma run_open: "cfg_run ([TSym CHR ''{''] @ ts) [FTop None] = cfg_run ts [FObj [] AtKey, FTop None]"
  by simp

lemma run_close: "cfg_run [TSym CHR ''}''] [FObj fs AtComma, FTop None] = Some [FTop (Some (EObj (rev fs)))]"
  by simp

lemma config_tokens_parse:
  assumes "\<forall>m \<in> set (ro_modules options). quote_char \<notin> set m"
  shows "cfg_parse ([TSym CHR ''{''] @ block_tokens (config_blocks options) @ [TSym CHR ''}'']) =
    Some (EObj (config_expr options))"
proof -
  have "cfg_run ([TSym CHR ''{''] @ block_tokens (config_blocks options) @ [TSym CHR ''}'']) [FTop None] =
      Some [FTop (Some (EObj (config_expr options)))]"
    unfolding config_blocks_def block_tokens_append append_assoc
    by (cases "has options ''identity''"; cases "has options ''finance''"; cases "has options ''commerce''";
      simp only: run_open run_close if_True if_False append_Nil run_bind[OF run_modules[OF assms]]
       run_bind[OF run_tenancy] run_bind[OF run_auth] run_bind[OF run_finance] run_bind[OF run_commerce]
       run_bind[OF run_environment]; simp add: config_expr_def)
  then show ?thesis by (simp add: cfg_parse_def)
qed

lemma read_config_source:
  assumes "CHR 0x0A \<notin> set name" "set (ro_modules options) \<subseteq> set MODULE_NAMES"
  shows "read_config env (buildConfigSource name options) = cfg_eval env (EObj (config_expr options))"
proof -
  have "\<forall>m \<in> set (ro_modules options). CHR 0x0A \<notin> set m \<and> quote_char \<notin> set m"
    using assms(2) by (fastforce simp: MODULE_NAMES_def)
  then show ?thesis
    using config_body_lines[OF assms(1)] config_tokens_parse[of options]
    by (simp add: read_config_def block_tokens_def comp_def)
qed

section \<open>Validation\<close>

definition config_value :: "(string \<Rightarrow> string option) \<Rightarrow> resolved_options \<Rightarrow> json" where
  "config_value env options = JObj (
     [(''modules'', JArr (map JStr (ro_modules options))),
      (''tenancy'', JObj [(''strategy'', JStr ''column''), (''key'', JStr ''org_id''), (''type'', JStr ''uuid''),
         (''strict'', JBool True)])] @
     (if has options ''identity'' then [(''auth'', JObj [(''provider'', JStr ''internal''),
         (''jwtSecret'', JStr (coalesce (env ''JWT_SECRET'') ''dev-only-secret-change-me''))])] else []) @
     (if has options ''finance'' then [(''finance'', JObj [(''baseCurrency'', JStr ''USD''),
         (''rounding'', JStr ''bankers'')])] else []) @
     (if has options ''commerce'' then [(''commerce'', JObj [(''ledger'', JObj [(''mode'', JStr ''atomic'')]),
         (''invoicing'', JStr ''auto''),
         (''webhookDedup'', JObj [(''provider'', JStr ''memory''), (''ttlHours'', JNum 24)])])] else []) @
     [(''environment'', JObj [(''trace'', JBool True), (''logLevel'', JStr ''info'')])])"

lemma those_map_Some: "(\<And>x. x \<in> set xs \<Longrightarrow> f x = Some (g x)) \<Longrightarrow> those (map f xs) = Some (map g xs)"
  by (induction xs) auto

lemma word_values: "word_value ''true'' = Some (JBool True)" "word_value ''24'' = Some (JNum 24)"
  by code_simp+

lemma eval_config: "cfg_eval env (EObj (config_expr options)) = Some (config_value env options)"
proof -
  have "those (map (cfg_eval env) (map EStr ms)) = Some (map JStr ms)" for ms
    using those_map_Some[of ms "\<lambda>m. cfg_eval env (EStr m)" JStr] by (simp add: comp_def)
  then show ?thesis
    by (cases "has options ''identity''"; cases "has options ''finance''"; cases "has options ''commerce''";
      simp add: config_expr_def config_value_def word_values)
qed


definition accepted_value :: "(string \<Rightarrow> string option) \<Rightarrow> resolved_options \<Rightarrow> json" where
  "accepted_value env options = JObj (
     [(''modules'', JArr (map JStr (ro_modules options))),
      (''tenancy'', JObj [(''strategy'', JStr ''column''), (''key'', JStr ''org_id''), (''type'', JStr ''uuid''),
         (''strict'', JBool True)])] @
     (if has options ''identity'' then [(''auth'', JObj [(''provider'', JStr ''internal''),
         (''jwtSecret'', JStr (coalesce (env ''JWT_SECRET'') ''dev-only-secret-change-me'')),
         (''algorithm'', JStr ''HS256''), (''tokenExpiry'', JStr ''24h''), (''refreshTokenExpiry'', JStr ''30d'')])] else []) @
     (if has options ''finance'' then [(''finance'', JObj [(''baseCurrency'', JStr ''USD''),
         (''rounding'', JStr ''bankers'')])] else []) @
     (if has options ''commerce'' then [(''commerce'', JObj [(''ledger'', JObj [(''mode'', JStr ''atomic'')]),
         (''invoicing'', JStr ''auto''),
         (''webhookDedup'', JObj [(''provider'', JStr ''memory''), (''ttlHours'', JNum 24)])])] else []) @
     [(''environment'', JObj [(''dryRun'', JBool False), (''trace'', JBool True), (''logLevel'', JStr ''info'')])])"

lemma upper_usd: "to_upper ''USD'' = ''USD''"
  by code_simp

lemma parse_modules:
  assumes "set ms \<subseteq> set MODULE_NAMES"
  shows "ref_parse (ZArr (ZEnum [''commerce'', ''finance'', ''identity'', ''legal'', ''db'', ''inventory'', ''logistics'']))
    (Some (JArr (map JStr ms))) = Some (Some (JArr (map JStr ms)))"
proof -
  let ?vs = "[''commerce'', ''finance'', ''identity'', ''legal'', ''db'', ''inventory'', ''logistics'']"
  have "set MODULE_NAMES \<subseteq> set ?vs" by (simp add: MODULE_NAMES_def)
  with assms have m: "m \<in> set ?vs" if "m \<in> set ms" for m using that by blast
  have "those (map (\<lambda>x. Option.bind (ref_parse (ZEnum ?vs) (Some x)) (\<lambda>y. y)) (map JStr ms)) =
      Some (map (\<lambda>x. x) (map JStr ms))"
  proof (rule those_map_Some)
    fix x
    assume "x \<in> set (map JStr ms)"
    then obtain n where n: "x = JStr n" "n \<in> set ms" by auto
    from m[OF n(2)] show "Option.bind (ref_parse (ZEnum ?vs) (Some x)) (\<lambda>y. y) = Some x"
      by (simp only: n(1) ref_parse.simps option.case json.case if_True Option.bind.simps)
  qed
  then show ?thesis by (simp only: ref_parse.simps option.case json.case option.map map_ident)
qed

lemma sections_parsed:
  "ref_parse TenancySchema (Some (JObj [(''strategy'', JStr ''column''), (''key'', JStr ''org_id''), (''type'', JStr ''uuid''),
     (''strict'', JBool True)])) = Some (Some (JObj [(''strategy'', JStr ''column''), (''key'', JStr ''org_id''),
     (''type'', JStr ''uuid''), (''strict'', JBool True)]))"
  "ref_parse FinanceSchema (Some (JObj [(''baseCurrency'', JStr ''USD''), (''rounding'', JStr ''bankers'')])) =
     Some (Some (JObj [(''baseCurrency'', JStr ''USD''), (''rounding'', JStr ''bankers'')]))"
  "ref_parse CommerceSchema (Some (JObj [(''ledger'', JObj [(''mode'', JStr ''atomic'')]), (''invoicing'', JStr ''auto''),
      (''webhookDedup'', JObj [(''provider'', JStr ''memory''), (''ttlHours'', JNum 24)])])) =
     Some (Some (JObj [(''ledger'', JObj [(''mode'', JStr ''atomic'')]), (''invoicing'', JStr ''auto''),
      (''webhookDedup'', JObj [(''provider'', JStr ''memory''), (''ttlHours'', JNum 24)])]))"
  "ref_parse EnvironmentSchema (Some (JObj [(''trace'', JBool True), (''logLevel'', JStr ''info'')])) =
     Some (Some (JObj [(''dryRun'', JBool False), (''trace'', JBool True), (''logLevel'', JStr ''info'')]))"
  by code_simp+

lemma auth_parsed:
  "ref_parse AuthSchema (Some (JObj [(''provider'', JStr ''internal''), (''jwtSecret'', JStr s)])) =
     Some (Some (JObj [(''provider'', JStr ''internal''), (''jwtSecret'', JStr s), (''algorithm'', JStr ''HS256''),
       (''tokenExpiry'', JStr ''24h''), (''refreshTokenExpiry'', JStr ''30d'')]))"
  by (simp add: AuthSchema_def)

lemma optional_absent: "ref_parse (ZOptional s) None = Some None"
  by simp

lemma optional_if: "ref_parse s (Some v) = Some (Some v') \<Longrightarrow>
    ref_parse (ZOptional s) (if b then Some v else None) = Some (if b then Some v' else None)"
  by simp

lemma optional_Some: "ref_parse s (Some v) = r \<Longrightarrow> ref_parse (ZOptional s) (Some v) = r"
  by simp

lemma config_value_parsed:
  assumes "set (ro_modules options) \<subseteq> set MODULE_NAMES"
  shows "ref_parse (IntellibizConfigSchema is_url) (Some (config_value env options)) =
    Some (Some (accepted_value env options))"
proof -
  obtain fs where fs: "config_value env options = JObj fs" by (simp add: config_value_def)
  note d = config_value_def[of env options, unfolded fs json.inject]
  have get: "jm_get fs ''modules'' = Some (JArr (map JStr (ro_modules options)))"
    "jm_get fs ''tenancy'' = Some (JObj [(''strategy'', JStr ''column''), (''key'', JStr ''org_id''),
       (''type'', JStr ''uuid''), (''strict'', JBool True)])"
    "jm_get fs ''auth'' = (if has options ''identity'' then Some (JObj [(''provider'', JStr ''internal''),
       (''jwtSecret'', JStr (coalesce (env ''JWT_SECRET'') ''dev-only-secret-change-me''))]) else None)"
    "jm_get fs ''finance'' = (if has options ''finance'' then Some (JObj [(''baseCurrency'', JStr ''USD''),
       (''rounding'', JStr ''bankers'')]) else None)"
    "jm_get fs ''commerce'' = (if has options ''commerce'' then Some (JObj [(''ledger'', JObj [(''mode'', JStr ''atomic'')]),
       (''invoicing'', JStr ''auto''),
       (''webhookDedup'', JObj [(''provider'', JStr ''memory''), (''ttlHours'', JNum 24)])]) else None)"
    "jm_get fs ''environment'' = Some (JObj [(''trace'', JBool True), (''logLevel'', JStr ''info'')])"
    "jm_get fs ''ledger'' = None" "jm_get fs ''governance'' = None" "jm_get fs ''database'' = None"
    "jm_get fs ''inventory'' = None" "jm_get fs ''eventBus'' = None" "jm_get fs ''taxation'' = None"
    "jm_get fs ''plugins'' = None" "jm_get fs ''overrides'' = None"
    by (simp_all add: d)
  have "ref_parse (IntellibizConfigSchema is_url) (Some (JObj fs)) = Some (Some (accepted_value env options))"
    unfolding IntellibizConfigSchema_def
    by (simp only: ref_parse.simps(7) ref_fields.simps get optional_absent option.case json.case option.map
      optional_Some[OF parse_modules[OF assms]] optional_Some[OF sections_parsed(1)] optional_if[OF auth_parsed]
      optional_if[OF sections_parsed(2)] optional_if[OF sections_parsed(3)] optional_Some[OF sections_parsed(4)])
      (simp add: accepted_value_def)
  then show ?thesis by (simp add: fs)
qed
lemma accepted_rules:
  "list_all (\<lambda>rule. \<not> dr_isViolated rule node_env (accepted_value env options)) DEPENDENCY_RULES \<longleftrightarrow>
    (has options ''commerce'' \<longrightarrow> has options ''finance'') \<and> (has options ''identity'' \<longrightarrow> env ''JWT_SECRET'' \<noteq> Some [])"
  unfolding DEPENDENCY_RULES_def accepted_value_def
  by (cases "has options ''identity''"; cases "has options ''finance''"; cases "has options ''commerce''";
    simp add: cfg_get_def cfg_truthy_def coalesce_def split: option.splits)



end
