(* ===== verification/Plugins.thy ===== *)
theory Plugins
  imports Errors JsNumber
begin

text \<open>
  The plugin system (packages/core/src/define-plugin.ts, packages/core/src/plugin/registry.ts): the
  definition, the container, circular-dependency detection and loading. Service factories are the
  plugins' own code: functions of the sandboxed view that return an instance or throw.
\<close>

section \<open>Definitions\<close>

record 'v plugin =
  pl_name :: string
  pl_version :: string
  pl_description :: "string option"
  pl_dependencies :: "string list option"
  pl_services :: "(string, (string, 'v) jsmap \<Rightarrow> 'v result) jsmap option"

text \<open>A frozen copy with the properties that are present.\<close>

definition definePlugin :: "'v plugin \<Rightarrow> 'v plugin" where
  "definePlugin definition =
     \<lparr>pl_name = pl_name definition, pl_version = pl_version definition,
      pl_description = pl_description definition, pl_dependencies = pl_dependencies definition,
      pl_services = map_option (jm_spread []) (pl_services definition)\<rparr>"

definition plugin_deps :: "'v plugin \<Rightarrow> string list" where
  "plugin_deps p = (case pl_dependencies p of Some ds \<Rightarrow> ds | None \<Rightarrow> [])"

section \<open>The container\<close>

type_synonym 'v container = "(string, 'v) jsmap"

definition quoted :: "string \<Rightarrow> string" where
  "quoted s = [quote_char] @ s @ [quote_char]"

definition di_register :: "string \<Rightarrow> 'v \<Rightarrow> 'v container \<Rightarrow> 'v container result" where
  "di_register key v c =
     (if jm_has c key
      then Inl (Err (plain_error ''Error''
             (''DIContainer: service '' @ quoted key @ '' is already registered. Use a unique key.'')))
      else Inr (jm_set key v c))"

definition di_get :: "string \<Rightarrow> 'v container \<Rightarrow> 'v result" where
  "di_get key c =
     (case jm_get c key of
        None \<Rightarrow> Inl (Err (plain_error ''Error''
          (''DIContainer: service '' @ quoted key @ '' is not registered. Declare it in your plugin'' @
           [quote_char] @ ''s '' @ quoted ''dependencies'' @ '' array.'')))
      | Some v \<Rightarrow> Inr v)"

definition di_has :: "string \<Rightarrow> 'v container \<Rightarrow> bool" where
  "di_has key c = jm_has c key"

definition sandboxedView :: "string list \<Rightarrow> 'v container \<Rightarrow> (string, 'v) jsmap" where
  "sandboxedView allowed c =
     foldl (\<lambda>view key. case jm_get c key of Some v \<Rightarrow> jm_set key v view | None \<Rightarrow> view) [] allowed"

section \<open>Circular dependencies\<close>

definition dep_map :: "'v plugin list \<Rightarrow> (string, string list) jsmap" where
  "dep_map plugins = foldl (\<lambda>m p. jm_set (pl_name p) (plugin_deps p) m) [] plugins"

definition deps_of :: "(string, string list) jsmap \<Rightarrow> string \<Rightarrow> string list" where
  "deps_of m name = (case jm_get m name of Some ds \<Rightarrow> ds | None \<Rightarrow> [])"

text \<open>The recursion is bounded by fuel for the depth; \<open>None\<close> is running out of it. A result is the
  cycle found or the set of visited names.\<close>

fun dfs :: "(string, string list) jsmap \<Rightarrow> nat \<Rightarrow> string \<Rightarrow> string list \<Rightarrow> string list
      \<Rightarrow> (string list + string list) option"
and dfs_deps :: "(string, string list) jsmap \<Rightarrow> nat \<Rightarrow> string list \<Rightarrow> string list \<Rightarrow> string list
      \<Rightarrow> (string list + string list) option" where
  "dfs m 0 name path visited = None"
| "dfs m (Suc fuel) name path visited =
     (if name \<in> set path then Some (Inl (dropWhile (\<lambda>x. x \<noteq> name) path @ [name]))
      else if name \<in> set visited then Some (Inr visited)
      else dfs_deps m fuel (deps_of m name) (path @ [name]) (name # visited))"
| "dfs_deps m fuel [] path visited = Some (Inr visited)"
| "dfs_deps m fuel (d # ds) path visited =
     (case dfs m fuel d path visited of
        Some (Inr visited') \<Rightarrow> dfs_deps m fuel ds path visited'
      | r \<Rightarrow> r)"

text \<open>A depth of one more than the number of names suffices: a path never repeats a name.\<close>

definition all_names :: "(string, string list) jsmap \<Rightarrow> string list" where
  "all_names m = remdups (jm_keys m @ concat (map snd m))"

definition dfs_fuel :: "(string, string list) jsmap \<Rightarrow> nat" where
  "dfs_fuel m = length (all_names m) + 1"

fun detect_from :: "(string, string list) jsmap \<Rightarrow> string list \<Rightarrow> string list option" where
  "detect_from m [] = None"
| "detect_from m (name # names) =
     (case dfs m (dfs_fuel m) name [] [] of
        Some (Inl cycle) \<Rightarrow> Some cycle
      | _ \<Rightarrow> detect_from m names)"

definition detectCircular :: "'v plugin list \<Rightarrow> unit result" where
  "detectCircular plugins =
     (case detect_from (dep_map plugins) (map pl_name plugins) of
        Some cycle \<Rightarrow> Inl (Err (PluginCircularDependencyError cycle))
      | None \<Rightarrow> Inr ())"

section \<open>Loading\<close>

record 'v registry =
  rg_container :: "'v container"
  rg_loaded :: "string list"

text \<open>\<open>String(err)\<close> of a thrown value.\<close>

fun js_string :: "json \<Rightarrow> string" where
  "js_string JNull = ''null''"
| "js_string (JBool b) = (if b then ''true'' else ''false'')"
| "js_string (JNum r) = number_to_string (Fin r)"
| "js_string (JStr s) = s"
| "js_string (JArr js) = join '','' (map (\<lambda>j. if j = JNull then [] else js_string j) js)"
| "js_string (JObj fs) = ''[object Object]''"

fun thrown_message :: "thrown \<Rightarrow> string" where
  "thrown_message (Err e) = err_message e"
| "thrown_message (ThrownValue j) = js_string j"

text \<open>The services of one plugin: what was registered before a failure stays registered.\<close>

fun register_services :: "string \<Rightarrow> (string, 'v) jsmap \<Rightarrow> (string, (string, 'v) jsmap \<Rightarrow> 'v result) jsmap
      \<Rightarrow> 'v container \<Rightarrow> unit result \<times> 'v container" where
  "register_services pname deps [] c = (Inr (), c)"
| "register_services pname deps ((sname, factory) # rest) c =
     (let failed = (\<lambda>err. Inl (Err (PluginLoadError pname
            (''service factory '' @ quoted sname @ '' threw: '' @ thrown_message err))))
      in case factory deps of
           Inl err \<Rightarrow> (failed err, c)
         | Inr inst \<Rightarrow>
             (case di_register (pname @ ''.'' @ sname) inst c of
                Inl err \<Rightarrow> (failed err, c)
              | Inr c' \<Rightarrow>
                  register_services pname deps rest (if jm_has c' sname then c' else jm_set sname inst c')))"

definition load_plugin :: "'v plugin \<Rightarrow> 'v registry \<Rightarrow> unit result \<times> 'v registry" where
  "load_plugin p r =
     (if pl_name p \<in> set (rg_loaded r) then (Inr (), r)
      else case find (\<lambda>dep. \<not> jm_has (rg_container r) dep) (plugin_deps p) of
        Some dep \<Rightarrow> (Inl (Err (PluginLoadError (pl_name p)
          (''required dependency '' @ quoted dep @ '' is not registered. Check that the plugin providing '' @
           quoted dep @ '' is loaded first.''))), r)
      | None \<Rightarrow>
          (let deps = sandboxedView (plugin_deps p) (rg_container r);
               services = (case pl_services p of Some s \<Rightarrow> s | None \<Rightarrow> [])
           in case register_services (pl_name p) deps services (rg_container r) of
                (Inl e, c) \<Rightarrow> (Inl e, r\<lparr>rg_container := c\<rparr>)
              | (Inr _, c) \<Rightarrow> (Inr (), r\<lparr>rg_container := c, rg_loaded := rg_loaded r @ [pl_name p]\<rparr>)))"

fun load_each :: "'v plugin list \<Rightarrow> 'v registry \<Rightarrow> unit result \<times> 'v registry" where
  "load_each [] r = (Inr (), r)"
| "load_each (p # ps) r =
     (case load_plugin p r of (Inl e, r') \<Rightarrow> (Inl e, r') | (Inr _, r') \<Rightarrow> load_each ps r')"

definition loadAll :: "'v plugin list \<Rightarrow> 'v registry \<Rightarrow> unit result \<times> 'v registry" where
  "loadAll plugins r =
     (case detectCircular plugins of Inl e \<Rightarrow> (Inl e, r) | Inr _ \<Rightarrow> load_each plugins r)"

definition empty_registry :: "'v registry" where
  "empty_registry = \<lparr>rg_container = [], rg_loaded = []\<rparr>"

section \<open>Detection is correct\<close>

definition depends :: "(string, string list) jsmap \<Rightarrow> (string \<times> string) set" where
  "depends m = {(n, d). d \<in> set (deps_of m n)}"

text \<open>A name is safe when everything it depends on is.\<close>

inductive safe :: "(string, string list) jsmap \<Rightarrow> string \<Rightarrow> bool" for m where
  "(\<And>d. d \<in> set (deps_of m n) \<Longrightarrow> safe m d) \<Longrightarrow> safe m n"

lemma safe_no_cycle: "safe m n \<Longrightarrow> (n, n) \<notin> (depends m)\<^sup>+"
proof (induction rule: safe.induct)
  case (1 n)
  show ?case
  proof
    assume "(n, n) \<in> (depends m)\<^sup>+"
    then obtain d where "(n, d) \<in> depends m" "(d, n) \<in> (depends m)\<^sup>*" by (meson tranclD)
    then have "d \<in> set (deps_of m n)" "(d, d) \<in> (depends m)\<^sup>+"
      by (auto simp: depends_def rtrancl_into_trancl1)
    with 1 show False by blast
  qed
qed

lemma dfs_safe:
  "dfs m fuel name path visited = Some (Inr v) \<Longrightarrow> \<forall>x \<in> set visited. x \<in> set path \<or> safe m x \<Longrightarrow>
     safe m name \<and> (\<forall>x \<in> set v. x \<in> set path \<or> safe m x)"
  "dfs_deps m fuel ds path visited = Some (Inr v) \<Longrightarrow> \<forall>x \<in> set visited. x \<in> set path \<or> safe m x \<Longrightarrow>
     (\<forall>d \<in> set ds. safe m d) \<and> (\<forall>x \<in> set v. x \<in> set path \<or> safe m x)"
proof (induction m fuel name path visited and m fuel ds path visited arbitrary: v and v rule: dfs_dfs_deps.induct)
  case (2 m fuel name path visited)
  show ?case
  proof (cases "name \<in> set visited")
    case True
    with 2(2,3) show ?thesis by (auto split: if_splits)
  next
    case False
    with 2(2) have np: "name \<notin> set path"
      and rec: "dfs_deps m fuel (deps_of m name) (path @ [name]) (name # visited) = Some (Inr v)"
      by (auto split: if_splits)
    have "\<forall>x \<in> set (name # visited). x \<in> set (path @ [name]) \<or> safe m x" using 2(3) by auto
    from 2(1)[OF np False rec this] have "\<forall>d \<in> set (deps_of m name). safe m d"
      and v: "\<forall>x \<in> set v. x \<in> set (path @ [name]) \<or> safe m x" by auto
    then have "safe m name" by (auto intro: safe.intros)
    with v show ?thesis by auto
  qed
next
  case (4 m fuel d ds path visited)
  then show ?case by (auto split: option.splits sum.splits)
qed auto

text \<open>A reported cycle is one.\<close>

abbreviation dep_path :: "(string, string list) jsmap \<Rightarrow> string list \<Rightarrow> bool" where
  "dep_path m xs \<equiv> successively (\<lambda>a b. (a, b) \<in> depends m) xs"

definition is_cycle :: "(string, string list) jsmap \<Rightarrow> string list \<Rightarrow> bool" where
  "is_cycle m xs \<longleftrightarrow> 2 \<le> length xs \<and> hd xs = last xs \<and> dep_path m xs"

lemma dropWhile_cycle:
  assumes "name \<in> set path" "dep_path m (path @ [name])"
  shows "is_cycle m (dropWhile (\<lambda>x. x \<noteq> name) path @ [name])"
proof -
  obtain ys zs where p: "path = ys @ name # zs" "name \<notin> set ys"
    using split_list_first[OF assms(1)] by blast
  have "dropWhile (\<lambda>x. x \<noteq> name) (ys @ name # zs) = name # zs"
    using p(2) by (induction ys) auto
  then have "dropWhile (\<lambda>x. x \<noteq> name) path = name # zs" by (simp add: p(1))
  moreover have "dep_path m ((name # zs) @ [name])"
    using assms(2) unfolding p(1) append_assoc successively_append_iff[of _ ys] by simp
  ultimately show ?thesis by (simp add: is_cycle_def)
qed

lemma dfs_cycle:
  "dfs m fuel name path visited = Some (Inl c) \<Longrightarrow> dep_path m (path @ [name]) \<Longrightarrow> is_cycle m c"
  "dfs_deps m fuel ds path visited = Some (Inl c) \<Longrightarrow> \<forall>d \<in> set ds. dep_path m (path @ [d]) \<Longrightarrow> is_cycle m c"
proof (induction m fuel name path visited and m fuel ds path visited arbitrary: c and c rule: dfs_dfs_deps.induct)
  case (2 m fuel name path visited)
  show ?case
  proof (cases "name \<in> set path")
    case True
    with 2(2,3) dropWhile_cycle show ?thesis by auto
  next
    case False
    with 2(2) have "name \<notin> set visited"
      and "dfs_deps m fuel (deps_of m name) (path @ [name]) (name # visited) = Some (Inl c)"
      by (auto split: if_splits)
    moreover have "\<forall>d \<in> set (deps_of m name). dep_path m ((path @ [name]) @ [d])"
      using 2(3) by (auto simp: successively_append_iff depends_def)
    ultimately show ?thesis using 2(1) False by blast
  qed
next
  case (4 m fuel d ds path visited)
  then show ?case by (auto split: option.splits sum.splits)
qed auto

text \<open>The fuel suffices.\<close>

lemma jm_get_in: "jm_get m k = Some v \<Longrightarrow> (k, v) \<in> set m"
  by (induction m) (auto split: if_splits)

lemma deps_of_names:
  assumes "d \<in> set (deps_of m n)"
  shows "d \<in> set (all_names m) \<and> n \<in> set (jm_keys m)"
proof -
  obtain ds where "jm_get m n = Some ds" "d \<in> set ds"
    using assms by (cases "jm_get m n") (auto simp: deps_of_def)
  then have "(n, ds) \<in> set m" "d \<in> set ds" by (auto dest: jm_get_in)
  then show ?thesis by (force simp: all_names_def jm_keys_def)
qed

lemma dfs_enough:
  "distinct path \<Longrightarrow> set path \<subseteq> set (all_names m) \<Longrightarrow> name \<in> set (all_names m) \<Longrightarrow>
     length (all_names m) < length path + fuel \<Longrightarrow> dfs m fuel name path visited \<noteq> None"
  "distinct path \<Longrightarrow> set path \<subseteq> set (all_names m) \<Longrightarrow> set ds \<subseteq> set (all_names m) \<Longrightarrow>
     length (all_names m) < length path + fuel \<Longrightarrow> dfs_deps m fuel ds path visited \<noteq> None"
proof (induction m fuel name path visited and m fuel ds path visited rule: dfs_dfs_deps.induct)
  case (1 m name path visited)
  have "length path \<le> length (all_names m)"
    using card_mono[OF _ 1(2)] distinct_card[OF 1(1)] distinct_card[of "all_names m"]
    by (simp add: all_names_def)
  with 1(4) show ?case by simp
next
  case (2 m fuel name path visited)
  show ?case
  proof (cases "name \<in> set path \<or> name \<in> set visited")
    case False
    then have "dfs_deps m fuel (deps_of m name) (path @ [name]) (name # visited) \<noteq> None"
      using 2(2-5) deps_of_names by (intro 2(1)) auto
    with False show ?thesis by simp
  qed auto
next
  case (4 m fuel d ds path visited)
  have "dfs m fuel d path visited \<noteq> None" using 4(3-6) by (intro 4(1)) auto
  with 4(2)[OF _ _ 4(3,4) _ 4(6)] 4(5) show ?case by (auto split: option.splits sum.splits)
qed auto

lemma dfs_top:
  assumes "name \<in> set (all_names m)"
  obtains c where "dfs m (dfs_fuel m) name [] [] = Some (Inl c)" "is_cycle m c"
  | v where "dfs m (dfs_fuel m) name [] [] = Some (Inr v)" "safe m name"
proof -
  have "dfs m (dfs_fuel m) name [] [] \<noteq> None"
    using assms by (intro dfs_enough(1)) (auto simp: dfs_fuel_def)
  then obtain r where r: "dfs m (dfs_fuel m) name [] [] = Some r" by auto
  with dfs_cycle(1)[of m "dfs_fuel m" name "[]" "[]"] dfs_safe(1)[of m "dfs_fuel m" name "[]" "[]"] that
  show ?thesis by (cases r) auto
qed

lemma detect_from_correct:
  "set names \<subseteq> set (all_names m) \<Longrightarrow>
   (case detect_from m names of Some c \<Rightarrow> is_cycle m c | None \<Rightarrow> \<forall>n \<in> set names. safe m n)"
proof (induction names)
  case (Cons n names)
  then have n: "n \<in> set (all_names m)" by simp
  show ?case
    by (rule dfs_top[OF n]) (use Cons in \<open>auto split: option.splits\<close>)
qed simp

lemma dep_map_keys: "set (jm_keys (dep_map ps)) = pl_name ` set ps"
proof -
  have "set (jm_keys (foldl (\<lambda>m p. jm_set (pl_name p) (plugin_deps p) m) m ps)) = set (jm_keys m) \<union> pl_name ` set ps" for m
    by (induction ps arbitrary: m) (auto simp: jm_keys_set)
  then show ?thesis by (simp add: dep_map_def jm_keys_def)
qed

lemma cycle_trancl: "is_cycle m c \<Longrightarrow> (hd c, hd c) \<in> (depends m)\<^sup>+"
proof -
  have "dep_path m xs \<Longrightarrow> 2 \<le> length xs \<Longrightarrow> (hd xs, last xs) \<in> (depends m)\<^sup>+" for xs
  proof (induction xs)
    case (Cons x xs)
    then show ?case by (cases xs; cases "tl xs") (auto intro: trancl_into_trancl2)
  qed simp
  then show "is_cycle m c \<Longrightarrow> (hd c, hd c) \<in> (depends m)\<^sup>+" by (fastforce simp: is_cycle_def)
qed

section \<open>What loading provides\<close>

text \<open>The view a factory gets holds exactly the declared services that are registered.\<close>

lemma sandboxedView_get: "jm_get (sandboxedView allowed c) k = (if k \<in> set allowed then jm_get c k else None)"
proof -
  have "jm_get (foldl (\<lambda>view key. case jm_get c key of Some v \<Rightarrow> jm_set key v view | None \<Rightarrow> view) view allowed) k
      = (if k \<in> set allowed \<and> jm_get c k \<noteq> None then jm_get c k else jm_get view k)" for view
    by (induction allowed arbitrary: view) (auto split: option.splits)
  then show ?thesis by (auto simp: sandboxedView_def)
qed

text \<open>The keys a plugin contributes: each service under its namespaced and its plain name.\<close>

definition provided :: "'v plugin \<Rightarrow> string set" where
  "provided p = (case pl_services p of None \<Rightarrow> {}
     | Some ss \<Rightarrow> set (jm_keys ss) \<union> (\<lambda>s. pl_name p @ ''.'' @ s) ` set (jm_keys ss))"

lemma jm_keys_Nil [simp]: "jm_keys [] = []"
  by (simp add: jm_keys_def)

lemma register_services_keys:
  "register_services pname deps ss c = (Inr (), c') \<Longrightarrow>
   set (jm_keys c') = set (jm_keys c) \<union> set (jm_keys ss) \<union> (\<lambda>s. pname @ ''.'' @ s) ` set (jm_keys ss)"
proof (induction ss arbitrary: c)
  case (Cons sf ss)
  obtain sname factory where sf: "sf = (sname, factory)" by (cases sf)
  obtain inst where inst: "factory deps = Inr inst" using Cons.prems by (cases "factory deps") (auto simp: sf)
  obtain c1 where c1: "di_register (pname @ ''.'' @ sname) inst c = Inr c1"
    using Cons.prems inst by (cases "di_register (pname @ ''.'' @ sname) inst c") (auto simp: sf)
  let ?c2 = "if jm_has c1 sname then c1 else jm_set sname inst c1"
  have "set (jm_keys c1) = insert (pname @ ''.'' @ sname) (set (jm_keys c))"
    using c1 by (auto simp: di_register_def jm_keys_set split: if_splits)
  then have c2: "set (jm_keys ?c2) = insert sname (insert (pname @ ''.'' @ sname) (set (jm_keys c)))"
    by (auto simp: jm_has_iff jm_keys_set)
  have rec: "register_services pname deps ss ?c2 = (Inr (), c')" using Cons.prems inst c1 by (simp add: sf)
  have keys: "set (jm_keys (sf # ss)) = insert sname (set (jm_keys ss))" by (simp add: sf jm_keys_def)
  show ?case unfolding Cons.IH[OF rec] c2 keys by auto
qed (simp add: jm_keys_def)

lemma load_plugin_success:
  assumes "load_plugin p r = (Inr (), r')"
  shows "(pl_name p \<in> set (rg_loaded r) \<and> r' = r) \<or>
    (pl_name p \<notin> set (rg_loaded r) \<and> rg_loaded r' = rg_loaded r @ [pl_name p] \<and>
     set (plugin_deps p) \<subseteq> set (jm_keys (rg_container r)) \<and>
     set (jm_keys (rg_container r')) = set (jm_keys (rg_container r)) \<union> provided p)"
  using assms
  by (auto simp: load_plugin_def provided_def Let_def find_None_iff jm_has_iff
      dest!: register_services_keys split: if_splits option.splits sum.splits prod.splits)

text \<open>The names in order of first occurrence.\<close>

definition first_names :: "'v plugin list \<Rightarrow> string list" where
  "first_names ps = rev (remdups (rev (map pl_name ps)))"

lemma first_names_snoc:
  "first_names (ps @ [p]) = (if pl_name p \<in> pl_name ` set ps then first_names ps else first_names ps @ [pl_name p])"
  by (simp add: first_names_def)

lemma load_each_snoc:
  "load_each (ps @ [p]) r = (case load_each ps r of (Inl e, r') \<Rightarrow> (Inl e, r') | (Inr _, r') \<Rightarrow> load_plugin p r')"
  by (induction ps arbitrary: r) (auto split: prod.splits sum.splits)

definition well_ordered :: "'v plugin list \<Rightarrow> bool" where
  "well_ordered ps \<longleftrightarrow> (\<forall>pre p post. ps = pre @ p # post \<longrightarrow> pl_name p \<notin> pl_name ` set pre \<longrightarrow>
     (\<forall>dep \<in> set (plugin_deps p). \<exists>q \<in> set pre. dep \<in> provided q))"

lemma load_each_ordered:
  "load_each ps empty_registry = (Inr (), r) \<Longrightarrow>
   rg_loaded r = first_names ps \<and> set (jm_keys (rg_container r)) \<subseteq> (\<Union>p \<in> set ps. provided p) \<and> well_ordered ps"
proof (induction ps arbitrary: r rule: rev_induct)
  case Nil
  then show ?case by (auto simp: empty_registry_def first_names_def well_ordered_def)
next
  case (snoc p ps)
  then obtain r0 where r0: "load_each ps empty_registry = (Inr (), r0)" "load_plugin p r0 = (Inr (), r)"
    by (auto simp: load_each_snoc split: prod.splits sum.splits)
  note ih = snoc.IH[OF r0(1)]
  have names: "set (rg_loaded r0) = pl_name ` set ps" using ih by (simp add: first_names_def)
  have ord: "well_ordered (ps @ [p])"
    unfolding well_ordered_def
  proof (intro allI impI ballI)
    fix pre q post dep
    assume a: "ps @ [p] = pre @ q # post" "pl_name q \<notin> pl_name ` set pre" "dep \<in> set (plugin_deps q)"
    show "\<exists>q' \<in> set pre. dep \<in> provided q'"
    proof (cases post rule: rev_cases)
      case Nil
      with a load_plugin_success[OF r0(2)] names ih show ?thesis by auto
    next
      case (snoc post' x)
      with a(1) have "ps = pre @ q # post'" by simp
      with a(2,3) ih show ?thesis unfolding well_ordered_def by blast
    qed
  qed
  from load_plugin_success[OF r0(2)] show ?case
    using ih names ord by (auto simp: first_names_snoc)
qed

section \<open>Properties\<close>

text \<open>C21: circular dependencies are detected exactly. Detection always finishes; it accepts the
  plugins if and only if no name depends on itself through any chain of dependencies, and when it
  refuses, the error names an actual cycle: each name depends on the next and the last is the
  first.\<close>

theorem detectCircular_correct:
  "(detectCircular plugins = Inr () \<longleftrightarrow> (\<forall>n. (n, n) \<notin> (depends (dep_map plugins))\<^sup>+)) \<and>
   (detectCircular plugins \<noteq> Inr () \<longrightarrow>
      (\<exists>c. detectCircular plugins = Inl (Err (PluginCircularDependencyError c)) \<and> is_cycle (dep_map plugins) c))"
proof -
  let ?m = "dep_map plugins"
  have sub: "set (map pl_name plugins) \<subseteq> set (all_names ?m)"
    by (auto simp: all_names_def simp flip: dep_map_keys)
  note correct = detect_from_correct[OF sub]
  show ?thesis
  proof (cases "detect_from ?m (map pl_name plugins)")
    case None
    have "(n, n) \<notin> (depends ?m)\<^sup>+" for n
    proof
      assume c: "(n, n) \<in> (depends ?m)\<^sup>+"
      then obtain d where "d \<in> set (deps_of ?m n)" by (auto simp: depends_def dest: tranclD)
      then have "n \<in> pl_name ` set plugins" using deps_of_names by (auto simp flip: dep_map_keys)
      with None correct have "safe ?m n" by auto
      with c show False using safe_no_cycle by blast
    qed
    with None show ?thesis by (simp add: detectCircular_def)
  next
    case (Some c)
    with correct have "is_cycle ?m c" by simp
    with Some cycle_trancl show ?thesis by (auto simp: detectCircular_def)
  qed
qed

text \<open>The witness: two plugins that depend on each other's names.\<close>

theorem detectCircular_correct_witness:
  "\<exists>c. detectCircular [\<lparr>pl_name = ''a'', pl_version = ''1'', pl_description = None,
        pl_dependencies = Some [''b''], pl_services = None :: (string, (string, nat) jsmap \<Rightarrow> nat result) jsmap option\<rparr>,
      \<lparr>pl_name = ''b'', pl_version = ''1'', pl_description = None, pl_dependencies = Some [''a''], pl_services = None\<rparr>]
     = Inl (Err (PluginCircularDependencyError c)) \<and> hd c = last c"
proof -
  let ?a = "\<lparr>pl_name = ''a'', pl_version = ''1'', pl_description = None, pl_dependencies = Some [''b''],
      pl_services = None :: (string, (string, nat) jsmap \<Rightarrow> nat result) jsmap option\<rparr>"
  let ?b = "\<lparr>pl_name = ''b'', pl_version = ''1'', pl_description = None, pl_dependencies = Some [''a''],
      pl_services = None :: (string, (string, nat) jsmap \<Rightarrow> nat result) jsmap option\<rparr>"
  have m: "dep_map [?a, ?b] = [(''a'', [''b'']), (''b'', [''a''])]"
    by (simp add: dep_map_def plugin_deps_def)
  have "(''a'', ''b'') \<in> depends (dep_map [?a, ?b])" "(''b'', ''a'') \<in> depends (dep_map [?a, ?b])"
    by (simp_all add: m depends_def deps_of_def)
  then have "(''a'', ''a'') \<in> (depends (dep_map [?a, ?b]))\<^sup>+" by (meson r_into_trancl' trancl_trans)
  with detectCircular_correct[of "[?a, ?b]"] have "detectCircular [?a, ?b] \<noteq> Inr ()" by blast
  with detectCircular_correct[of "[?a, ?b]"] show ?thesis by (auto simp: is_cycle_def)
qed



end
