(* ===== verification/Cli.thy ===== *)
theory Cli
  imports ScaffoldImports Plugins "HOL-Library.Sublist"
begin

text \<open>
  The commands that create a project: \<open>intellibiz init\<close> (packages/cli/src/commands/init.ts) and
  \<open>create-intellibiz\<close> (tools/create-intellibiz/src/bin.ts), with the writer of
  packages/cli/src/project.ts and the prompts of packages/cli/src/prompt.ts. The file system is a map
  from absolute paths, as lists of segments, to directories and files; the calls of \<open>node:fs\<close> that
  the code makes act on it, and a call that fails keeps what earlier calls did.
\<close>

section \<open>File system\<close>

type_synonym path = "string list"

datatype node = Dir | File string

type_synonym fs = "(path, node) jsmap"

datatype fs_error = ENOENT | ENOTDIR | EISDIR | EEXIST

definition parent_file :: "fs \<Rightarrow> path \<Rightarrow> bool" where
  "parent_file fs p \<longleftrightarrow> list_ex (\<lambda>n. case jm_get fs (take n p) of Some (File _) \<Rightarrow> True | _ \<Rightarrow> False) [0..<length p]"

definition readdir :: "fs \<Rightarrow> path \<Rightarrow> fs_error + string list" where
  "readdir fs p =
     (if parent_file fs p then Inl ENOTDIR
      else (case jm_get fs p of
          None \<Rightarrow> Inl ENOENT
        | Some (File _) \<Rightarrow> Inl ENOTDIR
        | Some Dir \<Rightarrow> Inr (map last (filter (\<lambda>q. q \<noteq> [] \<and> butlast q = p) (jm_keys fs)))))"

text \<open>\<open>mkdir(p, { recursive: true })\<close>: \<open>here\<close> exists, the segments that follow may not.\<close>

fun mkdir_from :: "path \<Rightarrow> string list \<Rightarrow> fs \<Rightarrow> fs \<times> fs_error option" where
  "mkdir_from here [] fs = (fs, None)"
| "mkdir_from here (s # ss) fs = (case jm_get fs (here @ [s]) of
     None \<Rightarrow> mkdir_from (here @ [s]) ss (jm_set (here @ [s]) Dir fs)
   | Some Dir \<Rightarrow> mkdir_from (here @ [s]) ss fs
   | Some (File _) \<Rightarrow> (fs, Some (if ss = [] then EEXIST else ENOTDIR)))"

definition mkdir :: "path \<Rightarrow> fs \<Rightarrow> fs \<times> fs_error option" where
  "mkdir p fs = mkdir_from [] p fs"

definition writeFile :: "path \<Rightarrow> string \<Rightarrow> fs \<Rightarrow> fs \<times> fs_error option" where
  "writeFile p text fs =
     (if parent_file fs p then (fs, Some ENOTDIR)
      else if butlast p \<noteq> [] \<and> jm_get fs (butlast p) = None then (fs, Some ENOENT)
      else if p = [] \<or> jm_get fs p = Some Dir then (fs, Some EISDIR)
      else (jm_set p (File text) fs, None))"

text \<open>\<open>path.join(base, relative)\<close>.\<close>

definition join_path :: "path \<Rightarrow> string \<Rightarrow> path" where
  "join_path base relative = path_walk base (filter (\<lambda>s. s \<noteq> []) (split_on CHR ''/'' relative))"

section \<open>project.ts\<close>

definition isNonEmptyDir :: "fs \<Rightarrow> path \<Rightarrow> fs_error + bool" where
  "isNonEmptyDir fs dir = (case readdir fs dir of
     Inr entries \<Rightarrow> Inr (entries \<noteq> [])
   | Inl e \<Rightarrow> if e = ENOENT then Inr False else Inl e)"

fun write_entries :: "(string \<times> string) list \<Rightarrow> path \<Rightarrow> path list \<Rightarrow> fs \<Rightarrow> fs \<times> (fs_error + path list)" where
  "write_entries [] base written fs = (fs, Inr written)"
| "write_entries ((relative, contents) # rest) base written fs =
     (let target = join_path base relative
      in case mkdir (butlast target) fs of
           (fs1, Some e) \<Rightarrow> (fs1, Inl e)
         | (fs1, None) \<Rightarrow> (case writeFile target contents fs1 of
               (fs2, Some e) \<Rightarrow> (fs2, Inl e)
             | (fs2, None) \<Rightarrow> write_entries rest base (written @ [target]) fs2))"

definition writeProject :: "scaffolded_project \<Rightarrow> path \<Rightarrow> fs \<Rightarrow> fs \<times> (fs_error + path list)" where
  "writeProject project base fs = write_entries (pr_files project) base [] fs"

section \<open>prompt.ts\<close>

text \<open>A question with what it offers; an answer is a value or a rejection.\<close>

record prompt_ui =
  ui_select :: "string \<Rightarrow> template_name \<Rightarrow> (string \<times> template_name \<times> string) list \<Rightarrow> template_name result"
  ui_multiselect :: "string \<Rightarrow> string list \<Rightarrow> string list \<Rightarrow> string list result"
  ui_confirm :: "string \<Rightarrow> bool \<Rightarrow> bool result"

definition canPrompt :: "bool \<Rightarrow> bool \<Rightarrow> bool" where
  "canPrompt stdin_tty stdout_tty \<longleftrightarrow> stdin_tty \<and> stdout_tty"

definition promptScaffoldOptions :: "prompt_ui \<Rightarrow> scaffold_options result" where
  "promptScaffoldOptions ui =
     and_then (ui_select ui ''Choose a starting template'' Store
       (map (\<lambda>name. (st_label (SCAFFOLD_TEMPLATES name), name, st_hint (SCAFFOLD_TEMPLATES name))) TEMPLATE_NAMES))
     (\<lambda>template. let preset = SCAFFOLD_TEMPLATES template in
     and_then (ui_multiselect ui ''Enable engine modules'' (st_modules preset) MODULE_NAMES) (\<lambda>modules.
     and_then (ui_confirm ui ''Add a vitest suite?'' (st_tests preset)) (\<lambda>tests.
     and_then (ui_confirm ui ''Add docker-compose for a local Postgres?'' (st_docker preset)) (\<lambda>docker.
     and_then (ui_confirm ui ''Add a GitHub Actions workflow?'' (st_ci preset)) (\<lambda>ci.
     Inr \<lparr>sc_template = Some template, sc_modules = Some modules, sc_tests = Some tests,
       sc_docker = Some docker, sc_ci = Some ci\<rparr>)))))"

section \<open>The result of a command\<close>

datatype log_level = Start | Info | Success | Error | Log | Box

text \<open>What a command throws: an error of the file system or any other.\<close>

datatype cli_thrown = Sys fs_error | Js thrown

record cli_result =
  cr_fs :: fs
  cr_log :: "(log_level \<times> string) list"
  cr_exit :: "int option"
  cr_thrown :: "cli_thrown option"

definition DEFAULT_DIR :: string where
  "DEFAULT_DIR = ''my-intellibiz-app''"

definition next_steps :: "string \<Rightarrow> string" where
  "next_steps dirName = ''Next:'' @ nl @ ''  cd '' @ dirName @ nl @ ''  pnpm install'' @ nl @ ''  pnpm dev''"

text \<open>The part the two commands share: scaffold, refuse a directory that has entries, write.\<close>

definition create_project :: "string \<Rightarrow> scaffold_options \<Rightarrow> bool \<Rightarrow> path \<Rightarrow> fs \<Rightarrow> cli_result" where
  "create_project name options force cwd fs =
     (case scaffoldProject name options of
        Inl t \<Rightarrow> \<lparr>cr_fs = fs, cr_log = [], cr_exit = None, cr_thrown = Some (Js t)\<rparr>
      | Inr project \<Rightarrow>
          let target = cwd @ [pr_dirName project]
          in case (if force then Inr False else isNonEmptyDir fs target) of
               Inl e \<Rightarrow> \<lparr>cr_fs = fs, cr_log = [], cr_exit = None, cr_thrown = Some (Sys e)\<rparr>
             | Inr True \<Rightarrow> \<lparr>cr_fs = fs, cr_log = [(Error, pr_dirName project @
                   '' already exists and is not empty. Pass --force to write into it.'')],
                 cr_exit = Some 1, cr_thrown = None\<rparr>
             | Inr False \<Rightarrow> (case writeProject project target fs of
                   (fs', Inl e) \<Rightarrow> \<lparr>cr_fs = fs', cr_log = [], cr_exit = None, cr_thrown = Some (Sys e)\<rparr>
                 | (fs', Inr written) \<Rightarrow> \<lparr>cr_fs = fs', cr_log =
                       [(Success, ''Created '' @ pr_dirName project @ '' ('' @ nat_to_string (length written) @ '' files)''),
                        (Info, describeScaffoldOptions (resolveScaffoldOptions options)),
                        (Info, next_steps (pr_dirName project))],
                     cr_exit = None, cr_thrown = None\<rparr>))"

section \<open>intellibiz init\<close>

record init_args =
  ia_dir :: "string option"
  ia_template :: "string option"
  ia_modules :: "string option"
  ia_features :: "string option"
  ia_yes :: bool
  ia_force :: bool

definition non_empty :: "string option \<Rightarrow> string option" where
  "non_empty v = (if v = Some [] then None else v)"

definition toOptions :: "init_args \<Rightarrow> scaffold_options" where
  "toOptions args = optionsFromFlags \<lparr>sf_template = non_empty (ia_template args),
     sf_modules = non_empty (ia_modules args), sf_features = non_empty (ia_features args)\<rparr>"

definition init_run :: "bool \<Rightarrow> prompt_ui \<Rightarrow> init_args \<Rightarrow> path \<Rightarrow> fs \<Rightarrow> cli_result" where
  "init_run can_prompt ui args cwd fs =
     (let flagsProvided = truthy (ia_template args) \<or> truthy (ia_modules args) \<or> truthy (ia_features args);
          interactive = (\<not> ia_yes args \<and> \<not> flagsProvided \<and> can_prompt)
      in case (if interactive then promptScaffoldOptions ui else Inr (toOptions args)) of
           Inl t \<Rightarrow> \<lparr>cr_fs = fs, cr_log = [(Error, ''Scaffolding cancelled.'')], cr_exit = Some 1, cr_thrown = None\<rparr>
         | Inr options \<Rightarrow> create_project (coalesce (ia_dir args) DEFAULT_DIR) options (ia_force args) cwd fs)"

section \<open>create-intellibiz\<close>

datatype flag = FlagStr string | FlagTrue

fun parse_args :: "string list \<Rightarrow> string list \<Rightarrow> (string, flag) jsmap \<Rightarrow> string list \<times> (string, flag) jsmap" where
  "parse_args [] positional flags = (positional, flags)"
| "parse_args (arg # argv) positional flags =
     (if starts_with arg ''--'' then
        (let body = drop 2 arg
         in case index_of CHR ''='' body of
              Some eq \<Rightarrow> parse_args argv positional (jm_set (take eq body) (FlagStr (drop (eq + 1) body)) flags)
            | None \<Rightarrow>
                if body = ''yes'' \<or> body = ''force'' \<or> body = ''help''
                then parse_args argv positional (jm_set body FlagTrue flags)
                else (case argv of
                    [] \<Rightarrow> parse_args argv positional (jm_set body FlagTrue flags)
                  | nxt # argv' \<Rightarrow>
                      if nxt \<noteq> [] \<and> \<not> starts_with nxt ''-''
                      then parse_args argv' positional (jm_set body (FlagStr nxt) flags)
                      else parse_args argv positional (jm_set body FlagTrue flags)))
      else if arg = ''-y'' then parse_args argv positional (jm_set ''yes'' FlagTrue flags)
      else if arg = ''-f'' then parse_args argv positional (jm_set ''force'' FlagTrue flags)
      else if arg = ''-h'' then parse_args argv positional (jm_set ''help'' FlagTrue flags)
      else if \<not> starts_with arg ''-'' then parse_args argv (positional @ [arg]) flags
      else parse_args argv positional flags)"

definition help_text :: string where
  "help_text = text_of
     [(0, ''create-intellibiz '' @ em_dash @ '' scaffold a new Intellibiz project''),
      (0, []),
      (0, ''Usage:''),
      (0, ''  npm create @intellibiz/intellibiz [dir] [options]''),
      (0, []),
      (0, ''Options:''),
      (0, ''  --template <minimal|api|store>  Starting template (default: store)''),
      (0, ''  --modules <a,b,c>               Engine modules to enable''),
      (0, ''  --features <tests,docker,ci>    Extra project features''),
      (0, ''  -y, --yes                       Accept template defaults, no prompts''),
      (0, ''  -f, --force                     Write into a non-empty directory''),
      (0, ''  -h, --help                      Show this message'')]"

definition flag_str :: "(string, flag) jsmap \<Rightarrow> string \<Rightarrow> string option" where
  "flag_str flags k = (case jm_get flags k of Some (FlagStr s) \<Rightarrow> Some s | _ \<Rightarrow> None)"

definition create_options :: "bool \<Rightarrow> prompt_ui \<Rightarrow> (string, flag) jsmap \<Rightarrow> scaffold_options result" where
  "create_options can_prompt ui flags =
     (let yes = (jm_get flags ''yes'' = Some FlagTrue);
          template = flag_str flags ''template''; modules = flag_str flags ''modules'';
          features = flag_str flags ''features'';
          flagsProvided = (truthy template \<or> truthy modules \<or> truthy features)
      in if \<not> yes \<and> \<not> flagsProvided \<and> can_prompt then promptScaffoldOptions ui
         else Inr (optionsFromFlags \<lparr>sf_template = template, sf_modules = modules, sf_features = features\<rparr>))"

text \<open>\<open>sys_message\<close> is the text of an error of the file system. The final \<open>catch\<close> logs whatever was
  thrown and sets the exit code.\<close>

definition create_main :: "(fs_error \<Rightarrow> string) \<Rightarrow> bool \<Rightarrow> prompt_ui \<Rightarrow> string list \<Rightarrow> path \<Rightarrow> fs \<Rightarrow> cli_result" where
  "create_main sys_message can_prompt ui argv cwd fs =
     (let (positional, flags) = parse_args argv [] []
      in if jm_get flags ''help'' = Some FlagTrue
         then \<lparr>cr_fs = fs, cr_log = [(Log, help_text)], cr_exit = None, cr_thrown = None\<rparr>
         else
           let name = (case positional of [] \<Rightarrow> DEFAULT_DIR | n # _ \<Rightarrow> n);
               force = (jm_get flags ''force'' = Some FlagTrue);
               r = (case create_options can_prompt ui flags of
                      Inl t \<Rightarrow> \<lparr>cr_fs = fs, cr_log = [], cr_exit = None, cr_thrown = Some (Js t)\<rparr>
                    | Inr options \<Rightarrow> create_project name options force cwd fs)
           in case cr_thrown r of
                None \<Rightarrow> r
              | Some (Sys e) \<Rightarrow> r\<lparr>cr_log := cr_log r @ [(Error, sys_message e)], cr_exit := Some 1, cr_thrown := None\<rparr>
              | Some (Js t) \<Rightarrow> r\<lparr>cr_log := cr_log r @ [(Error, thrown_message t)], cr_exit := Some 1, cr_thrown := None\<rparr>)"


section \<open>What the writer touches\<close>

lemma mkdir_from_frame:
  "mkdir_from here ss fs = (fs', e) \<Longrightarrow>
    jm_get fs' q = jm_get fs q \<or>
    jm_get fs q = None \<and> jm_get fs' q = Some Dir \<and> (\<exists>n. q = here @ take n ss \<and> 0 < n)"
proof (induction here ss fs arbitrary: fs' e rule: mkdir_from.induct)
  case (2 here s ss fs)
  have step: "(\<exists>n. q = (here @ [s]) @ take n ss \<and> 0 < n) \<Longrightarrow> \<exists>n. q = here @ take n (s # ss) \<and> 0 < n"
    by (metis append.assoc append_Cons append_Nil take_Suc_Cons zero_less_Suc)
  have one: "here @ [s] = here @ take 1 (s # ss)" by simp
  show ?case
  proof (cases "jm_get fs (here @ [s])")
    case None
    with 2 have m: "mkdir_from (here @ [s]) ss (jm_set (here @ [s]) Dir fs) = (fs', e)" by simp
    from 2(1)[OF None m] None step one show ?thesis
      by (metis (no_types, lifting) jm_get_set zero_less_one)
  next
    case (Some nd)
    show ?thesis
    proof (cases nd)
      case Dir
      with Some 2 have m: "mkdir_from (here @ [s]) ss fs = (fs', e)" by simp
      from 2(2)[OF _ _ m] Some Dir step show ?thesis by auto
    next
      case (File x)
      with Some 2 show ?thesis by simp
    qed
  qed
qed simp

lemma mkdir_frame:
  assumes "mkdir p fs = (fs', e)"
  shows "jm_get fs' q = jm_get fs q \<or> jm_get fs q = None \<and> jm_get fs' q = Some Dir \<and> prefix q p \<and> q \<noteq> []"
proof -
  from mkdir_from_frame[OF assms[unfolded mkdir_def], of q]
  show ?thesis
  proof (elim disjE conjE exE)
    fix n
    assume n: "jm_get fs q = None" "jm_get fs' q = Some Dir" "q = [] @ take n p" "0 < n"
    show ?thesis
    proof (cases "q = []")
      case True
      with n have "p = []" by (cases p) auto
      with assms show ?thesis by (simp add: mkdir_def)
    qed (use n take_is_prefix in auto)
  qed simp
qed

lemma writeFile_frame: "writeFile p text fs = (fs', e) \<Longrightarrow> q \<noteq> p \<Longrightarrow> jm_get fs' q = jm_get fs q"
  by (auto simp: writeFile_def split: if_splits)

lemma writeFile_done: "writeFile p text fs = (fs', None) \<Longrightarrow> jm_get fs' p = Some (File text)"
  by (auto simp: writeFile_def split: if_splits)

definition rel_ok :: "string \<Rightarrow> bool" where
  "rel_ok rel \<longleftrightarrow> list_all (\<lambda>s. s \<noteq> [] \<and> s \<noteq> ''.'' \<and> s \<noteq> ''..'') (split_on CHR ''/'' rel)"

lemma path_walk_plain: "list_all (\<lambda>s. s \<noteq> ''.'' \<and> s \<noteq> ''..'') ss \<Longrightarrow> path_walk d ss = d @ ss"
  by (induction ss arbitrary: d) auto

lemma join_path_ok: "rel_ok rel \<Longrightarrow> join_path base rel = base @ split_on CHR ''/'' rel"
proof -
  assume r: "rel_ok rel"
  then have "filter (\<lambda>s. s \<noteq> []) (split_on CHR ''/'' rel) = split_on CHR ''/'' rel"
    by (auto simp: rel_ok_def list_all_iff)
  moreover have "list_all (\<lambda>s. s \<noteq> ''.'' \<and> s \<noteq> ''..'') (split_on CHR ''/'' rel)"
    using r by (auto simp: rel_ok_def list_all_iff)
  ultimately show ?thesis by (simp add: join_path_def path_walk_plain)
qed

lemma rel_target:
  assumes "rel_ok rel"
  shows "prefix base (join_path base rel)" "join_path base rel \<noteq> base" "prefix base (butlast (join_path base rel))"
  using split_on_not_Nil[of "CHR ''/''" rel] by (auto simp: join_path_ok[OF assms] butlast_append)

lemma write_entries_frame:
  assumes "list_all (\<lambda>(rel, _). rel_ok rel) files" "write_entries files base w fs = (fs', r)" "\<not> prefix base q"
  shows "jm_get fs' q = jm_get fs q \<or> jm_get fs q = None \<and> jm_get fs' q = Some Dir \<and> strict_prefix q base \<and> q \<noteq> []"
  using assms
proof (induction files base w fs rule: write_entries.induct)
  case (2 rel contents rest base w fs)
  let ?t = "join_path base rel"
  have ok: "rel_ok rel" "list_all (\<lambda>(rel, _). rel_ok rel) rest" using 2(2) by auto
  obtain fs1 e1 where m: "mkdir (butlast ?t) fs = (fs1, e1)" by (cases "mkdir (butlast ?t) fs")
  have q: "q \<noteq> ?t" using rel_target[OF ok(1)] 2(4) by metis
  have pq: "strict_prefix q base" if "prefix q (butlast ?t)"
  proof -
    from prefix_same_cases[OF that rel_target(3)[OF ok(1)]] 2(4) show ?thesis by (auto simp: strict_prefix_def)
  qed
  have f1: "jm_get fs1 q = jm_get fs q \<or> jm_get fs q = None \<and> jm_get fs1 q = Some Dir \<and> strict_prefix q base \<and> q \<noteq> []"
    using mkdir_frame[OF m, of q] pq by blast
  show ?case
  proof (cases e1)
    case (Some e)
    with 2(3) m f1 show ?thesis by (simp add: Let_def)
  next
    case None
    obtain fs2 e2 where wf: "writeFile ?t contents fs1 = (fs2, e2)" by (cases "writeFile ?t contents fs1")
    have f2: "jm_get fs2 q = jm_get fs1 q" by (rule writeFile_frame[OF wf q])
    show ?thesis
    proof (cases e2)
      case (Some e)
      with 2(3) m None wf f1 f2 show ?thesis by (simp add: Let_def)
    next
      case N2: None
      with 2(3) m None wf have "write_entries rest base (w @ [?t]) fs2 = (fs', r)" by (simp add: Let_def)
      from 2(1)[OF refl m[symmetric] None wf[symmetric] N2 ok(2) this 2(4)] f1 f2 show ?thesis by auto
    qed
  qed
qed simp


lemma rel_oks:
  "rel_ok ''package.json''" "rel_ok ''tsconfig.json''" "rel_ok ''intellibiz.config.ts''" "rel_ok ''src/index.ts''"
  "rel_ok ''src/actions/greet.ts''" "rel_ok ''README.md''" "rel_ok ''.gitignore''" "rel_ok ''.env.example''"
  "rel_ok ''src/actions/quote.ts''" "rel_ok ''src/actions/whoami.ts''" "rel_ok ''src/types.ts''"
  "rel_ok ''src/payments/dev-provider.ts''" "rel_ok ''src/payments/register.ts''"
  "rel_ok ''src/actions/create-order.ts''" "rel_ok ''src/webhooks/payment.ts''" "rel_ok ''tests/app.test.ts''"
  "rel_ok ''docker-compose.yml''" "rel_ok ''.github/workflows/ci.yml''"
  by code_simp+

lemma files_rel_ok: "list_all (\<lambda>(rel, _). rel_ok rel) (scaffold_files name options)"
  by (simp add: scaffold_files_def rel_oks)

text \<open>A command keeps to its project directory: outside it nothing changes, but for missing parent
  directories; and without \<open>--force\<close> a directory that has entries is left as it is.\<close>

definition contained :: "path \<Rightarrow> bool \<Rightarrow> fs \<Rightarrow> cli_result \<Rightarrow> bool" where
  "contained base force fs r \<longleftrightarrow>
     (\<forall>q. \<not> prefix base q \<longrightarrow> jm_get (cr_fs r) q = jm_get fs q \<or>
       jm_get fs q = None \<and> jm_get (cr_fs r) q = Some Dir \<and> strict_prefix q base) \<and>
     (\<not> force \<and> isNonEmptyDir fs base = Inr True \<longrightarrow> cr_fs r = fs \<and> Success \<notin> fst ` set (cr_log r))"

lemma contained_same: "cr_fs r = fs \<Longrightarrow> Success \<notin> fst ` set (cr_log r) \<Longrightarrow> contained base force fs r"
  by (simp add: contained_def)

lemma create_project_contained: "contained (cwd @ [toKebabCase name]) force fs (create_project name options force cwd fs)"
proof (cases "scaffoldProject name options")
  case (Inl t)
  then show ?thesis by (simp add: create_project_def contained_same)
next
  case (Inr p)
  note f = scaffoldProject_Inr[OF Inr]
  let ?base = "cwd @ [toKebabCase name]"
  obtain fs' w where w: "writeProject p ?base fs = (fs', w)" by (cases "writeProject p ?base fs")
  have frame: "jm_get fs' q = jm_get fs q \<or> jm_get fs q = None \<and> jm_get fs' q = Some Dir \<and> strict_prefix q ?base"
    if "\<not> prefix ?base q" for q
    using write_entries_frame[of "pr_files p", OF _ _ that] files_rel_ok w by (fastforce simp: f writeProject_def)
  show ?thesis
  proof (cases "\<not> force \<and> isNonEmptyDir fs ?base = Inr True")
    case True
    with Inr show ?thesis by (simp add: create_project_def contained_same f(3))
  next
    case False
    show ?thesis
    proof (cases "(if force then Inr False else isNonEmptyDir fs ?base)")
      case E: (Inl e)
      with Inr show ?thesis by (simp add: create_project_def contained_same f(3))
    next
      case N: (Inr b)
      with False have "b = False" by (auto split: if_splits)
      with N Inr w have "cr_fs (create_project name options force cwd fs) = fs'"
        by (cases w) (simp_all add: create_project_def f(3))
      with frame False show ?thesis unfolding contained_def by blast
    qed
  qed
qed

definition create_name :: "string list \<Rightarrow> string" where
  "create_name argv = (case fst (parse_args argv [] []) of [] \<Rightarrow> DEFAULT_DIR | n # _ \<Rightarrow> n)"

definition create_force :: "string list \<Rightarrow> bool" where
  "create_force argv \<longleftrightarrow> jm_get (snd (parse_args argv [] [])) ''force'' = Some FlagTrue"

lemma contained_logged:
  "contained base force fs r \<Longrightarrow> l \<noteq> Success \<Longrightarrow>
    contained base force fs (r\<lparr>cr_log := cr_log r @ [(l, m)], cr_exit := e, cr_thrown := t\<rparr>)"
  by (auto simp: contained_def)

text \<open>C39: creating a project is confined to its directory. Whatever the arguments, the answers to
  the prompts, the state of the file system and the errors on the way, \<open>intellibiz init\<close> and
  \<open>create-intellibiz\<close> change nothing outside the directory named after the kebab form of the project
  name, directly under the working directory, but for missing parents of it; and when that
  directory has entries and the force flag is absent they change nothing and report no success.\<close>

theorem commands_contained:
  "contained (cwd @ [toKebabCase (coalesce (ia_dir args) DEFAULT_DIR)]) (ia_force args) fs
      (init_run can_prompt ui args cwd fs) \<and>
    contained (cwd @ [toKebabCase (create_name argv)]) (create_force argv) fs
      (create_main sys_message can_prompt ui argv cwd fs)"
proof
  show "contained (cwd @ [toKebabCase (coalesce (ia_dir args) DEFAULT_DIR)]) (ia_force args) fs
      (init_run can_prompt ui args cwd fs)"
    by (simp add: init_run_def Let_def contained_same create_project_contained split: sum.splits)
  obtain pos flags where pf: "parse_args argv [] [] = (pos, flags)" by fastforce
  define base where "base = cwd @ [toKebabCase (create_name argv)]"
  define r where "r = (case create_options can_prompt ui flags of
      Inl t \<Rightarrow> \<lparr>cr_fs = fs, cr_log = [], cr_exit = None, cr_thrown = Some (Js t)\<rparr>
    | Inr options \<Rightarrow> create_project (create_name argv) options (create_force argv) cwd fs)"
  have c: "contained base (create_force argv) fs r"
    by (simp add: r_def base_def contained_same create_project_contained split: sum.splits)
  have r_eq: "(case create_options can_prompt ui flags of
      Inl t \<Rightarrow> \<lparr>cr_fs = fs, cr_log = [], cr_exit = None, cr_thrown = Some (Js t)\<rparr>
    | Inr options \<Rightarrow> create_project (case pos of [] \<Rightarrow> DEFAULT_DIR | n # _ \<Rightarrow> n) options
        (jm_get flags ''force'' = Some FlagTrue) cwd fs) = r"
    unfolding r_def create_name_def create_force_def pf fst_conv snd_conv ..
  have "create_main sys_message can_prompt ui argv cwd fs =
      (if jm_get flags ''help'' = Some FlagTrue
       then \<lparr>cr_fs = fs, cr_log = [(Log, help_text)], cr_exit = None, cr_thrown = None\<rparr>
       else case cr_thrown r of None \<Rightarrow> r
         | Some (Sys e) \<Rightarrow> r\<lparr>cr_log := cr_log r @ [(Error, sys_message e)], cr_exit := Some 1, cr_thrown := None\<rparr>
         | Some (Js t) \<Rightarrow> r\<lparr>cr_log := cr_log r @ [(Error, thrown_message t)], cr_exit := Some 1, cr_thrown := None\<rparr>)"
    unfolding create_main_def pf Let_def prod.case r_eq ..
  with c show "contained (cwd @ [toKebabCase (create_name argv)]) (create_force argv) fs
      (create_main sys_message can_prompt ui argv cwd fs)"
    by (simp add: base_def[symmetric] contained_same contained_logged split: option.splits cli_thrown.splits)
qed

section \<open>A fresh directory\<close>

definition dirs_to :: "fs \<Rightarrow> path \<Rightarrow> bool" where
  "dirs_to fs p \<longleftrightarrow> (\<forall>n \<le> length p. jm_get fs (take n p) = Some Dir)"

lemma dirs_to_snoc: "dirs_to fs (p @ [s]) \<longleftrightarrow> dirs_to fs p \<and> jm_get fs (p @ [s]) = Some Dir"
  by (auto simp: dirs_to_def le_Suc_eq)

lemma dirs_to_no_file: "dirs_to fs (butlast p) \<Longrightarrow> \<not> parent_file fs p"
proof -
  assume d: "dirs_to fs (butlast p)"
  have "jm_get fs (take n p) = Some Dir" if "n < length p" for n
  proof -
    have "take n p = take n (butlast p)" using that by (simp add: butlast_conv_take)
    with d that show ?thesis by (simp add: dirs_to_def)
  qed
  then show ?thesis by (auto simp: parent_file_def list_ex_iff)
qed

lemma mkdir_from_ok:
  "dirs_to fs here \<Longrightarrow> \<forall>n x. jm_get fs (here @ take n ss) \<noteq> Some (File x) \<Longrightarrow>
    \<exists>fs'. mkdir_from here ss fs = (fs', None) \<and> dirs_to fs' (here @ ss)"
proof (induction here ss fs rule: mkdir_from.induct)
  case (2 here s ss fs)
  have nf: "\<forall>n x. jm_get fs ((here @ [s]) @ take n ss) \<noteq> Some (File x)"
    using 2(4) by (metis append.assoc append_Cons append_Nil take_Suc_Cons)
  show ?case
  proof (cases "jm_get fs (here @ [s])")
    case None
    let ?fs = "jm_set (here @ [s]) Dir fs"
    have "dirs_to ?fs (here @ [s])"
      using 2(3) by (auto simp: dirs_to_def le_Suc_eq)
    moreover have "\<forall>n x. jm_get ?fs ((here @ [s]) @ take n ss) \<noteq> Some (File x)" using nf by auto
    ultimately obtain fs' where "mkdir_from (here @ [s]) ss ?fs = (fs', None)" "dirs_to fs' ((here @ [s]) @ ss)"
      using 2(1)[OF None] by blast
    with None show ?thesis by simp
  next
    case (Some nd)
    with nf[rule_format, of 0] have d: "nd = Dir" by (cases nd) auto
    have "dirs_to fs (here @ [s])" using 2(3) Some d by (simp add: dirs_to_snoc)
    with 2(2)[OF Some d this nf] Some d show ?thesis by simp
  qed
qed simp

lemma mkdir_ok:
  assumes "jm_get fs [] = Some Dir" "\<And>n x. jm_get fs (take n p) \<noteq> Some (File x)"
  shows "\<exists>fs'. mkdir p fs = (fs', None) \<and> dirs_to fs' p"
  using mkdir_from_ok[of fs "[]" p] assms by (simp add: mkdir_def dirs_to_def)

lemma writeFile_ok:
  assumes "dirs_to fs (butlast p)" "p \<noteq> []" "jm_get fs p \<noteq> Some Dir"
  shows "writeFile p contents fs = (jm_set p (File contents) fs, None)"
proof -
  have "jm_get fs (butlast p) = Some Dir"
    using assms(1) unfolding dirs_to_def by (metis order_refl take_all)
  with assms dirs_to_no_file[OF assms(1)] show ?thesis by (simp add: writeFile_def)
qed

text \<open>The files below \<open>base\<close> are the entries written so far, and the directories lead to them.\<close>

definition laid_out :: "path \<Rightarrow> (string \<times> string) list \<Rightarrow> fs \<Rightarrow> bool" where
  "laid_out base written fs \<longleftrightarrow>
     (\<forall>q c. prefix base q \<longrightarrow>
        (jm_get fs q = Some (File c) \<longleftrightarrow> (\<exists>rel. (rel, c) \<in> set written \<and> q = join_path base rel))) \<and>
     (\<forall>q. prefix base q \<longrightarrow> jm_get fs q = Some Dir \<longrightarrow>
        (\<exists>rel \<in> fst ` set written. prefix q (butlast (join_path base rel)))) \<and>
     (\<forall>q. strict_prefix q base \<longrightarrow> jm_get fs q = Some Dir)"

text \<open>No path leads through another one.\<close>

definition no_clash :: "string list \<Rightarrow> bool" where
  "no_clash rels \<longleftrightarrow> (\<forall>r1 \<in> set rels. \<forall>r2 \<in> set rels. \<not> prefix (split_on CHR ''/'' r1) (butlast (split_on CHR ''/'' r2)))"

lemma clash_targets:
  assumes "rel_ok r1" "rel_ok r2" "no_clash rels" "r1 \<in> set rels" "r2 \<in> set rels"
  shows "\<not> prefix (join_path base r1) (butlast (join_path base r2))"
  using assms split_on_not_Nil[of "CHR ''/''" r2]
  by (auto simp: no_clash_def join_path_ok butlast_append)

lemma target_inj: "rel_ok r1 \<Longrightarrow> rel_ok r2 \<Longrightarrow> join_path base r1 = join_path base r2 \<Longrightarrow> r1 = r2"
  using join_split_on[of "CHR ''/''"] by (metis join_path_ok same_append_eq)

lemma laid_out_step:
  assumes l: "laid_out base written fs" and ok: "list_all rel_ok (rel # map fst written)"
    and nc: "no_clash (rel # map fst written)" and new: "rel \<notin> fst ` set written" and b: "base \<noteq> []"
  shows "\<exists>fs1 fs2. mkdir (butlast (join_path base rel)) fs = (fs1, None) \<and>
    writeFile (join_path base rel) c fs1 = (fs2, None) \<and> laid_out base (written @ [(rel, c)]) fs2"
proof -
  let ?t = "join_path base rel"
  note rt = rel_target[of rel base]
  have okr: "rel_ok rel" and okw: "\<And>r d. (r, d) \<in> set written \<Longrightarrow> rel_ok r"
    using ok by (auto simp: list_all_iff)
  have files: "\<And>q c. prefix base q \<Longrightarrow> jm_get fs q = Some (File c) \<longleftrightarrow> (\<exists>r. (r, c) \<in> set written \<and> q = join_path base r)"
    and dirs: "\<And>q. prefix base q \<Longrightarrow> jm_get fs q = Some Dir \<Longrightarrow> \<exists>r \<in> fst ` set written. prefix q (butlast (join_path base r))"
    and up: "\<And>q. strict_prefix q base \<Longrightarrow> jm_get fs q = Some Dir"
    using l unfolding laid_out_def by blast+
  have nofile: "jm_get fs q \<noteq> Some (File x)" if q: "prefix q (butlast ?t)" for q x
  proof (cases "prefix base q")
    case True
    show ?thesis
    proof
      assume "jm_get fs q = Some (File x)"
      with files[OF True] obtain r where r: "(r, x) \<in> set written" "q = join_path base r" by blast
      have "r \<in> set (rel # map fst written)" using r(1) by force
      with clash_targets[OF okw[OF r(1)] okr nc] q r(2) show False by simp
    qed
  next
    case False
    with prefix_same_cases[OF q rt(3)[OF okr]] have "strict_prefix q base" by (auto simp: strict_prefix_def)
    with up show ?thesis by simp
  qed
  have "jm_get fs [] = Some Dir" using up[of "[]"] b by (simp add: strict_prefix_def)
  then obtain fs1 where m: "mkdir (butlast ?t) fs = (fs1, None)" "dirs_to fs1 (butlast ?t)"
    using mkdir_ok[of fs "butlast ?t"] nofile take_is_prefix by metis
  have t: "?t \<noteq> []" using rt(1)[OF okr] b by auto
  have nd: "jm_get fs ?t \<noteq> Some Dir"
  proof
    assume "jm_get fs ?t = Some Dir"
    from dirs[OF rt(1)[OF okr] this] obtain r d where r: "(r, d) \<in> set written" "prefix ?t (butlast (join_path base r))" by auto
    have "r \<in> set (rel # map fst written)" using r(1) by force
    with clash_targets[OF okr okw[OF r(1)] nc] r(2) show False by simp
  qed
  have np: "\<not> prefix ?t (butlast ?t)" using t by (metis append_butlast_last_id not_Cons_self2 prefix_order.antisym prefixI same_append_eq append_Nil2)
  have frame: "jm_get fs1 q = jm_get fs q \<or> jm_get fs q = None \<and> jm_get fs1 q = Some Dir \<and> prefix q (butlast ?t)" for q
    using mkdir_frame[OF m(1), of q] by blast
  have "jm_get fs1 ?t \<noteq> Some Dir" using frame[of ?t] nd np by auto
  from writeFile_ok[OF m(2) t this] have w: "writeFile ?t c fs1 = (jm_set ?t (File c) fs1, None)" .
  have "laid_out base (written @ [(rel, c)]) (jm_set ?t (File c) fs1)"
    unfolding laid_out_def
  proof (intro conjI allI impI)
    fix q d assume q: "prefix base q"
    show "jm_get (jm_set ?t (File c) fs1) q = Some (File d) \<longleftrightarrow>
        (\<exists>r. (r, d) \<in> set (written @ [(rel, c)]) \<and> q = join_path base r)"
    proof (cases "q = ?t")
      case True
      have "(r, d) \<notin> set written" if "?t = join_path base r" for r
        using that target_inj[OF okr okw, of r d] new by force
      with True show ?thesis by auto
    next
      case False
      with frame[of q] files[OF q, of d] show ?thesis by auto
    qed
  next
    fix q assume q: "prefix base q" "jm_get (jm_set ?t (File c) fs1) q = Some Dir"
    then have "jm_get fs1 q = Some Dir" by (simp split: if_splits)
    with frame[of q] dirs[OF q(1)] show "\<exists>r \<in> fst ` set (written @ [(rel, c)]). prefix q (butlast (join_path base r))"
      by auto
  next
    fix q assume q: "strict_prefix q base"
    then have "q \<noteq> ?t" using rt(1)[OF okr] by (auto simp: strict_prefix_def prefix_order.antisym)
    with frame[of q] up[OF q] show "jm_get (jm_set ?t (File c) fs1) q = Some Dir" by simp
  qed
  with m w show ?thesis by blast
qed

lemma write_entries_ok:
  assumes "laid_out base written fs" "list_all rel_ok (map fst (written @ files))"
    "no_clash (map fst (written @ files))" "distinct (map fst (written @ files))" "base \<noteq> []"
  shows "\<exists>fs' ps. write_entries files base acc fs = (fs', Inr ps) \<and> laid_out base (written @ files) fs' \<and>
    length ps = length acc + length files"
  using assms
proof (induction files base acc fs arbitrary: written rule: write_entries.induct)
  case (2 rel c rest base acc fs)
  have ok: "list_all rel_ok (rel # map fst written)" using 2(3) by simp
  have nc: "no_clash (rel # map fst written)" using 2(4) by (auto simp: no_clash_def)
  have new: "rel \<notin> fst ` set written" using 2(5) by auto
  from laid_out_step[OF 2(2) ok nc new 2(6)] obtain fs1 fs2 where
    m: "mkdir (butlast (join_path base rel)) fs = (fs1, None)"
    and w: "writeFile (join_path base rel) c fs1 = (fs2, None)" and l: "laid_out base (written @ [(rel, c)]) fs2"
    by blast
  from 2(1)[OF refl m[symmetric] refl w[symmetric] refl l] 2(3-6) m w show ?case by (simp add: Let_def)
qed simp


definition all_paths :: "string list" where
  "all_paths = [''package.json'', ''tsconfig.json'', ''intellibiz.config.ts'', ''src/index.ts'',
     ''src/actions/greet.ts'', ''README.md'', ''.gitignore'', ''.env.example'', ''src/actions/quote.ts'',
     ''src/actions/whoami.ts'', ''src/types.ts'', ''src/payments/dev-provider.ts'', ''src/payments/register.ts'',
     ''src/actions/create-order.ts'', ''src/webhooks/payment.ts'', ''tests/app.test.ts'', ''docker-compose.yml'',
     ''.github/workflows/ci.yml'']"

lemma files_no_clash: "no_clash (map fst (scaffold_files name options))"
proof -
  have "set (map fst (scaffold_files name options)) \<subseteq> set all_paths"
    by (auto simp: scaffold_files_def all_paths_def split: if_splits)
  moreover have "no_clash all_paths" by code_simp
  ultimately show ?thesis unfolding no_clash_def by blast
qed

lemma create_project_fresh:
  assumes d: "dirs_to fs cwd" and fresh: "\<And>q. prefix (cwd @ [toKebabCase name]) q \<Longrightarrow> jm_get fs q = None"
    and p: "scaffoldProject name options = Inr p"
  shows "\<exists>fs'. create_project name options force cwd fs = \<lparr>cr_fs = fs', cr_log =
       [(Success, ''Created '' @ pr_dirName p @ '' ('' @ nat_to_string (length (pr_files p)) @ '' files)''),
        (Info, describeScaffoldOptions (resolveScaffoldOptions options)), (Info, next_steps (pr_dirName p))],
       cr_exit = None, cr_thrown = None\<rparr> \<and> laid_out (cwd @ [toKebabCase name]) (pr_files p) fs'"
proof -
  note f = scaffoldProject_Inr[OF p]
  let ?base = "cwd @ [toKebabCase name]"
  have up: "jm_get fs q = Some Dir" if "strict_prefix q ?base" for q
  proof -
    from that have "prefix q cwd" by (auto simp: strict_prefix_def)
    then have "q = take (length q) cwd" "length q \<le> length cwd" by (auto simp: prefix_def)
    with d show ?thesis unfolding dirs_to_def by metis
  qed
  have "laid_out ?base [] fs" using fresh up by (simp add: laid_out_def)
  moreover have "list_all rel_ok (map fst (pr_files p))"
    using files_rel_ok[of "toKebabCase name" "resolveScaffoldOptions options"]
    by (simp add: f list.pred_map comp_def case_prod_unfold)
  ultimately obtain fs' ps where w: "writeProject p ?base fs = (fs', Inr ps)" "laid_out ?base (pr_files p) fs'"
      "length ps = length (pr_files p)"
    using write_entries_ok[of ?base "[]" fs "pr_files p" "[]"] files_no_clash files_distinct
    by (auto simp: f writeProject_def jm_keys_def)
  have "\<not> parent_file fs ?base" by (rule dirs_to_no_file) (simp add: d)
  with fresh[of ?base] have "isNonEmptyDir fs ?base = Inr False" by (simp add: isNonEmptyDir_def readdir_def)
  with p w show ?thesis by (simp add: create_project_def f(3) Let_def)
qed

text \<open>C40: creating a project in a fresh directory succeeds and writes exactly the project. When the
  working directory exists, nothing exists at or below the target directory and the name is usable,
  the command ends without an error, the files below the target are exactly the generated ones with
  their contents, and everything else is as before.\<close>

theorem create_project_writes_project:
  assumes "dirs_to fs cwd" and "\<forall>q. prefix (cwd @ [toKebabCase name]) q \<longrightarrow> jm_get fs q = None"
    and "scaffoldProject name options = Inr p"
  shows "cr_exit (create_project name options force cwd fs) = None \<and>
    cr_thrown (create_project name options force cwd fs) = None \<and>
    (\<forall>q c. prefix (cwd @ [toKebabCase name]) q \<longrightarrow>
      (jm_get (cr_fs (create_project name options force cwd fs)) q = Some (File c) \<longleftrightarrow>
        (\<exists>rel. (rel, c) \<in> set (pr_files p) \<and> q = cwd @ [toKebabCase name] @ split_on CHR ''/'' rel))) \<and>
    (\<forall>q. \<not> prefix (cwd @ [toKebabCase name]) q \<longrightarrow>
      jm_get (cr_fs (create_project name options force cwd fs)) q = jm_get fs q)"
proof -
  let ?base = "cwd @ [toKebabCase name]" and ?r = "create_project name options force cwd fs"
  have fresh: "\<And>q. prefix ?base q \<Longrightarrow> jm_get fs q = None" using assms(2) by blast
  obtain fs' lg where c: "?r = \<lparr>cr_fs = fs', cr_log = lg, cr_exit = None, cr_thrown = None\<rparr>"
    and l: "laid_out ?base (pr_files p) fs'"
    using create_project_fresh[OF assms(1) fresh assms(3), of force] by blast
  from c have r: "cr_fs ?r = fs'" "cr_exit ?r = None" "cr_thrown ?r = None" by simp_all
  have ok: "rel_ok rel" if "(rel, c) \<in> set (pr_files p)" for rel c
    using files_rel_ok that by (fastforce simp: scaffoldProject_Inr(1)[OF assms(3)] list_all_iff)
  have out: "jm_get fs' q = jm_get fs q" if "\<not> prefix ?base q" for q
  proof -
    have "jm_get fs q = Some Dir" if "strict_prefix q ?base"
    proof -
      from that have "prefix q cwd" by (auto simp: strict_prefix_def)
      then have "q = take (length q) cwd" "length q \<le> length cwd" by (auto simp: prefix_def)
      with assms(1) show ?thesis unfolding dirs_to_def by metis
    qed
    with create_project_contained[of cwd name force fs options] that show ?thesis
      unfolding contained_def r(1) by auto
  qed
  have fl: "jm_get fs' q = Some (File c) \<longleftrightarrow> (\<exists>rel. (rel, c) \<in> set (pr_files p) \<and> q = join_path ?base rel)"
    if "prefix ?base q" for q c using l that unfolding laid_out_def by blast
  have "jm_get fs' q = Some (File c) \<longleftrightarrow>
      (\<exists>rel. (rel, c) \<in> set (pr_files p) \<and> q = cwd @ [toKebabCase name] @ split_on CHR ''/'' rel)"
    if "prefix ?base q" for q c
    unfolding fl[OF that] using ok join_path_ok by (metis append.assoc)
  with r out show ?thesis by blast
qed

theorem create_project_writes_project_witness:
  "\<exists>p c. scaffoldProject ''Shop'' no_options = Inr p \<and>
    jm_get (cr_fs (create_project ''Shop'' no_options False [''work''] [([], Dir), ([''work''], Dir)]))
      [''work'', ''shop'', ''README.md''] = Some (File c)"
proof -
  have k: "toKebabCase ''Shop'' = ''shop''" by code_simp
  then obtain p where p: "scaffoldProject ''Shop'' no_options = Inr p" by (simp add: scaffoldProject_def Let_def)
  have d: "dirs_to [([], Dir), ([''work''], Dir)] [''work'']"
    by (simp add: dirs_to_def le_Suc_eq)
  have fresh: "\<forall>q. prefix ([''work''] @ [toKebabCase ''Shop'']) q \<longrightarrow> jm_get [([], Dir), ([''work''], Dir)] q = None"
    by (auto simp: k)
  have m: "(''README.md'', buildReadme ''shop'' (resolveScaffoldOptions no_options)) \<in> set (pr_files p)"
    by (simp add: scaffoldProject_Inr(1)[OF p] k scaffold_files_def)
  have s: "split_on CHR ''/'' ''README.md'' = [''README.md'']" by code_simp
  have q: "prefix ([''work''] @ [toKebabCase ''Shop'']) [''work'', ''shop'', ''README.md'']" by (simp add: k)
  let ?r = "create_project ''Shop'' no_options False [''work''] [([], Dir), ([''work''], Dir)]"
  have "jm_get (cr_fs ?r) [''work'', ''shop'', ''README.md''] = Some (File (buildReadme ''shop'' (resolveScaffoldOptions no_options)))
    \<longleftrightarrow> (\<exists>rel. (rel, buildReadme ''shop'' (resolveScaffoldOptions no_options)) \<in> set (pr_files p) \<and>
      [''work'', ''shop'', ''README.md''] = [''work''] @ [toKebabCase ''Shop''] @ split_on CHR ''/'' rel)"
    using create_project_writes_project[OF d fresh p, of False] q by blast
  moreover have "[''work'', ''shop'', ''README.md''] = [''work''] @ [toKebabCase ''Shop''] @ split_on CHR ''/'' ''README.md''"
    by (simp add: k)
  ultimately show ?thesis using m p by blast
qed

end
