(* ===== verification/Docs.thy ===== *)
theory Docs
  imports Cli "HOL-Library.List_Lexorder" "HOL-Library.Multiset"
begin

text \<open>
  The index of the documentation site (website/src/lib/docs.ts): the walk over the markdown files of
  \<open>docs\<close>, the slug, group and title of each, the pages without duplicates, the resolution of links
  between files and the navigation. The file system is the one of Cli; \<open>repo\<close> is the root of the
  repository. \<open>pictographs\<close> removes the characters of the Unicode class Extended_Pictographic,
  which is a table of the platform. The markdown pipeline is the library unified; the two visitors the
  code gives it are functions of the elements in document order.
\<close>

section \<open>Files\<close>

definition path_string :: "path \<Rightarrow> string" where
  "path_string p = ''/'' @ join ''/'' p"

definition readFile :: "fs \<Rightarrow> path \<Rightarrow> fs_error + string" where
  "readFile fs p =
     (if parent_file fs p then Inl ENOTDIR
      else (case jm_get fs p of None \<Rightarrow> Inl ENOENT | Some Dir \<Rightarrow> Inl EISDIR | Some (File text) \<Rightarrow> Inr text))"

definition below :: "fs \<Rightarrow> path \<Rightarrow> path set" where
  "below fs dir = {p \<in> set (jm_keys fs). strict_prefix dir p}"

definition ends_md :: "string \<Rightarrow> bool" where
  "ends_md name \<longleftrightarrow> slice_last 3 (to_lower name) = ''.md''"

text \<open>The entries of a directory have its path and one segment more, so the walk ends.\<close>

lemma readdir_below:
  "readdir fs dir = Inr names \<Longrightarrow> name \<in> set names \<Longrightarrow> dir @ [name] \<in> below fs dir"
  by (auto simp: readdir_def below_def strict_prefix_def split: if_splits option.splits node.splits)

lemma below_less:
  assumes "q \<in> below fs dir"
  shows "card (below fs q) < card (below fs dir)"
proof (rule psubset_card_mono)
  show "finite (below fs dir)" by (simp add: below_def)
  have "below fs q \<subseteq> below fs dir" using assms by (auto simp: below_def)
  moreover have "q \<notin> below fs q" by (simp add: below_def)
  ultimately show "below fs q \<subset> below fs dir" using assms by blast
qed

function walk :: "fs \<Rightarrow> path \<Rightarrow> fs_error + path list" where
  "walk fs dir = (case readdir fs dir of
     Inl e \<Rightarrow> Inl e
   | Inr names \<Rightarrow>
       and_then (map_result (\<lambda>name.
           if jm_get fs (dir @ [name]) = Some Dir then walk fs (dir @ [name])
           else Inr (if ends_md name then [dir @ [name]] else [])) names)
         (\<lambda>outs. Inr (sort_key path_string (concat outs))))"
  by pat_completeness auto

termination
  by (relation "measure (\<lambda>(fs, dir). card (below fs dir))") (auto intro: below_less readdir_below)

declare walk.simps [simp del]

section \<open>Pages\<close>

definition replace_char :: "char \<Rightarrow> char \<Rightarrow> string \<Rightarrow> string" where
  "replace_char a b s = map (\<lambda>c. if c = a then b else c) s"

definition strip_md :: "string \<Rightarrow> string" where
  "strip_md s = (if ends_md s then take (length s - 3) s else s)"

definition kebab :: "string \<Rightarrow> string" where
  "kebab s = to_lower (kebab_humps (replace_char CHR ''_'' CHR ''-'' (strip_md s)))"

text \<open>\<open>/^#\s+(.+)$/m\<close> and \<open>/^#\s+.+\n+/\<close>, after the \<open>#\<close>. \<open>\s+\<close> may run over line ends, and
  the longest run of white space with which the rest matches is taken.\<close>

definition ends_line :: "char \<Rightarrow> bool" where
  "ends_line c \<longleftrightarrow> c \<in> {CHR 0x0A, CHR 0x0D}"

definition line_text :: "string \<Rightarrow> string option" where
  "line_text s = (if s = [] \<or> ends_line (hd s) then None else Some (takeWhile (\<lambda>c. \<not> ends_line c) s))"

definition line_dropped :: "string \<Rightarrow> string option" where
  "line_dropped s = (if s = [] \<or> ends_line (hd s) then None
     else (case dropWhile (\<lambda>c. \<not> ends_line c) s of
             c # t \<Rightarrow> if c = CHR 0x0A then Some (dropWhile (\<lambda>c. c = CHR 0x0A) t) else None
           | [] \<Rightarrow> None))"

fun after_spaces :: "(string \<Rightarrow> 'a option) \<Rightarrow> string \<Rightarrow> 'a option" where
  "after_spaces m [] = None"
| "after_spaces m (c # s) =
     (if is_space_char c then (case after_spaces m s of Some r \<Rightarrow> Some r | None \<Rightarrow> m s) else None)"

definition heading_here :: "(string \<Rightarrow> 'a option) \<Rightarrow> string \<Rightarrow> 'a option" where
  "heading_here m s = (case s of c # t \<Rightarrow> if c = CHR ''#'' then after_spaces m t else None | [] \<Rightarrow> None)"

fun first_heading :: "bool \<Rightarrow> string \<Rightarrow> string option" where
  "first_heading at_start [] = None"
| "first_heading at_start (c # s) =
     (case (if at_start then heading_here line_text (c # s) else None) of
        Some g \<Rightarrow> Some g
      | None \<Rightarrow> first_heading (ends_line c) s)"

text \<open>\<open>path.basename(file, '.md')\<close> keeps a name that is only the suffix.\<close>

definition base_name :: "path \<Rightarrow> string" where
  "base_name file = (let name = last file
     in if slice_last 3 name = ''.md'' \<and> name \<noteq> ''.md'' then take (length name - 3) name else name)"

definition title_text :: "(string \<Rightarrow> string) \<Rightarrow> path \<Rightarrow> string \<Rightarrow> string" where
  "title_text pictographs file src =
     (let raw = (case first_heading True src of Some m \<Rightarrow> m | None \<Rightarrow> base_name file)
      in trim (pictographs (filter (\<lambda>c. c \<notin> {CHR ''`'', CHR ''*'', CHR ''_''}) raw)))"

definition titleOf :: "(string \<Rightarrow> string) \<Rightarrow> fs \<Rightarrow> path \<Rightarrow> fs_error + string" where
  "titleOf pictographs fs file = and_then (readFile fs file) (\<lambda>src. Inr (title_text pictographs file src))"

record doc_entry =
  de_slug :: "string list"
  de_file :: path
  de_repoPath :: string
  de_title :: string
  de_group :: "string property"

definition ROOT_FILES :: "(string \<times> string list \<times> string) list" where
  "ROOT_FILES =
     [(''CONTRIBUTING.md'', [''contributing''], ''Contributing''),
      (''SECURITY.md'', [''security''], ''Security''),
      (''CODE_OF_CONDUCT.md'', [''code-of-conduct''], ''Contributing'')]"

definition GROUP_BY_FOLDER :: "(string, string) jsmap" where
  "GROUP_BY_FOLDER =
     [(''guides'', ''Guides''), (''tutorials'', ''Tutorials''), (''api'', ''API reference''),
      (''architecture'', ''Architecture''), (''reference'', ''Reference''), (''security'', ''Security''),
      (''contributing'', ''Contributing''), (''performance'', ''Performance''), (''upgrading'', ''Upgrading''),
      (''rfc'', ''RFCs'')]"

text \<open>A folder with the name of an inherited property finds that property.\<close>

definition group_of :: "string \<Rightarrow> string property" where
  "group_of folder = (if folder = [] then Own ''Foundations''
     else (case get_property GROUP_BY_FOLDER folder of Undefined \<Rightarrow> Own ''Reference'' | g \<Rightarrow> g))"

definition slug_of :: "string list \<Rightarrow> string list" where
  "slug_of rel = (let dirs = map kebab (butlast rel); stem = kebab (last rel)
     in if stem = ''index'' then dirs else dirs @ [stem])"

definition doc_of :: "(string \<Rightarrow> string) \<Rightarrow> fs \<Rightarrow> path \<Rightarrow> path \<Rightarrow> fs_error + doc_entry" where
  "doc_of pictographs fs repo file =
     (let rel = drop (length repo + 1) file;
          folder = (if 1 < length rel then hd rel else [])
      in and_then (titleOf pictographs fs file) (\<lambda>title. Inr
           \<lparr>de_slug = slug_of rel, de_file = file, de_repoPath = join ''/'' (drop (length repo) file),
            de_title = title, de_group = group_of folder\<rparr>))"

definition root_doc :: "(string \<Rightarrow> string) \<Rightarrow> fs \<Rightarrow> path \<Rightarrow> string \<times> string list \<times> string \<Rightarrow> fs_error + doc_entry list" where
  "root_doc pictographs fs repo meta = (case meta of (name, slug, g) \<Rightarrow>
     let file = repo @ [name]
     in if parent_file fs file \<or> jm_get fs file = None then Inr []
        else and_then (titleOf pictographs fs file) (\<lambda>title. Inr
          [\<lparr>de_slug = slug, de_file = file, de_repoPath = name, de_title = title, de_group = Own g\<rparr>]))"

definition doc_key :: "doc_entry \<Rightarrow> string" where
  "doc_key e = join ''/'' (de_slug e)"

fun keep_first :: "string set \<Rightarrow> doc_entry list \<Rightarrow> doc_entry list" where
  "keep_first seen [] = []"
| "keep_first seen (e # es) =
     (if doc_key e \<in> seen then keep_first seen es else e # keep_first (insert (doc_key e) seen) es)"

definition scan_docs :: "(string \<Rightarrow> string) \<Rightarrow> fs \<Rightarrow> path \<Rightarrow> fs_error + doc_entry list" where
  "scan_docs pictographs fs repo =
     and_then (walk fs (repo @ [''docs''])) (\<lambda>files.
     and_then (map_result (doc_of pictographs fs repo) files) (\<lambda>docs.
     and_then (map_result (root_doc pictographs fs repo) ROOT_FILES) (\<lambda>roots.
     Inr (docs @ concat roots))))"

text \<open>The module's cache: a scan that throws leaves it empty.\<close>

definition getAllDocs :: "(string \<Rightarrow> string) \<Rightarrow> fs \<Rightarrow> path \<Rightarrow> doc_entry list option
    \<Rightarrow> (fs_error + doc_entry list) \<times> doc_entry list option" where
  "getAllDocs pictographs fs repo cache =
     (case cache of
        Some docs \<Rightarrow> (Inr docs, cache)
      | None \<Rightarrow> (case scan_docs pictographs fs repo of
          Inl e \<Rightarrow> (Inl e, None)
        | Inr entries \<Rightarrow> (Inr (keep_first {} entries), Some (keep_first {} entries))))"

section \<open>Routes and links\<close>

definition findDoc :: "doc_entry list \<Rightarrow> string list \<Rightarrow> doc_entry option" where
  "findDoc docs slug = find (\<lambda>d. doc_key d = join ''/'' slug) docs"

definition docHref :: "doc_entry \<Rightarrow> string" where
  "docHref e = ''/docs'' @ (if de_slug e \<noteq> [] then ''/'' @ join ''/'' (de_slug e) else [])"

definition resolve_path :: "path \<Rightarrow> string \<Rightarrow> path" where
  "resolve_path dir p = path_walk (if starts_with p ''/'' then [] else dir) (filter (\<lambda>s. s \<noteq> []) (split_on CHR ''/'' p))"

definition resolveLink :: "doc_entry list \<Rightarrow> path \<Rightarrow> string \<Rightarrow> string option" where
  "resolveLink docs fromFile href =
     (let parts = split_on CHR ''#'' href; pathPart = hd parts
      in if \<not> ends_md pathPart then None
         else map_option (\<lambda>hit. docHref hit @ (if 1 < length parts \<and> parts ! 1 \<noteq> [] then ''#'' @ parts ! 1 else []))
           (find (\<lambda>d. de_file d = resolve_path (butlast fromFile) pathPart) docs))"

section \<open>Rendering\<close>

text \<open>An element of the rendered tree: its tag, its properties and its text.\<close>

datatype prop_value = PStr string | PList "string list"

record element =
  el_tag :: string
  el_props :: "(string, prop_value) jsmap"
  el_text :: string

record heading =
  hg_id :: string
  hg_text :: string
  hg_depth :: nat

definition prop_string :: "prop_value \<Rightarrow> string" where
  "prop_string v = (case v of PStr s \<Rightarrow> s | PList ss \<Rightarrow> join '','' ss)"

definition collect_heading :: "element \<Rightarrow> heading list" where
  "collect_heading node =
     (if el_tag node \<in> {''h2'', ''h3''}
      then (case jm_get (el_props node) ''id'' of
              Some v \<Rightarrow> if v = PStr [] then []
                else [\<lparr>hg_id = prop_string v, hg_text = el_text node, hg_depth = (if el_tag node = ''h2'' then 2 else 3)\<rparr>]
            | None \<Rightarrow> [])
      else [])"

definition external :: "string \<Rightarrow> bool" where
  "external href \<longleftrightarrow> starts_with href ''http:'' \<or> starts_with href ''https:''"

text \<open>The element rewritten, and the link when it is reported as unresolved.\<close>

definition rewrite_link :: "doc_entry list \<Rightarrow> path \<Rightarrow> element \<Rightarrow> element \<times> string list" where
  "rewrite_link docs file node =
     (case (el_tag node = ''a'', jm_get (el_props node) ''href'') of
        (True, Some (PStr href)) \<Rightarrow>
          if external href
          then (node\<lparr>el_props := jm_set ''rel'' (PList [''noopener'', ''noreferrer'']) (jm_set ''target'' (PStr ''_blank'') (el_props node))\<rparr>, [])
          else if starts_with href ''mailto:'' \<or> starts_with href ''#'' then (node, [])
          else (case resolveLink docs file href of
                  Some mapped \<Rightarrow> (if mapped \<noteq> [] then node\<lparr>el_props := jm_set ''href'' (PStr mapped) (el_props node)\<rparr> else node, [])
                | None \<Rightarrow> (node, if includes_str (to_lower href) ''.md'' then [href] else []))
      | _ \<Rightarrow> (node, []))"

definition rewrite :: "doc_entry list \<Rightarrow> path \<Rightarrow> element \<Rightarrow> element \<times> string list" where
  "rewrite docs file node =
     (let (node', dead) = rewrite_link docs file node
      in (if el_tag node' = ''table'' then node'\<lparr>el_props := jm_set ''className'' (PList [''doc-table'']) (el_props node')\<rparr> else node', dead))"

text \<open>The leading title is dropped: \<open>source.replace(/^#\s+.+\n+/, '')\<close>.\<close>

definition drop_title :: "string \<Rightarrow> string" where
  "drop_title source = (case heading_here line_dropped source of None \<Rightarrow> source | Some body \<Rightarrow> body)"

section \<open>Navigation\<close>

record nav_group =
  ng_title :: string
  ng_items :: "(string \<times> string) list"

definition GROUP_ORDER :: "string list" where
  "GROUP_ORDER = [''Foundations'', ''Guides'', ''Tutorials'', ''API reference'', ''Architecture'', ''Reference'',
     ''Performance'', ''Security'', ''Upgrading'', ''Contributing'', ''RFCs'']"

definition add_nav :: "(string property, (string \<times> string) list) jsmap \<Rightarrow> doc_entry \<Rightarrow> (string property, (string \<times> string) list) jsmap" where
  "add_nav groups d =
     jm_set (de_group d) ((case jm_get groups (de_group d) of Some items \<Rightarrow> items | None \<Rightarrow> []) @ [(de_title d, docHref d)]) groups"

definition getDocNav :: "doc_entry list \<Rightarrow> nav_group list" where
  "getDocNav docs =
     (let groups = foldl add_nav [] docs
      in map (\<lambda>g. \<lparr>ng_title = g, ng_items = the (jm_get groups (Own g))\<rparr>) (filter (\<lambda>g. jm_has groups (Own g)) GROUP_ORDER))"

definition readRootFile :: "fs \<Rightarrow> path \<Rightarrow> string \<Rightarrow> fs_error + string" where
  "readRootFile fs repo name = readFile fs (join_path repo name)"

section \<open>The walk finds the markdown files\<close>

text \<open>The parents of a path are directories.\<close>

definition tree_ok :: "fs \<Rightarrow> bool" where
  "tree_ok fs \<longleftrightarrow> jm_wf fs \<and> (\<forall>p \<in> set (jm_keys fs). p \<noteq> [] \<and> (\<forall>q. q \<noteq> [] \<and> strict_prefix q p \<longrightarrow> jm_get fs q = Some Dir))"

definition markdown_files :: "fs \<Rightarrow> path \<Rightarrow> path set" where
  "markdown_files fs dir = {p. (\<exists>text. jm_get fs p = Some (File text)) \<and> strict_prefix dir p \<and> ends_md (last p)}"

lemma tree_ok_key: "tree_ok fs \<Longrightarrow> jm_get fs p = Some n \<Longrightarrow> p \<in> set (jm_keys fs)"
  using jm_get_None_iff by (metis option.distinct(1))

lemma tree_ok_no_parent_file:
  assumes "tree_ok fs" "jm_get fs p = Some n"
  shows "\<not> parent_file fs p"
proof -
  have "jm_get fs (take i p) \<noteq> Some (File t)" if "i < length p" for i t
  proof (cases "take i p = []")
    case True
    then show ?thesis using assms(1) tree_ok_key[OF assms(1), of "[]"] by (auto simp: tree_ok_def)
  next
    case False
    have "strict_prefix (take i p) p" using that by (metis append_take_drop_id prefixI length_take min.absorb4 less_irrefl strict_prefix_def)
    with False assms tree_ok_key[OF assms] show ?thesis by (simp add: tree_ok_def)
  qed
  then show ?thesis by (auto simp: parent_file_def list_ex_iff split: option.splits node.splits)
qed

lemma readdir_tree:
  assumes "tree_ok fs" "jm_get fs dir = Some Dir"
  obtains names where "readdir fs dir = Inr names" "distinct names"
    "\<And>n. n \<in> set names \<longleftrightarrow> dir @ [n] \<in> set (jm_keys fs)"
proof
  let ?ps = "filter (\<lambda>q. q \<noteq> [] \<and> butlast q = dir) (jm_keys fs)"
  show "readdir fs dir = Inr (map last ?ps)" using assms tree_ok_no_parent_file[OF assms] by (simp add: readdir_def)
  have "distinct ?ps" using assms(1) by (simp add: tree_ok_def jm_wf_def)
  moreover have "inj_on last (set ?ps)"
    by (rule inj_onI) (simp, metis append_butlast_last_id)
  ultimately show "distinct (map last ?ps)" by (simp add: distinct_map)
  show "n \<in> set (map last ?ps) \<longleftrightarrow> dir @ [n] \<in> set (jm_keys fs)" for n
    by (force simp: image_iff intro: append_butlast_last_id[symmetric])
qed

text \<open>A file below a directory is an entry of it or below one of its subdirectories.\<close>

lemma markdown_files_step:
  assumes "tree_ok fs" "\<And>n. n \<in> set names \<longleftrightarrow> dir @ [n] \<in> set (jm_keys fs)" "dir \<noteq> []"
  shows "markdown_files fs dir =
    (\<Union>n \<in> set names. if jm_get fs (dir @ [n]) = Some Dir then markdown_files fs (dir @ [n])
       else if ends_md n then {dir @ [n]} else {})"
proof (intro set_eqI iffI)
  fix p assume p: "p \<in> markdown_files fs dir"
  then obtain t n rest where t: "jm_get fs p = Some (File t)" "ends_md (last p)" "p = dir @ n # rest"
    by (auto simp: markdown_files_def elim!: strict_prefixE')
  show "p \<in> (\<Union>n \<in> set names. if jm_get fs (dir @ [n]) = Some Dir then markdown_files fs (dir @ [n])
       else if ends_md n then {dir @ [n]} else {})"
  proof (cases "rest = []")
    case True
    with t tree_ok_key[OF assms(1) t(1)] assms(2) show ?thesis by (intro UN_I[of n]) auto
  next
    case False
    then have sub: "strict_prefix (dir @ [n]) p" using t(3) by (auto simp: strict_prefix_def prefix_def)
    then have dir: "jm_get fs (dir @ [n]) = Some Dir"
      using assms(1) tree_ok_key[OF assms(1) t(1)] by (simp add: tree_ok_def)
    with sub t assms(2) tree_ok_key[OF assms(1) dir] show ?thesis by (intro UN_I[of n]) (auto simp: markdown_files_def)
  qed
next
  fix p assume "p \<in> (\<Union>n \<in> set names. if jm_get fs (dir @ [n]) = Some Dir then markdown_files fs (dir @ [n])
       else if ends_md n then {dir @ [n]} else {})"
  then obtain n where n: "n \<in> set names" "p \<in> (if jm_get fs (dir @ [n]) = Some Dir then markdown_files fs (dir @ [n])
       else if ends_md n then {dir @ [n]} else {})" by blast
  show "p \<in> markdown_files fs dir"
  proof (cases "jm_get fs (dir @ [n]) = Some Dir")
    case True
    with n(2) show ?thesis by (auto simp: markdown_files_def strict_prefix_def prefix_def)
  next
    case False
    moreover have "jm_get fs (dir @ [n]) \<noteq> None" using n(1) assms(2) jm_get_None_iff by metis
    ultimately obtain t where "jm_get fs (dir @ [n]) = Some (File t)" by (metis node.exhaust option.exhaust)
    with False n(2) show ?thesis by (auto simp: markdown_files_def strict_prefix_def prefix_def split: if_splits)
  qed
qed

lemma distinct_concat_map:
  assumes "distinct ns" "\<And>n. n \<in> set ns \<Longrightarrow> distinct (f n)"
    and "\<And>n m. n \<in> set ns \<Longrightarrow> m \<in> set ns \<Longrightarrow> n \<noteq> m \<Longrightarrow> set (f n) \<inter> set (f m) = {}"
  shows "distinct (concat (map f ns))"
  using assms
proof (induction ns)
  case (Cons n ns)
  have "distinct (concat (map f ns))" using Cons by simp
  moreover have "set (f n) \<inter> set (concat (map f ns)) = {}" using Cons.prems by fastforce
  ultimately show ?case using Cons.prems by simp
qed simp

lemma walk_markdown:
  "tree_ok fs \<Longrightarrow> dir \<noteq> [] \<Longrightarrow> jm_get fs dir = Some Dir \<Longrightarrow>
    \<exists>files. walk fs dir = Inr files \<and> set files = markdown_files fs dir \<and> distinct files \<and> sorted (map path_string files)"
proof (induction fs dir rule: walk.induct)
  case (1 fs dir)
  obtain names where names: "readdir fs dir = Inr names" "distinct names"
    "\<And>n. n \<in> set names \<longleftrightarrow> dir @ [n] \<in> set (jm_keys fs)"
    using readdir_tree[OF 1(2,4)] by metis
  let ?S = "\<lambda>n. if jm_get fs (dir @ [n]) = Some Dir then markdown_files fs (dir @ [n])
     else if ends_md n then {dir @ [n]} else {}"
  let ?body = "\<lambda>n. if jm_get fs (dir @ [n]) = Some Dir then walk fs (dir @ [n])
     else Inr (if ends_md n then [dir @ [n]] else [])"
  have "\<exists>out. ?body n = Inr out \<and> set out = ?S n \<and> distinct out" if "n \<in> set names" for n
    using 1(1)[OF names(1) that _ 1(2)] by (cases "jm_get fs (dir @ [n]) = Some Dir") auto
  then have "\<forall>n. \<exists>out. n \<in> set names \<longrightarrow> ?body n = Inr out \<and> set out = ?S n \<and> distinct out" by blast
  then obtain out where out: "\<forall>n. n \<in> set names \<longrightarrow> ?body n = Inr (out n) \<and> set (out n) = ?S n \<and> distinct (out n)"
    unfolding choice_iff by blast
  let ?files = "sort_key path_string (concat (map out names))"
  have "map_result ?body names = Inr (map out names)" using out by (intro map_result_all_Inr) blast
  then have "walk fs dir = Inr ?files" using names(1) by (simp add: walk.simps[of fs dir])
  moreover have "set ?files = markdown_files fs dir"
    using out by (simp add: markdown_files_step[OF 1(2) names(3) 1(3)])
  moreover have "distinct (concat (map out names))"
  proof (rule distinct_concat_map[OF names(2)])
    have "p ! length dir = n" if "n \<in> set names" "p \<in> set (out n)" for n p
      using out that by (auto simp: markdown_files_def nth_append split: if_splits elim!: strict_prefixE')
    then show "set (out n) \<inter> set (out m) = {}" if "n \<in> set names" "m \<in> set names" "n \<noteq> m" for n m using that by blast
  qed (use out in blast)
  ultimately show ?case by auto
qed

section \<open>Every page has its route\<close>

lemma map_result_results:
  assumes "map_result f xs = Inr ys"
  shows "y \<in> set ys \<Longrightarrow> \<exists>x \<in> set xs. f x = Inr y" and "x \<in> set xs \<Longrightarrow> \<exists>y \<in> set ys. f x = Inr y"
  using assms by (induction xs arbitrary: ys) (fastforce simp: and_then_Inr_iff)+

lemma doc_of_fields:
  assumes "doc_of pictographs fs repo p = Inr d"
  shows "de_slug d = slug_of (drop (length repo + 1) p)" "\<exists>folder. de_group d = group_of folder" "de_file d = p"
  using assms by (cases "titleOf pictographs fs p"; simp add: doc_of_def Let_def; force)+

lemma keep_first_keys:
  "distinct (map doc_key (keep_first seen es)) \<and> doc_key ` set (keep_first seen es) = doc_key ` set es - seen"
  by (induction seen es rule: keep_first.induct) auto

lemma keep_first_subset: "set (keep_first seen es) \<subseteq> set es"
  by (induction seen es rule: keep_first.induct) auto

lemma docHref_key: "docHref d = docHref d' \<Longrightarrow> doc_key d = doc_key d'"
  by (auto simp: docHref_def doc_key_def split: if_splits)

lemma findDoc_inverts:
  assumes "distinct (map doc_key docs)" "d \<in> set docs"
  shows "findDoc docs (de_slug d) = Some d"
  using assms
proof (induction docs)
  case (Cons e es)
  then show ?case by (cases "e = d") (auto simp: findDoc_def doc_key_def image_iff)
qed simp

lemma add_nav_get:
  "jm_wf groups \<Longrightarrow> jm_get (foldl add_nav groups docs) g =
    (let items = map (\<lambda>d. (de_title d, docHref d)) (filter (\<lambda>d. de_group d = g) docs)
     in if items = [] then jm_get groups g
        else Some ((case jm_get groups g of Some old \<Rightarrow> old | None \<Rightarrow> []) @ items))"
proof (induction docs arbitrary: groups)
  case (Cons d docs)
  have "jm_wf (add_nav groups d)" using Cons.prems by (simp add: add_nav_def)
  from Cons.IH[OF this] show ?case by (simp add: add_nav_def jm_get_set Let_def split: option.splits)
qed simp

lemma nav_items:
  "concat (map ng_items (getDocNav docs)) =
    concat (map (\<lambda>g. map (\<lambda>d. (de_title d, docHref d)) (filter (\<lambda>d. de_group d = Own g) docs)) GROUP_ORDER)"
proof -
  have "concat (map (\<lambda>g. the (jm_get (foldl add_nav [] docs) (Own g))) (filter (\<lambda>g. jm_has (foldl add_nav [] docs) (Own g)) gs)) =
      concat (map (\<lambda>g. map (\<lambda>d. (de_title d, docHref d)) (filter (\<lambda>d. de_group d = Own g) docs)) gs)" for gs
    by (induction gs) (auto simp: add_nav_get jm_has_def Let_def)
  then show ?thesis by (simp add: getDocNav_def Let_def comp_def)
qed

lemma mset_by_group:
  fixes f :: "'a \<Rightarrow> 'b"
  assumes "distinct gs" "\<forall>d \<in> set docs. \<exists>g \<in> set gs. k d = Own g"
  shows "mset (concat (map (\<lambda>g. map f (filter (\<lambda>d. k d = Own g) docs)) gs)) = image_mset f (mset docs)"
proof -
  have "mset (concat (map h gs)) = (\<Sum>g\<in>set gs. mset (h g))" for h :: "_ \<Rightarrow> 'b list"
    using assms(1) by (induction gs) auto
  moreover have "(\<Sum>g\<in>set gs. mset (map f (filter (\<lambda>d. k d = Own g) docs))) = image_mset f (mset docs)"
    using assms(2)
  proof (induction docs)
    case (Cons d docs)
    then obtain g where g: "g \<in> set gs" "k d = Own g" by auto
    have "(\<Sum>h\<in>set gs. mset (map f (filter (\<lambda>d. k d = Own h) (d # docs)))) =
        (\<Sum>h\<in>set gs. (if h = g then {#f d#} else {#}) + mset (map f (filter (\<lambda>d. k d = Own h) docs)))"
      using g by (intro sum.cong) auto
    also have "\<dots> = {#f d#} + image_mset f (mset docs)"
      using Cons g by (simp add: sum.distrib sum.delta)
    finally show ?case by simp
  qed simp
  ultimately show ?thesis by metis
qed

lemma GROUP_ORDER_distinct: "distinct GROUP_ORDER"
  by code_simp

lemma group_of_listed: "group_of folder = Own g \<Longrightarrow> g \<in> set GROUP_ORDER"
  by (auto simp: group_of_def get_property_def GROUP_BY_FOLDER_def GROUP_ORDER_def split: if_splits)

lemma group_of_defined: "group_of folder \<noteq> Undefined"
  by (simp add: group_of_def split: property.splits)

lemma scanned_group:
  assumes "scan_docs pictographs fs repo = Inr docs" "d \<in> set docs" "de_group d \<noteq> Inherited"
  shows "\<exists>g \<in> set GROUP_ORDER. de_group d = Own g"
proof -
  obtain files ds rs where *: "map_result (doc_of pictographs fs repo) files = Inr ds"
      "map_result (root_doc pictographs fs repo) ROOT_FILES = Inr rs" "docs = ds @ concat rs"
    using assms(1) by (auto simp: scan_docs_def and_then_Inr_iff)
  from assms(2) *(3) consider "d \<in> set ds" | es where "es \<in> set rs" "d \<in> set es" by auto
  then show ?thesis
  proof cases
    case 1
    then obtain p where "doc_of pictographs fs repo p = Inr d" using map_result_results(1)[OF *(1)] by blast
    then obtain folder where "de_group d = group_of folder" using doc_of_fields(2) by blast
    with assms(3) group_of_listed group_of_defined show ?thesis by (metis property.exhaust)
  next
    case 2
    then obtain meta where "meta \<in> set ROOT_FILES" "root_doc pictographs fs repo meta = Inr es"
      using map_result_results(1)[OF *(2)] by blast
    with 2(2) show ?thesis
      by (auto simp: root_doc_def and_then_Inr_iff ROOT_FILES_def GROUP_ORDER_def Let_def split: if_splits)
  qed
qed

text \<open>The site is complete: every markdown file under \<open>docs\<close> has a page at its route (its own, unless
  an earlier file took the route), routes and addresses are unique and lead back to their pages, and
  the navigation lists every page exactly once.\<close>

theorem site_complete:
  assumes "tree_ok fs" "jm_get fs (repo @ [''docs'']) = Some Dir"
    and "getAllDocs pictographs fs repo None = (Inr docs, cache)" "\<forall>d \<in> set docs. de_group d \<noteq> Inherited"
  shows "\<forall>p \<in> markdown_files fs (repo @ [''docs'']). \<exists>d \<in> set docs. doc_key d = join ''/'' (slug_of (drop (length repo + 1) p))"
    and "distinct (map docHref docs)" and "\<forall>d \<in> set docs. findDoc docs (de_slug d) = Some d"
    and "mset (concat (map ng_items (getDocNav docs))) = mset (map (\<lambda>d. (de_title d, docHref d)) docs)" and "cache = Some docs"
proof -
  obtain es where es: "scan_docs pictographs fs repo = Inr es" "docs = keep_first {} es" "cache = Some docs"
    using assms(3) by (auto simp: getAllDocs_def split: sum.splits)
  then obtain files ds rs where scan: "walk fs (repo @ [''docs'']) = Inr files"
      "map_result (doc_of pictographs fs repo) files = Inr ds" "es = ds @ concat rs"
    by (auto simp: scan_docs_def and_then_Inr_iff)
  show "\<forall>p \<in> markdown_files fs (repo @ [''docs'']). \<exists>d \<in> set docs. doc_key d = join ''/'' (slug_of (drop (length repo + 1) p))"
  proof
    fix p assume "p \<in> markdown_files fs (repo @ [''docs''])"
    then have "p \<in> set files" using walk_markdown[OF assms(1) _ assms(2)] scan(1) by auto
    then obtain d where "d \<in> set ds" "doc_of pictographs fs repo p = Inr d"
      using map_result_results(2)[OF scan(2)] by blast
    then have "d \<in> set es" and k: "doc_key d = join ''/'' (slug_of (drop (length repo + 1) p))"
      using scan(3) doc_of_fields(1) by (simp_all add: doc_key_def)
    from \<open>d \<in> set es\<close> have "doc_key d \<in> doc_key ` set docs" using keep_first_keys[of "{}" es] es(2) by simp
    then show "\<exists>d \<in> set docs. doc_key d = join ''/'' (slug_of (drop (length repo + 1) p))"
      using k by (metis imageE)
  qed
  have keys: "distinct (map doc_key docs)" using keep_first_keys[of "{}" es] es(2) by simp
  then show "\<forall>d \<in> set docs. findDoc docs (de_slug d) = Some d" using findDoc_inverts by blast
  from keys show "distinct (map docHref docs)"
    by (auto simp: distinct_map inj_on_def dest: docHref_key)
  have "\<forall>d \<in> set docs. \<exists>g \<in> set GROUP_ORDER. de_group d = Own g"
    using scanned_group[OF es(1)] keep_first_subset[of "{}" es] es(2) assms(4) by blast
  then show "mset (concat (map ng_items (getDocNav docs))) = mset (map (\<lambda>d. (de_title d, docHref d)) docs)"
    unfolding nav_items mset_map by (intro mset_by_group) (simp_all add: GROUP_ORDER_distinct)
  show "cache = Some docs" by (fact es(3))
qed

text \<open>A link resolves exactly when the file it names has a page of its own: a file whose route an
  earlier one took is published nowhere, and links to it are reported as dead.\<close>

lemma resolveLink_iff:
  "resolveLink docs fromFile href \<noteq> None \<longleftrightarrow> ends_md (hd (split_on CHR ''#'' href)) \<and>
    (\<exists>d \<in> set docs. de_file d = resolve_path (butlast fromFile) (hd (split_on CHR ''#'' href)))"
  by (auto simp: resolveLink_def Let_def find_None_iff simp flip: not_None_eq)

lemma resolveLink_page:
  "resolveLink docs fromFile href = Some route \<Longrightarrow> \<exists>d \<in> set docs. \<exists>hash. route = docHref d @ hash"
  by (auto simp: resolveLink_def Let_def find_Some_iff split: if_splits) (metis append_Nil2 nth_mem)+

lemma slug_examples:
  "slug_of [''architecture'', ''decisions'', ''001-typescript-rust-split.md''] = [''architecture'', ''decisions'', ''001-typescript-rust-split'']"
  "slug_of [''DSL_GRAMMAR.md''] = [''dsl-grammar'']" "slug_of [''api'', ''index.md''] = [''api'']"
  "heading_here line_text (''# '' @ [CHR 0x0A] @ ''Title'' @ [CHR 0x0A, CHR ''x'']) = Some ''Title''"
  by code_simp+

end
