(* ===== verification/Identity.thy ===== *)
theory Identity
  imports Context "HOL-Library.Word"
begin

unbundle bit_operations_syntax

text \<open>
  Identity (packages/identity/src): the permission bitmasks, bearer-token verification, the
  identity resolver and the domain errors. The token library (jose) is the argument \<open>jwtVerify\<close>:
  it gives the payload of a token that verifies under a key and algorithm, or throws.
\<close>

section \<open>Permissions\<close>

definition PERMISSIONS :: "(string, 32 word) jsmap" where
  "PERMISSIONS =
     [(''read'', 0b00000001), (''write'', 0b00000010), (''delete'', 0b00000100), (''export'', 0b00001000),
      (''admin'', 0b00010000), (''billing'', 0b00100000), (''impersonate'', 0b01000000), (''sudo'', 0b10000000)]"

definition ROLES :: "(string, 32 word) jsmap" where
  "ROLES =
     [(''owner'', 0b11111111), (''admin'', 0b00111111), (''billing'', 0b00101001), (''member'', 0b00000011),
      (''viewer'', 0b00000001), (''anonymous'', 0b00000000)]"

text \<open>\<open>ROLES[role] ?? 0\<close>: only an absent property becomes zero.\<close>

definition roleMask :: "string \<Rightarrow> 32 word property" where
  "roleMask role = (case get_property ROLES role of Undefined \<Rightarrow> Own 0 | p \<Rightarrow> p)"

text \<open>The operand of a bitwise operator: an inherited property is no number and counts as zero.\<close>

fun to_int32 :: "32 word property \<Rightarrow> 32 word" where
  "to_int32 (Own w) = w"
| "to_int32 _ = 0"

definition can :: "als \<Rightarrow> string \<Rightarrow> bool result" where
  "can s permission = and_then (getContext s) (\<lambda>ctx.
     let mask = roleMask (st_role ctx); bit = get_property PERMISSIONS permission
     in Inr (if bit = Undefined then False else to_int32 mask AND to_int32 bit \<noteq> 0))"

text \<open>\<open>every\<close> and \<open>some\<close> stop at the first deciding permission; on an empty list the context is
  never looked at.\<close>

fun canAll :: "als \<Rightarrow> string list \<Rightarrow> bool result" where
  "canAll s [] = Inr True"
| "canAll s (p # ps) = and_then (can s p) (\<lambda>b. if b then canAll s ps else Inr False)"

fun canAny :: "als \<Rightarrow> string list \<Rightarrow> bool result" where
  "canAny s [] = Inr False"
| "canAny s (p # ps) = and_then (can s p) (\<lambda>b. if b then Inr True else canAny s ps)"

definition getRoleMask :: "string \<Rightarrow> 32 word property" where
  "getRoleMask role = roleMask role"

section \<open>Tokens\<close>

record jwt_claims =
  cl_sub :: "string option"
  cl_tenant_id :: "string option"
  cl_roles :: "string list option"
  cl_role :: "string option"
  cl_email :: "string option"

record verified_token =
  vt_userId :: string
  vt_tenantId :: string
  vt_role :: string
  vt_email :: "string option"
  vt_raw :: jwt_claims

datatype jwt_algorithm = HS256 | RS256

text \<open>\<open>new TextEncoder().encode(secret)\<close> is left to the library: the key is the secret.\<close>

type_synonym jwt_lib = "string \<Rightarrow> string \<Rightarrow> jwt_algorithm \<Rightarrow> jwt_claims result"

text \<open>\<open>claims.roles?.[0] ?? claims.role ?? 'member'\<close>.\<close>

definition claims_role :: "jwt_claims \<Rightarrow> string" where
  "claims_role claims =
     (case cl_roles claims of
        Some (r # _) \<Rightarrow> r
      | _ \<Rightarrow> (case cl_role claims of Some r \<Rightarrow> r | None \<Rightarrow> ''member''))"

definition verifyJWT :: "jwt_lib \<Rightarrow> string \<Rightarrow> string \<Rightarrow> jwt_algorithm option \<Rightarrow> verified_token result" where
  "verifyJWT jwtVerify token secret algorithm =
     and_then (jwtVerify token secret (case algorithm of Some a \<Rightarrow> a | None \<Rightarrow> HS256)) (\<lambda>claims.
       if \<not> truthy (cl_sub claims) then Inl (Err (plain_error ''Error'' ''JWT missing sub claim''))
       else if \<not> truthy (cl_tenant_id claims)
       then Inl (Err (plain_error ''Error'' ''JWT missing tenant_id claim''))
       else Inr \<lparr>vt_userId = the (cl_sub claims), vt_tenantId = the (cl_tenant_id claims),
          vt_role = claims_role claims, vt_email = cl_email claims, vt_raw = claims\<rparr>)"

definition is_line_end :: "char \<Rightarrow> bool" where
  "is_line_end c \<longleftrightarrow> c = CHR 0x0A \<or> c = CHR 0x0D"

text \<open>\<open>/^Bearer\s+(.+)$/i\<close>. When only white space follows, the greedy \<open>\s+\<close> gives back its last
  character.\<close>

definition extractBearerToken :: "string option \<Rightarrow> string option" where
  "extractBearerToken header =
     (if \<not> truthy header then None
      else let h = the header; rest = drop 6 h; ws = takeWhile is_space_char rest;
               tok = dropWhile is_space_char rest
      in if to_upper (take 6 h) \<noteq> ''BEARER'' \<or> ws = [] then None
         else if tok \<noteq> [] then (if list_all (\<lambda>c. \<not> is_line_end c) tok then Some tok else None)
         else if 2 \<le> length ws \<and> \<not> is_line_end (last ws) then Some [last ws] else None)"

section \<open>The resolver\<close>

text \<open>A request as the resolvers read it: headers by lower-case name, and the URL.\<close>

record http_request =
  rq_header :: "(string, string) jsmap"
  rq_url :: string

definition req_header :: "http_request \<Rightarrow> string \<Rightarrow> string option" where
  "req_header c name = jm_get (rq_header c) name"

record resolver_options =
  ro_customResolver :: "(http_request \<Rightarrow> string option result) option"
  ro_jwtSecret :: "string option"
  ro_jwtAlgorithm :: "jwt_algorithm option"
  ro_strict :: bool

record resolved_identity =
  ri_tenantId :: string
  ri_userId :: "string option"
  ri_role :: string

definition strict_error :: js_error where
  "strict_error = coded_error ''No tenant resolved and tenancy.strict is true.'' ''STRICT_TENANCY_VIOLATION'' 400"

definition reservedHosts :: "string list" where
  "reservedHosts = [''www'', ''api'', ''localhost'', ''127.0.0.1'', ''0.0.0.0'', []]"

text \<open>Steps 3 to 5: the token, the host, the fallback.\<close>

definition resolve_host :: "http_request \<Rightarrow> resolver_options \<Rightarrow> resolved_identity result" where
  "resolve_host c options =
     (let host = (case req_header c ''host'' of Some h \<Rightarrow> h | None \<Rightarrow> []);
          hostname = hd (split_on CHR '':'' host);
          subdomain = hd (split_on CHR ''.'' hostname)
      in if subdomain \<noteq> [] \<and> subdomain \<notin> set reservedHosts
         then Inr \<lparr>ri_tenantId = subdomain, ri_userId = None, ri_role = ''member''\<rparr>
         else if ro_strict options then Inl (Err strict_error)
         else Inr \<lparr>ri_tenantId = ''system'', ri_userId = None, ri_role = ''anonymous''\<rparr>)"

definition resolve_token :: "jwt_lib \<Rightarrow> http_request \<Rightarrow> resolver_options \<Rightarrow> resolved_identity result" where
  "resolve_token jwtVerify c options =
     (let token = extractBearerToken (req_header c ''authorization'')
      in if truthy token \<and> truthy (ro_jwtSecret options)
         then (case verifyJWT jwtVerify (the token) (the (ro_jwtSecret options)) (ro_jwtAlgorithm options) of
                 Inr verified \<Rightarrow> Inr \<lparr>ri_tenantId = vt_tenantId verified, ri_userId = Some (vt_userId verified),
                                    ri_role = vt_role verified\<rparr>
               | Inl _ \<Rightarrow> resolve_host c options)
         else resolve_host c options)"

definition resolve_headers :: "jwt_lib \<Rightarrow> http_request \<Rightarrow> resolver_options \<Rightarrow> resolved_identity result" where
  "resolve_headers jwtVerify c options =
     (let headerTenant = req_header c ''x-tenant-id''; headerUser = req_header c ''x-user-id''
      in if truthy headerTenant
         then Inr \<lparr>ri_tenantId = the headerTenant, ri_userId = headerUser, ri_role = ''member''\<rparr>
         else resolve_token jwtVerify c options)"

definition resolveIdentity :: "jwt_lib \<Rightarrow> http_request \<Rightarrow> resolver_options \<Rightarrow> resolved_identity result" where
  "resolveIdentity jwtVerify c options =
     (case ro_customResolver options of
        None \<Rightarrow> resolve_headers jwtVerify c options
      | Some resolver \<Rightarrow> and_then (resolver c) (\<lambda>tenantId.
          if truthy tenantId
          then Inr \<lparr>ri_tenantId = the tenantId, ri_userId = None, ri_role = ''member''\<rparr>
          else resolve_headers jwtVerify c options))"

section \<open>The identity service\<close>

definition UnauthenticatedError :: js_error where
  "UnauthenticatedError = coded_error ''Authentication required.'' ''UNAUTHENTICATED'' 401"

definition ForbiddenError :: js_error where
  "ForbiddenError = coded_error ''You do not have permission to perform this action.'' ''FORBIDDEN'' 403"

definition TenantNotFoundError :: js_error where
  "TenantNotFoundError = coded_error ''Tenant not found.'' ''TENANT_NOT_FOUND'' 404"

record business_user =
  bu_id :: string
  bu_email :: "string option"
  bu_tenantId :: string
  bu_role :: string

definition getActiveUser :: "als \<Rightarrow> business_user result" where
  "getActiveUser s = and_then (getContext s) (\<lambda>ctx.
     if \<not> truthy (st_userId ctx) then Inl (Err UnauthenticatedError)
     else Inr \<lparr>bu_id = the (st_userId ctx), bu_email = None, bu_tenantId = st_tenantId ctx, bu_role = st_role ctx\<rparr>)"

definition getActiveTenant :: "als \<Rightarrow> string result" where
  "getActiveTenant s = and_then (getContext s) (\<lambda>ctx. Inr (st_tenantId ctx))"

section \<open>What the masks mean\<close>

text \<open>The permissions each role is meant to have.\<close>

definition role_grants :: "(string, string list) jsmap" where
  "role_grants =
     [(''owner'', [''read'', ''write'', ''delete'', ''export'', ''admin'', ''billing'', ''impersonate'', ''sudo'']),
      (''admin'', [''read'', ''write'', ''delete'', ''export'', ''admin'', ''billing'']),
      (''billing'', [''read'', ''billing'', ''export'']),
      (''member'', [''read'', ''write'']),
      (''viewer'', [''read''])]"

definition granted :: "string \<Rightarrow> string \<Rightarrow> bool" where
  "granted role permission \<longleftrightarrow> (case jm_get role_grants role of Some ps \<Rightarrow> permission \<in> set ps | None \<Rightarrow> False)"

lemma to_int32_mask: "to_int32 (roleMask role) = (case jm_get ROLES role of Some w \<Rightarrow> w | None \<Rightarrow> 0)"
  by (auto simp: roleMask_def get_property_def split: option.splits)

lemma to_int32_permission:
  "to_int32 (get_property PERMISSIONS p) = (case jm_get PERMISSIONS p of Some w \<Rightarrow> w | None \<Rightarrow> 0)"
  by (auto simp: get_property_def split: option.splits)

lemma granted_keys: "granted role p \<Longrightarrow> role \<in> set (jm_keys ROLES) \<and> p \<in> set (jm_keys PERMISSIONS)"
proof -
  have keys: "\<forall>(r, ps) \<in> set role_grants. r \<in> set (jm_keys ROLES) \<and> list_all (\<lambda>p. p \<in> set (jm_keys PERMISSIONS)) ps"
    by code_simp
  have mem: "jm_get m k = Some v \<Longrightarrow> (k, v) \<in> set m" for m :: "(string, string list) jsmap" and k v
    by (induction m) (auto split: if_splits)
  assume "granted role p"
  then obtain ps where "jm_get role_grants role = Some ps" "p \<in> set ps"
    by (auto simp: granted_def split: option.splits)
  with keys mem show ?thesis by (fastforce simp: list_all_iff)
qed

lemma mask_and_bit: "(to_int32 (roleMask role) AND to_int32 (get_property PERMISSIONS p) \<noteq> 0) = granted role p"
proof (cases "role \<in> set (jm_keys ROLES) \<and> p \<in> set (jm_keys PERMISSIONS)")
  case True
  have "\<forall>r \<in> set (jm_keys ROLES). \<forall>q \<in> set (jm_keys PERMISSIONS).
      (to_int32 (roleMask r) AND to_int32 (get_property PERMISSIONS q) \<noteq> 0) = granted r q"
    by code_simp
  with True show ?thesis by blast
next
  case False
  then have "jm_get ROLES role = None \<or> jm_get PERMISSIONS p = None" by (simp add: jm_get_None_iff)
  then have "to_int32 (roleMask role) AND to_int32 (get_property PERMISSIONS p) = 0"
    by (auto simp: to_int32_mask to_int32_permission)
  with False granted_keys show ?thesis by blast
qed

lemma can_granted: "can (Some st) p = Inr (granted (st_role st) p)"
  using mask_and_bit[of "st_role st" p] by (auto simp: can_def Let_def)

section \<open>Properties\<close>

text \<open>C13: the bitmasks implement the permission table. A permission is held exactly when the
  table grants it to the role, for every string as role or permission; \<open>canAll\<close> and \<open>canAny\<close> are
  its conjunction and disjunction; outside a context every check of a non-empty list throws.\<close>

theorem can_implements_table:
  "can (Some st) p = Inr (granted (st_role st) p) \<and>
   canAll (Some st) ps = Inr (list_all (granted (st_role st)) ps) \<and>
   canAny (Some st) ps = Inr (list_ex (granted (st_role st)) ps) \<and>
   can None p = Inl (Err (ContextMissingError None)) \<and>
   canAll None (p # ps) = Inl (Err (ContextMissingError None)) \<and>
   canAny None (p # ps) = Inl (Err (ContextMissingError None))"
proof -
  have "canAll (Some st) ps = Inr (list_all (granted (st_role st)) ps)"
    by (induction ps) (auto simp: can_granted)
  moreover have "canAny (Some st) ps = Inr (list_ex (granted (st_role st)) ps)"
    by (induction ps) (auto simp: can_granted)
  ultimately show ?thesis by (simp add: can_granted) (simp add: can_def)
qed



end
