(* ===== verification/DecimalLib.thy ===== *)
theory DecimalLib
  imports JsNumber Errors
begin

text \<open>
  The interface to the decimal arithmetic package. The package is not part of the repository, so
  the model takes its operations as a record argument, and the locale \<open>decimal_arith\<close> states
  what its documentation promises under the configuration the money module sets (28 significant
  digits, half-even): arithmetic is the exact result rounded, construction from a plain decimal
  literal and \<open>toFixed()\<close> are exact. The reference instance at the end satisfies the contract.
\<close>

section \<open>Plain decimal literals\<close>

text \<open>\<open>decimal_parts s = Some (m, k)\<close> when \<open>s\<close> denotes \<open>m / 10 ^ k\<close>.\<close>

definition decimal_parts :: "string \<Rightarrow> (int \<times> nat) option" where
  "decimal_parts s =
     (let neg = (s \<noteq> [] \<and> hd s = CHR ''-''); t = (if neg then tl s else s);
          ip = takeWhile is_digit_char t; rest = dropWhile is_digit_char t;
          sg = (if neg then -1 else 1 :: int)
      in if ip = [] then None
         else if rest = [] then Some (sg * int (parse_digits ip), 0)
         else if hd rest = CHR ''.'' \<and> tl rest \<noteq> [] \<and> list_all is_digit_char (tl rest)
         then Some (sg * int (parse_digits (ip @ tl rest)), length (tl rest))
         else None)"

definition decimal_literal :: "string \<Rightarrow> rat option" where
  "decimal_literal s = map_option (\<lambda>(m, k). of_int m / 10 ^ k) (decimal_parts s)"

text \<open>The numeral of \<open>n / 10 ^ k\<close> with exactly \<open>k\<close> decimals.\<close>

definition fixed_str :: "int \<Rightarrow> nat \<Rightarrow> string" where
  "fixed_str n k =
     (if n < 0 then ''-'' else []) @ nat_to_string (nat \<bar>n\<bar> div 10 ^ k) @
     (if k = 0 then [] else CHR ''.'' # pad_start k CHR ''0'' (nat_to_string (nat \<bar>n\<bar> mod 10 ^ k)))"

lemma parse_digits_append:
  "parse_digits (s @ t) = parse_digits s * 10 ^ length t + parse_digits t"
proof (induction t rule: rev_induct)
  case (snoc c t)
  have "parse_digits ((s @ t) @ [c]) = 10 * parse_digits (s @ t) + digit_val c"
    "parse_digits (t @ [c]) = 10 * parse_digits t + digit_val c"
    by (simp_all add: parse_digits_def)
  with snoc show ?case by (simp add: algebra_simps)
qed (simp add: parse_digits_def)

lemma digit_val_0 [simp]: "digit_val CHR ''0'' = 0" and is_digit_0 [simp]: "is_digit_char CHR ''0''"
  by code_simp+

lemma parse_digits_replicate_0 [simp]: "parse_digits (replicate n CHR ''0'') = 0"
  by (induction n) (simp_all add: parse_digits_def)

lemma length_pad_start: "length s \<le> n \<Longrightarrow> length (pad_start n c s) = n"
  by (simp add: pad_start_def)

lemma decimal_parts_fixed_str: "decimal_parts (fixed_str n k) = Some (n, k)"
proof -
  let ?q = "nat_to_string (nat \<bar>n\<bar> div 10 ^ k)"
  let ?f = "pad_start k CHR ''0'' (nat_to_string (nat \<bar>n\<bar> mod 10 ^ k))"
  have digits: "\<And>c. c \<in> set ?q \<Longrightarrow> is_digit_char c" "\<And>c. c \<in> set ?f \<Longrightarrow> is_digit_char c"
    by (auto simp: pad_start_def dest: nat_to_string_digits split: if_splits)
  have hd: "hd ?q \<noteq> CHR ''-''"
    using digits(1)[of "hd ?q"] by (auto simp: is_digit_char_def less_eq_char_def)
  have dot: "\<not> is_digit_char CHR ''.''" by code_simp
  have lf: "0 < k \<Longrightarrow> length ?f = k"
    by (intro length_pad_start length_nat_to_string_le) auto
  have val: "parse_digits (?q @ ?f) = nat \<bar>n\<bar>" if "0 < k"
    unfolding parse_digits_append lf[OF that]
    by (simp add: pad_start_def parse_digits_append div_mult_mod_eq)
  have sgn: "(if n < 0 then -1 else 1) * \<bar>n\<bar> = n" by simp
  have tw: "takeWhile is_digit_char (?q @ r) = ?q @ takeWhile is_digit_char r"
    "dropWhile is_digit_char (?q @ r) = dropWhile is_digit_char r" for r
    using digits(1) by (simp_all add: takeWhile_append2 dropWhile_append2)
  have neg: "fixed_str n k \<noteq> [] \<and> hd (fixed_str n k) = CHR ''-'' \<longleftrightarrow> n < 0"
    using hd by (auto simp: fixed_str_def)
  have rest: "(if n < 0 then tl (fixed_str n k) else fixed_str n k)
      = ?q @ (if k = 0 then [] else CHR ''.'' # ?f)"
    by (simp add: fixed_str_def)
  show ?thesis
  proof (cases "k = 0")
    case True
    then show ?thesis
      unfolding decimal_parts_def Let_def neg rest using sgn by simp
  next
    case False
    then have "?f \<noteq> []" using lf by auto
    with False show ?thesis
      unfolding decimal_parts_def Let_def neg rest
      using tw[of "CHR ''.'' # ?f"] sgn dot val lf digits(2) by (simp add: list_all_iff)
  qed
qed

lemma decimal_literal_fixed_str: "decimal_literal (fixed_str n k) = Some (of_int n / 10 ^ k)"
  by (simp add: decimal_literal_def decimal_parts_fixed_str)

lemma int_to_string_fixed: "int_to_string i = fixed_str i 0"
  by (simp add: int_to_string_def fixed_str_def)

lemma decimal_literal_int: "decimal_literal (int_to_string i) = Some (of_int i)"
  by (simp add: int_to_string_fixed decimal_literal_fixed_str)

section \<open>The package's operations\<close>

datatype rounding_mode = ROUND_FLOOR | ROUND_HALF_EVEN

fun round_mode :: "rounding_mode \<Rightarrow> rat \<Rightarrow> int" where
  "round_mode ROUND_FLOOR r = \<lfloor>r\<rfloor>"
| "round_mode ROUND_HALF_EVEN r = round_half_even r"

record 'd decimal_lib =
  d_of_string :: "string \<Rightarrow> 'd result"
  d_of_number :: "number \<Rightarrow> 'd"
  d_add :: "'d \<Rightarrow> 'd \<Rightarrow> 'd"
  d_sub :: "'d \<Rightarrow> 'd \<Rightarrow> 'd"
  d_mul :: "'d \<Rightarrow> 'd \<Rightarrow> 'd"
  d_div :: "'d \<Rightarrow> 'd \<Rightarrow> 'd"
  d_pow :: "'d \<Rightarrow> nat \<Rightarrow> 'd"
  d_to_dp :: "'d \<Rightarrow> nat \<Rightarrow> rounding_mode \<Rightarrow> 'd"
  d_to_fixed :: "'d \<Rightarrow> string"
  d_to_fixed_dp :: "'d \<Rightarrow> nat \<Rightarrow> string"
  d_to_number :: "'d \<Rightarrow> number"
  d_eq :: "'d \<Rightarrow> 'd \<Rightarrow> bool"
  d_gt :: "'d \<Rightarrow> 'd \<Rightarrow> bool"
  d_lt :: "'d \<Rightarrow> 'd \<Rightarrow> bool"
  d_is_zero :: "'d \<Rightarrow> bool"
  d_is_neg :: "'d \<Rightarrow> bool"

text \<open>Magnitudes far inside the package's exponent limits.\<close>

definition dec_limit :: nat where "dec_limit = 1000"

definition decimal_range :: "rat \<Rightarrow> bool" where
  "decimal_range r \<longleftrightarrow> r = 0 \<or> (1 / 10 ^ dec_limit \<le> \<bar>r\<bar> \<and> \<bar>r\<bar> < 10 ^ dec_limit)"

abbreviation round28 :: "rat \<Rightarrow> rat" where "round28 \<equiv> round_sig 10 28"

text \<open>\<open>v x\<close> is the value of \<open>x\<close>, \<open>None\<close> for NaN and the infinities.\<close>

locale decimal_arith =
  fixes D :: "'d decimal_lib" and v :: "'d \<Rightarrow> rat option"
  assumes of_string: "decimal_literal s = Some r \<Longrightarrow> \<exists>d. d_of_string D s = Inr d \<and> v d = Some r"
    and of_number: "\<bar>i\<bar> < 2 ^ 53 \<Longrightarrow> v (d_of_number D (Fin (of_int i))) = Some (of_int i)"
    and add: "v x = Some a \<Longrightarrow> v y = Some b \<Longrightarrow> decimal_range (a + b)
                \<Longrightarrow> v (d_add D x y) = Some (round28 (a + b))"
    and sub: "v x = Some a \<Longrightarrow> v y = Some b \<Longrightarrow> decimal_range (a - b)
                \<Longrightarrow> v (d_sub D x y) = Some (round28 (a - b))"
    and mul: "v x = Some a \<Longrightarrow> v y = Some b \<Longrightarrow> decimal_range (a * b)
                \<Longrightarrow> v (d_mul D x y) = Some (round28 (a * b))"
    and div: "v x = Some a \<Longrightarrow> v y = Some b \<Longrightarrow> b \<noteq> 0 \<Longrightarrow> decimal_range (a / b)
                \<Longrightarrow> v (d_div D x y) = Some (round28 (a / b))"
    and pow: "v x = Some a \<Longrightarrow> decimal_range (a ^ n) \<Longrightarrow> v (d_pow D x n) = Some (round28 (a ^ n))"
    and to_dp: "v x = Some a \<Longrightarrow> v (d_to_dp D x n m) = Some (of_int (round_mode m (a * 10 ^ n)) / 10 ^ n)"
    and to_fixed: "v x = Some a \<Longrightarrow> \<exists>d. d_of_string D (d_to_fixed D x) = Inr d \<and> v d = Some a"
    and to_fixed_dp: "v x = Some a \<Longrightarrow> a * 10 ^ n = of_int k \<Longrightarrow> d_to_fixed_dp D x n = fixed_str k n"
    and to_number: "v x = Some a \<Longrightarrow> d_to_number D x = to_double a"
    and eq: "v x = Some a \<Longrightarrow> v y = Some b \<Longrightarrow> d_eq D x y \<longleftrightarrow> a = b"
    and gt: "v x = Some a \<Longrightarrow> v y = Some b \<Longrightarrow> d_gt D x y \<longleftrightarrow> b < a"
    and lt: "v x = Some a \<Longrightarrow> v y = Some b \<Longrightarrow> d_lt D x y \<longleftrightarrow> a < b"
    and is_zero: "v x = Some a \<Longrightarrow> d_is_zero D x \<longleftrightarrow> a = 0"
    and is_neg: "v x = Some a \<Longrightarrow> a \<noteq> 0 \<Longrightarrow> d_is_neg D x \<longleftrightarrow> a < 0"

text \<open>Amounts with at most 28 significant digits and up to \<open>dec_limit\<close> decimals.\<close>

definition fits28 :: "rat \<Rightarrow> bool" where
  "fits28 r \<longleftrightarrow> (\<exists>m k. r = of_int m / 10 ^ k \<and> \<bar>m\<bar> < 10 ^ 28 \<and> k \<le> dec_limit)"

lemma fits28I: "r = of_int m / 10 ^ k \<Longrightarrow> \<bar>m\<bar> < 10 ^ 28 \<Longrightarrow> k \<le> dec_limit \<Longrightarrow> fits28 r"
  by (auto simp: fits28_def)

lemma fits28_of_int [intro]: "\<bar>m\<bar> < 10 ^ 28 \<Longrightarrow> fits28 (of_int m)"
  by (rule fits28I[of _ m 0]) auto

lemma fits28_round: "fits28 r \<Longrightarrow> round28 r = r"
  unfolding fits28_def by (auto intro!: round_sig_exact[of 10 _ _ _ "- int _"] simp: power_int_minus field_simps)

lemma fits28_range: assumes "fits28 r" shows "decimal_range r"
proof -
  obtain m k where mk: "r = of_int m / 10 ^ k" "\<bar>m\<bar> < 10 ^ 28" "k \<le> dec_limit"
    using assms by (auto simp: fits28_def)
  show ?thesis
  proof (cases "m = 0")
    case False
    then have "(1 :: rat) \<le> of_int \<bar>m\<bar>" by simp
    moreover have "(10 :: rat) ^ k \<le> 10 ^ dec_limit" using mk(3) by (intro power_increasing) auto
    ultimately have "1 / 10 ^ dec_limit \<le> of_int \<bar>m\<bar> / (10 :: rat) ^ k" by (intro frac_le) auto
    moreover have "of_int \<bar>m\<bar> / (10 :: rat) ^ k \<le> of_int \<bar>m\<bar>"
      by (simp add: divide_le_eq mult_le_cancel_left1)
    moreover have "(of_int \<bar>m\<bar> :: rat) < 10 ^ 28"
      using mk(2) by (metis of_int_less_iff of_int_numeral of_int_power)
    moreover have "(10 :: rat) ^ 28 \<le> 10 ^ dec_limit"
      by (intro power_increasing) (auto simp: dec_limit_def)
    moreover have "\<bar>r\<bar> = of_int \<bar>m\<bar> / 10 ^ k" by (simp add: mk(1))
    ultimately show ?thesis unfolding decimal_range_def by linarith
  qed (simp add: decimal_range_def mk(1))
qed


section \<open>A reference instance\<close>

text \<open>
  Decimals as a mantissa and a power of ten. It is used to show that the contract is satisfiable
  and to run the model on concrete amounts.
\<close>

datatype refdec = Dec int int | DNaN

fun ref_val :: "refdec \<Rightarrow> rat option" where
  "ref_val (Dec m e) = Some (of_int m * 10 powi e)"
| "ref_val DNaN = None"

definition ref_round :: "rat \<Rightarrow> refdec" where
  "ref_round r =
     (if r = 0 then Dec 0 0
      else Dec (round_half_even (r / ulp_of 10 28 r)) (expo 10 r + 1 - 28))"

definition ref_lift :: "(rat \<Rightarrow> rat \<Rightarrow> rat) \<Rightarrow> refdec \<Rightarrow> refdec \<Rightarrow> refdec" where
  "ref_lift f x y =
     (case (ref_val x, ref_val y) of (Some a, Some b) \<Rightarrow> ref_round (f a b) | _ \<Rightarrow> DNaN)"

definition ref_of_string :: "string \<Rightarrow> refdec option" where
  "ref_of_string s = map_option (\<lambda>(m, k). Dec m (- int k)) (decimal_parts s)"

fun ref_to_fixed :: "refdec \<Rightarrow> string" where
  "ref_to_fixed (Dec m e) =
     (if 0 \<le> e then fixed_str (m * 10 ^ nat e) 0 else fixed_str m (nat (- e)))"
| "ref_to_fixed DNaN = ''NaN''"

definition ref_cmp :: "(rat \<Rightarrow> rat \<Rightarrow> bool) \<Rightarrow> refdec \<Rightarrow> refdec \<Rightarrow> bool" where
  "ref_cmp p x y = (case (ref_val x, ref_val y) of (Some a, Some b) \<Rightarrow> p a b | _ \<Rightarrow> False)"

definition ref_decimal :: "refdec decimal_lib" where
  "ref_decimal = \<lparr>
     d_of_string = (\<lambda>s. case ref_of_string s of Some d \<Rightarrow> Inr d
                   | None \<Rightarrow> Inl (Err (plain_error ''Error'' ''[DecimalError] Invalid argument''))),
     d_of_number = (\<lambda>n. case ref_of_string (number_to_string n) of Some d \<Rightarrow> d | None \<Rightarrow> DNaN),
     d_add = ref_lift (+), d_sub = ref_lift (-), d_mul = ref_lift (*),
     d_div = (\<lambda>x y. if ref_val y = Some 0 then DNaN else ref_lift (/) x y),
     d_pow = (\<lambda>x n. case ref_val x of Some a \<Rightarrow> ref_round (a ^ n) | None \<Rightarrow> DNaN),
     d_to_dp = (\<lambda>x n m. case ref_val x of
                   Some a \<Rightarrow> Dec (round_mode m (a * 10 ^ n)) (- int n) | None \<Rightarrow> DNaN),
     d_to_fixed = ref_to_fixed,
     d_to_fixed_dp = (\<lambda>x n. case ref_val x of
                   Some a \<Rightarrow> fixed_str (round_half_even (a * 10 ^ n)) n | None \<Rightarrow> ''NaN''),
     d_to_number = (\<lambda>x. case ref_val x of Some a \<Rightarrow> to_double a | None \<Rightarrow> NaN),
     d_eq = ref_cmp (=), d_gt = ref_cmp (>), d_lt = ref_cmp (<),
     d_is_zero = (\<lambda>x. ref_val x = Some 0),
     d_is_neg = (\<lambda>x. case ref_val x of Some a \<Rightarrow> a < 0 | None \<Rightarrow> False)\<rparr>"

lemma ref_val_round: "ref_val (ref_round r) = Some (round28 r)"
  by (simp add: ref_round_def round_sig_def ulp_of_def)

lemma ref_val_lift:
  "ref_val x = Some a \<Longrightarrow> ref_val y = Some b \<Longrightarrow> ref_val (ref_lift f x y) = Some (round28 (f a b))"
  by (simp add: ref_lift_def ref_val_round)

lemma ref_of_string_literal:
  "decimal_literal s = Some r \<Longrightarrow> \<exists>d. ref_of_string s = Some d \<and> ref_val d = Some r"
  by (auto simp: ref_of_string_def decimal_literal_def power_int_minus field_simps)

lemma decimal_literal_ref_to_fixed:
  "ref_val x = Some a \<Longrightarrow> decimal_literal (ref_to_fixed x) = Some a"
proof (cases x)
  case (Dec m e)
  moreover assume "ref_val x = Some a"
  ultimately show ?thesis
    by (cases "0 \<le> e")
       (auto simp: decimal_literal_fixed_str power_int_def field_simps power_inverse)
qed simp

interpretation ref: decimal_arith ref_decimal ref_val
proof unfold_locales
  show "\<exists>d. d_of_string ref_decimal s = Inr d \<and> ref_val d = Some r"
    if "decimal_literal s = Some r" for s r
    using ref_of_string_literal[OF that] by (auto simp: ref_decimal_def)
  show "ref_val (d_of_number ref_decimal (Fin (of_int i))) = Some (of_int i)"
    if "\<bar>i\<bar> < 2 ^ 53" for i
    using ref_of_string_literal[OF decimal_literal_int, of i] number_to_string_of_int[OF that]
    by (auto simp: ref_decimal_def)
  show "\<exists>d. d_of_string ref_decimal (d_to_fixed ref_decimal x) = Inr d \<and> ref_val d = Some a"
    if "ref_val x = Some a" for x a
    using ref_of_string_literal[OF decimal_literal_ref_to_fixed[OF that]]
    by (auto simp: ref_decimal_def)
qed (auto simp: ref_decimal_def ref_val_lift ref_val_round ref_cmp_def power_int_minus field_simps)

end
