(* ===== verification/Money.thy ===== *)
theory Money
  imports DecimalLib
begin

text \<open>
  The monetary value type (packages/finance/src/money): ISO-4217 precision, construction,
  arithmetic, pro-rata allocation, conversion and comparison. The decimal package is the argument
  \<open>D\<close>; \<open>v\<close> in the lemmas is its value function. Locale-aware display (\<open>format\<close>) is left to the
  platform's \<open>Intl\<close> and not modelled.
\<close>

section \<open>Currency precision\<close>

definition ISO4217_DECIMALS :: "(string, nat) jsmap" where
  "ISO4217_DECIMALS =
     [(''JPY'', 0), (''KRW'', 0), (''VND'', 0), (''ISK'', 0), (''CLP'', 0), (''GNF'', 0), (''UGX'', 0),
      (''RWF'', 0), (''BIF'', 0), (''DJF'', 0), (''KMF'', 0), (''MGA'', 0), (''PYG'', 0), (''XAF'', 0),
      (''XOF'', 0), (''XPF'', 0),
      (''BHD'', 3), (''KWD'', 3), (''OMR'', 3), (''JOD'', 3), (''TND'', 3), (''LYD'', 3), (''IQD'', 3)]"

definition getCurrencyDecimals :: "string \<Rightarrow> nat" where
  "getCurrencyDecimals c =
     (case jm_get ISO4217_DECIMALS (to_upper c) of Some d \<Rightarrow> d | None \<Rightarrow> 2)"

definition getMinorUnitFactor :: "string \<Rightarrow> nat" where
  "getMinorUnitFactor c = 10 ^ getCurrencyDecimals c"

definition isZeroDecimalCurrency :: "string \<Rightarrow> bool" where
  "isZeroDecimalCurrency c \<longleftrightarrow> getCurrencyDecimals c = 0"

definition supportedCurrencies :: "string list" where
  "supportedCurrencies = jm_keys ISO4217_DECIMALS"

section \<open>Construction\<close>

record 'd money =
  m_amount :: 'd
  m_currency :: string

datatype amount_arg = StrArg string | NumArg number

text \<open>\<open>String(amount)\<close>.\<close>

fun arg_string :: "amount_arg \<Rightarrow> string" where
  "arg_string (StrArg s) = s"
| "arg_string (NumArg n) = number_to_string n"

definition money :: "'d decimal_lib \<Rightarrow> amount_arg \<Rightarrow> string \<Rightarrow> 'd money result" where
  "money D amount currency =
     and_then (case amount of
        NumArg n \<Rightarrow> if is_finite n then Inr () else Inl (Err (plain_error ''TypeError''
          (''Money: invalid amount '' @ [quote_char] @ number_to_string n @ [quote_char])))
      | StrArg _ \<Rightarrow> Inr ())
     (\<lambda>_. and_then (d_of_string D (arg_string amount))
     (\<lambda>d. Inr \<lparr>m_amount = d, m_currency = to_upper currency\<rparr>))"

definition CurrencyMismatchError :: "string \<Rightarrow> string \<Rightarrow> js_error" where
  "CurrencyMismatchError a b =
     (coded_error (''Currency mismatch: cannot operate on '' @ a @ '' and '' @ b)
        ''CURRENCY_MISMATCH'' 400)\<lparr>err_name := ''CurrencyMismatchError''\<rparr>"

definition InsufficientFundsError :: js_error where
  "InsufficientFundsError =
     (coded_error ''Account balance is insufficient.'' ''INSUFFICIENT_FUNDS'' 422)
       \<lparr>err_name := ''InsufficientFundsError''\<rparr>"

definition assertSameCurrency :: "'d money \<Rightarrow> 'd money \<Rightarrow> unit result" where
  "assertSameCurrency m other =
     (if m_currency m \<noteq> m_currency other
      then Inl (Err (CurrencyMismatchError (m_currency m) (m_currency other))) else Inr ())"

section \<open>Arithmetic\<close>

definition money_add :: "'d decimal_lib \<Rightarrow> 'd money \<Rightarrow> 'd money \<Rightarrow> 'd money result" where
  "money_add D m other = and_then (assertSameCurrency m other)
     (\<lambda>_. money D (StrArg (d_to_fixed D (d_add D (m_amount m) (m_amount other)))) (m_currency m))"

definition money_subtract :: "'d decimal_lib \<Rightarrow> 'd money \<Rightarrow> 'd money \<Rightarrow> 'd money result" where
  "money_subtract D m other = and_then (assertSameCurrency m other)
     (\<lambda>_. money D (StrArg (d_to_fixed D (d_sub D (m_amount m) (m_amount other)))) (m_currency m))"

definition money_multiply :: "'d decimal_lib \<Rightarrow> 'd money \<Rightarrow> amount_arg \<Rightarrow> 'd money result" where
  "money_multiply D m factor = and_then (d_of_string D (arg_string factor))
     (\<lambda>f. money D (StrArg (d_to_fixed D (d_mul D (m_amount m) f))) (m_currency m))"

text \<open>Adding the remainder to the first bucket.\<close>

fun add_first :: "('d \<Rightarrow> 'd) \<Rightarrow> 'd list \<Rightarrow> 'd list" where
  "add_first f [] = []"
| "add_first f (x # xs) = f x # xs"

definition allocate :: "'d decimal_lib \<Rightarrow> 'd money \<Rightarrow> number list \<Rightarrow> 'd money list result" where
  "allocate D m ratios =
     (if ratios = [] then Inl (Err (plain_error ''Error'' ''Money.allocate: ratios array is empty''))
      else let totalRatio = foldl js_add (Fin 0) ratios in
      if totalRatio = Fin 0
      then Inl (Err (plain_error ''Error'' ''Money.allocate: ratios must sum to a positive value''))
      else let
        decimals = getCurrencyDecimals (m_currency m);
        factor = d_pow D (d_of_number D (Fin 10)) decimals;
        minorTotal = d_to_dp D (d_mul D (m_amount m) factor) 0 ROUND_FLOOR;
        allocations = map (\<lambda>r. d_to_dp D (d_div D (d_mul D minorTotal (d_of_number D r))
                                              (d_of_number D totalRatio)) 0 ROUND_FLOOR) ratios;
        allocated = foldl (d_add D) (d_of_number D (Fin 0)) allocations;
        remainder = d_sub D minorTotal allocated;
        allocations = (if d_gt D remainder (d_of_number D (Fin 0))
                       then add_first (\<lambda>x. d_add D x remainder) allocations else allocations)
      in map_result (\<lambda>minor. money D (StrArg (d_to_fixed_dp D (d_div D minor factor) decimals))
                               (m_currency m)) allocations)"

section \<open>Conversion, display, comparison\<close>

definition toMinorUnits :: "'d decimal_lib \<Rightarrow> 'd money \<Rightarrow> number" where
  "toMinorUnits D m =
     (let decimals = getCurrencyDecimals (m_currency m)
      in d_to_number D (d_to_dp D (d_mul D (m_amount m) (d_pow D (d_of_number D (Fin 10)) decimals))
           0 ROUND_HALF_EVEN))"

definition amount :: "'d decimal_lib \<Rightarrow> 'd money \<Rightarrow> string" where
  "amount D m =
     (let decimals = getCurrencyDecimals (m_currency m)
      in d_to_fixed_dp D (d_to_dp D (m_amount m) decimals ROUND_HALF_EVEN) decimals)"

definition money_toString :: "'d decimal_lib \<Rightarrow> 'd money \<Rightarrow> string" where
  "money_toString D m = amount D m @ '' '' @ m_currency m"

definition money_toJSON :: "'d decimal_lib \<Rightarrow> 'd money \<Rightarrow> json" where
  "money_toJSON D m = JObj [(''amount'', JStr (amount D m)), (''currency'', JStr (m_currency m))]"

definition money_equals :: "'d decimal_lib \<Rightarrow> 'd money \<Rightarrow> 'd money \<Rightarrow> bool result" where
  "money_equals D m other =
     and_then (assertSameCurrency m other) (\<lambda>_. Inr (d_eq D (m_amount m) (m_amount other)))"

definition money_greaterThan :: "'d decimal_lib \<Rightarrow> 'd money \<Rightarrow> 'd money \<Rightarrow> bool result" where
  "money_greaterThan D m other =
     and_then (assertSameCurrency m other) (\<lambda>_. Inr (d_gt D (m_amount m) (m_amount other)))"

definition money_lessThan :: "'d decimal_lib \<Rightarrow> 'd money \<Rightarrow> 'd money \<Rightarrow> bool result" where
  "money_lessThan D m other =
     and_then (assertSameCurrency m other) (\<lambda>_. Inr (d_lt D (m_amount m) (m_amount other)))"

definition money_isZero :: "'d decimal_lib \<Rightarrow> 'd money \<Rightarrow> bool" where
  "money_isZero D m = d_is_zero D (m_amount m)"

definition money_isNegative :: "'d decimal_lib \<Rightarrow> 'd money \<Rightarrow> bool" where
  "money_isNegative D m = d_is_neg D (m_amount m)"

section \<open>Correctness under the decimal contract\<close>

lemma to_upper_currency [simp]: "getCurrencyDecimals (to_upper c) = getCurrencyDecimals c"
  by (simp add: getCurrencyDecimals_def)

lemma getCurrencyDecimals_le: "getCurrencyDecimals c \<le> 3"
proof -
  have "jm_get ISO4217_DECIMALS k = Some d \<Longrightarrow> d \<le> 3" for k d
    by (simp add: ISO4217_DECIMALS_def split: if_splits)
  then show ?thesis by (auto simp: getCurrencyDecimals_def split: option.splits)
qed

text \<open>A well-formed monetary value: its currency code is in upper case.\<close>

definition money_wf :: "'d money \<Rightarrow> bool" where
  "money_wf m \<longleftrightarrow> to_upper (m_currency m) = m_currency m"

text \<open>The value of an amount argument that is a plain literal or an integer.\<close>

fun arg_value :: "amount_arg \<Rightarrow> rat option" where
  "arg_value (StrArg s) = decimal_literal s"
| "arg_value (NumArg (Fin r)) = (if r = of_int \<lfloor>r\<rfloor> \<and> \<bar>\<lfloor>r\<rfloor>\<bar> < 2 ^ 53 then Some r else None)"
| "arg_value (NumArg _) = None"

context decimal_arith
begin

lemma of_arg:
  assumes "arg_value a = Some r"
  shows "\<exists>d. d_of_string D (arg_string a) = Inr d \<and> v d = Some r"
proof (cases a)
  case (StrArg s)
  with assms show ?thesis by (simp add: of_string)
next
  case (NumArg n)
  with assms obtain i where "n = Fin (of_int i)" "r = of_int i" "\<bar>i\<bar> < 2 ^ 53"
    by (cases n) (auto split: if_splits)
  then have "arg_string a = int_to_string i"
    using NumArg by (simp only: arg_string.simps number_to_string_of_int)
  then show ?thesis
    using of_string[OF decimal_literal_int, of i] \<open>r = of_int i\<close> by simp
qed

lemma money_of_arg:
  assumes "arg_value a = Some r"
  shows "\<exists>m. money D a c = Inr m \<and> v (m_amount m) = Some r \<and> m_currency m = to_upper c"
proof -
  have "(case a of NumArg n \<Rightarrow> is_finite n | StrArg _ \<Rightarrow> True)"
    using assms by (cases a; cases "case a of NumArg n \<Rightarrow> n | _ \<Rightarrow> NaN") (auto simp: is_finite_def)
  then show ?thesis
    using of_arg[OF assms] by (auto simp: money_def split: amount_arg.splits)
qed

lemma money_of_fixed:
  assumes "v x = Some a"
  shows "\<exists>m. money D (StrArg (d_to_fixed D x)) c = Inr m \<and> v (m_amount m) = Some a
           \<and> m_currency m = to_upper c"
  using to_fixed[OF assms] by (auto simp: money_def)

lemma add_exact:
  "v x = Some a \<Longrightarrow> v y = Some b \<Longrightarrow> fits28 (a + b) \<Longrightarrow> v (d_add D x y) = Some (a + b)"
  using add[of x a y b] by (simp add: fits28_range fits28_round)

lemma sub_exact:
  "v x = Some a \<Longrightarrow> v y = Some b \<Longrightarrow> fits28 (a - b) \<Longrightarrow> v (d_sub D x y) = Some (a - b)"
  using sub[of x a y b] by (simp add: fits28_range fits28_round)

lemma mul_exact:
  "v x = Some a \<Longrightarrow> v y = Some b \<Longrightarrow> fits28 (a * b) \<Longrightarrow> v (d_mul D x y) = Some (a * b)"
  using mul[of x a y b] by (simp add: fits28_range fits28_round)

lemma div_exact:
  "v x = Some a \<Longrightarrow> v y = Some b \<Longrightarrow> b \<noteq> 0 \<Longrightarrow> fits28 (a / b) \<Longrightarrow> v (d_div D x y) = Some (a / b)"
  using div[of x a y b] by (simp add: fits28_range fits28_round)

lemma factor_val: "n \<le> 27 \<Longrightarrow> v (d_pow D (d_of_number D (Fin 10)) n) = Some (10 ^ n)"
proof -
  assume n: "n \<le> 27"
  have "fits28 (10 ^ n)"
  proof (rule fits28I[of _ "10 ^ n" 0])
    have "(10 :: int) ^ n \<le> 10 ^ 27" using n by (intro power_increasing) auto
    then show "\<bar>10 ^ n :: int\<bar> < 10 ^ 28" by simp
  qed auto
  moreover have "v (d_of_number D (Fin 10)) = Some 10" using of_number[of 10] by simp
  ultimately show ?thesis using pow[of _ 10 n] by (simp add: fits28_range fits28_round)
qed

lemma money_add_exact:
  assumes "v (m_amount m) = Some a" "v (m_amount m') = Some b" "fits28 (a + b)"
    and "m_currency m' = m_currency m"
  shows "\<exists>s. money_add D m m' = Inr s \<and> v (m_amount s) = Some (a + b)
           \<and> m_currency s = to_upper (m_currency m)"
  using money_of_fixed[OF add_exact[OF assms(1-3)]] assms(4)
  by (simp add: money_add_def assertSameCurrency_def)

lemma money_subtract_exact:
  assumes "v (m_amount m) = Some a" "v (m_amount m') = Some b" "fits28 (a - b)"
    and "m_currency m' = m_currency m"
  shows "\<exists>s. money_subtract D m m' = Inr s \<and> v (m_amount s) = Some (a - b)
           \<and> m_currency s = to_upper (m_currency m)"
  using money_of_fixed[OF sub_exact[OF assms(1-3)]] assms(4)
  by (simp add: money_subtract_def assertSameCurrency_def)

lemma money_multiply_exact:
  assumes "v (m_amount m) = Some a" "arg_value f = Some b" "fits28 (a * b)"
  shows "\<exists>s. money_multiply D m f = Inr s \<and> v (m_amount s) = Some (a * b)
           \<and> m_currency s = to_upper (m_currency m)"
proof -
  obtain y where y: "d_of_string D (arg_string f) = Inr y" "v y = Some b"
    using of_arg[OF assms(2)] by blast
  show ?thesis
    using money_of_fixed[OF mul_exact[OF assms(1) y(2) assms(3)]] y(1)
    by (simp add: money_multiply_def)
qed

lemma amount_rounded:
  assumes "v (m_amount m) = Some a"
  shows "amount D m = fixed_str (round_half_even (a * 10 ^ getCurrencyDecimals (m_currency m)))
                        (getCurrencyDecimals (m_currency m))"
  using to_dp[OF assms, of "getCurrencyDecimals (m_currency m)" ROUND_HALF_EVEN]
  by (auto simp: amount_def Let_def intro!: to_fixed_dp)

lemma toMinorUnits_val:
  assumes "v (m_amount m) = Some a" and "fits28 (a * 10 ^ getCurrencyDecimals (m_currency m))"
  shows "toMinorUnits D m
    = to_double (of_int (round_half_even (a * 10 ^ getCurrencyDecimals (m_currency m))))"
proof -
  let ?d = "getCurrencyDecimals (m_currency m)"
  have "v (d_mul D (m_amount m) (d_pow D (d_of_number D (Fin 10)) ?d)) = Some (a * 10 ^ ?d)"
    using assms getCurrencyDecimals_le[of "m_currency m"]
    by (intro mul_exact factor_val) auto
  then show ?thesis
    unfolding toMinorUnits_def Let_def using to_number[OF to_dp[of _ _ 0 ROUND_HALF_EVEN]] by simp
qed

end

section \<open>Allocation\<close>

text \<open>
  The specification in minor units: every bucket gets the floor of its share, and what is left of
  the total goes to the first bucket.
\<close>

definition alloc_spec :: "int \<Rightarrow> int list \<Rightarrow> int list" where
  "alloc_spec tot ratios =
     (let shares = map (\<lambda>r. tot * r div sum_list ratios) ratios
      in add_first (\<lambda>x. x + (tot - sum_list shares)) shares)"

lemma length_add_first [simp]: "length (add_first f xs) = length xs"
  by (cases xs) auto

lemma sum_list_add_first: "xs \<noteq> [] \<Longrightarrow> sum_list (add_first (\<lambda>x. x + c) xs) = sum_list xs + (c :: int)"
  by (cases xs) auto

lemma length_alloc_spec [simp]: "length (alloc_spec tot ratios) = length ratios"
  by (simp add: alloc_spec_def Let_def)

lemma alloc_spec_sum: "ratios \<noteq> [] \<Longrightarrow> sum_list (alloc_spec tot ratios) = tot"
  by (simp add: alloc_spec_def Let_def sum_list_add_first)

text \<open>The floors lose less than one minor unit per bucket.\<close>

lemma floor_shares_le:
  "0 < T \<Longrightarrow> T * (\<Sum>r\<leftarrow>rs. M * r div T) \<le> (M :: int) * sum_list rs"
proof (induction rs)
  case (Cons r rs)
  have "T * (M * r div T) \<le> M * r"
    using Cons.prems pos_mod_sign[of T "M * r"] minus_mult_div_eq_mod[of "M * r" T] by linarith
  with Cons show ?case by (simp add: algebra_simps)
qed simp

lemma floor_shares_ge:
  "0 < T \<Longrightarrow> rs \<noteq> [] \<Longrightarrow> (M :: int) * sum_list rs < T * ((\<Sum>r\<leftarrow>rs. M * r div T) + int (length rs))"
proof (induction rs)
  case (Cons r rs)
  have r: "M * r < T * (M * r div T) + T"
    using Cons.prems(1) pos_mod_bound[of T "M * r"] minus_mult_div_eq_mod[of "M * r" T] by linarith
  show ?case
  proof (cases "rs = []")
    case True
    with r show ?thesis by (simp add: algebra_simps)
  next
    case False
    with Cons have "M * sum_list rs < T * ((\<Sum>r\<leftarrow>rs. M * r div T) + int (length rs))" by blast
    with r show ?thesis by (simp add: algebra_simps)
  qed
qed simp

lemma alloc_remainder_bounds:
  assumes "0 < sum_list rs"
  shows "0 \<le> M - (\<Sum>r\<leftarrow>rs. M * r div sum_list rs)"
    and "M - (\<Sum>r\<leftarrow>rs. M * r div sum_list rs) < int (length rs)"
proof -
  let ?T = "sum_list rs" and ?S = "\<Sum>r\<leftarrow>rs. M * r div sum_list rs"
  have "rs \<noteq> []" using assms by auto
  then have "?T * ?S \<le> ?T * M" "?T * M < ?T * (?S + int (length rs))"
    using floor_shares_le[OF assms, of M rs] floor_shares_ge[OF assms, of rs M]
    by (simp_all add: mult.commute)
  with assms show "0 \<le> M - ?S" "M - ?S < int (length rs)" by simp_all
qed

lemma abs_div_le: "0 < T \<Longrightarrow> \<bar>n div T\<bar> \<le> \<bar>n :: int\<bar>"
proof -
  assume T: "0 < T"
  have e: "n = T * (n div T) + n mod T" by simp
  have m: "0 \<le> n mod T" "n mod T < T" using T by auto
  show ?thesis
  proof (cases "0 \<le> n div T")
    case True
    then have "n div T \<le> T * (n div T)" using T by (simp add: mult_le_cancel_right1)
    with True e m show ?thesis by linarith
  next
    case False
    then have "T * (n div T) + T \<le> n div T + 1"
      using T mult_right_mono_neg[of 1 T "n div T + 1"] by (simp add: algebra_simps)
    with False e m show ?thesis by linarith
  qed
qed

lemma sum_abs_shares_le:
  "0 < T \<Longrightarrow> (\<Sum>r\<leftarrow>rs. \<bar>M * r div T\<bar>) \<le> \<bar>M :: int\<bar> * (\<Sum>r\<leftarrow>rs. \<bar>r\<bar>)"
proof (induction rs)
  case (Cons r rs)
  then show ?case using abs_div_le[of T "M * r"] by (simp add: algebra_simps abs_mult)
qed simp

lemma abs_le_sum_abs: "r \<in> set rs \<Longrightarrow> \<bar>r\<bar> \<le> (\<Sum>r\<leftarrow>rs. \<bar>r :: int\<bar>)"
  by (rule member_le_sum_list) auto

lemma abs_sum_list_le: "\<bar>sum_list rs\<bar> \<le> (\<Sum>r\<leftarrow>rs. \<bar>r :: int\<bar>)"
  by (induction rs) auto

lemma decimal_range_quotient:
  assumes n: "\<bar>n\<bar> < 10 ^ 27" and T: "0 < T" "T < 2 ^ 53"
  shows "decimal_range (of_int n / of_int T)"
proof (cases "n = 0")
  case False
  let ?q = "\<bar>of_int n / of_int T :: rat\<bar>"
  have q: "?q = of_int \<bar>n\<bar> / of_int T" using T by (simp add: abs_divide)
  have "(of_int T :: rat) \<le> 2 ^ 53" using T by (metis less_imp_le of_int_le_iff of_int_numeral of_int_power)
  also have "(2 :: rat) ^ 53 \<le> 10 ^ 53" by (rule power_mono) auto
  also have "(10 :: rat) ^ 53 \<le> 10 ^ dec_limit"
    by (intro power_increasing) (auto simp: dec_limit_def)
  finally have "1 / 10 ^ dec_limit \<le> of_int \<bar>n\<bar> / (of_int T :: rat)"
    using False T by (intro frac_le) auto
  moreover have "of_int \<bar>n\<bar> / (of_int T :: rat) \<le> of_int \<bar>n\<bar>"
    using T by (simp add: divide_le_eq mult_le_cancel_left1)
  moreover have "(of_int \<bar>n\<bar> :: rat) < 10 ^ 27"
    using n by (metis of_int_less_iff of_int_numeral of_int_power)
  moreover have "(10 :: rat) ^ 27 \<le> 10 ^ dec_limit"
    by (intro power_increasing) (auto simp: dec_limit_def)
  ultimately show ?thesis unfolding decimal_range_def q by linarith
qed (simp add: decimal_range_def)

text \<open>The size limits under which 28 digits are enough for every intermediate result.\<close>

definition alloc_bounds :: "int \<Rightarrow> int list \<Rightarrow> bool" where
  "alloc_bounds tot ratios \<longleftrightarrow>
     0 < sum_list ratios \<and> (\<Sum>r\<leftarrow>ratios. \<bar>r\<bar>) < 2 ^ 53 \<and> \<bar>tot\<bar> * (\<Sum>r\<leftarrow>ratios. \<bar>r\<bar>) < 10 ^ 27"

context decimal_arith
begin

lemma of_number_int: "\<bar>i\<bar> < 2 ^ 53 \<Longrightarrow> v (d_of_number D (Fin (of_int i))) = Some (of_int i)"
  by (rule of_number)

lemma share_val:
  assumes M: "v x = Some (of_int M)" and n: "\<bar>M * r\<bar> < 10 ^ 27"
    and T: "0 < T" "T < 2 ^ 53" and r: "\<bar>r\<bar> < 2 ^ 53"
  shows "v (d_to_dp D (d_div D (d_mul D x (d_of_number D (Fin (of_int r))))
             (d_of_number D (Fin (of_int T)))) 0 ROUND_FLOOR) = Some (of_int (M * r div T))"
proof -
  have "fits28 (of_int (M * r))" using n by (intro fits28_of_int) simp
  then have "v (d_mul D x (d_of_number D (Fin (of_int r)))) = Some (of_int (M * r))"
    using mul_exact[OF M of_number_int[OF r]] by simp
  moreover have "v (d_of_number D (Fin (of_int T))) = Some (of_int T)"
    using T by (intro of_number_int) simp
  ultimately have "v (d_div D (d_mul D x (d_of_number D (Fin (of_int r)))) (d_of_number D (Fin (of_int T))))
      = Some (round28 (of_int (M * r) / of_int T))"
    using T decimal_range_quotient[OF n T] by (intro div) auto
  moreover have "\<lfloor>round28 (of_int (M * r) / of_int T)\<rfloor> = \<lfloor>of_int (M * r) / (of_int T :: rat)\<rfloor>"
    using n T by (intro floor_round_sig) auto
  ultimately show ?thesis
    by (simp add: to_dp floor_divide_of_int_eq del: of_int_mult)
qed

lemma foldl_add_ints:
  "list_all2 (\<lambda>x i. v x = Some (of_int i)) xs is \<Longrightarrow> v s = Some (of_int i0) \<Longrightarrow>
    \<bar>i0\<bar> + (\<Sum>i\<leftarrow>is. \<bar>i\<bar>) < 10 ^ 28 \<Longrightarrow> v (foldl (d_add D) s xs) = Some (of_int (i0 + sum_list is))"
proof (induction xs "is" arbitrary: s i0 rule: list_all2_induct)
  case (Cons x xs i "is")
  have nn: "0 \<le> (\<Sum>i\<leftarrow>is. \<bar>i\<bar>)" by (rule sum_list_nonneg) auto
  have "fits28 (of_int (i0 + i))"
    using Cons.prems(2) nn by (intro fits28_of_int) auto
  then have "v (d_add D s x) = Some (of_int (i0 + i))"
    using add_exact[OF Cons.prems(1) Cons.hyps(1)] by simp
  then have "v (foldl (d_add D) (d_add D s x) xs) = Some (of_int (i0 + i + sum_list is))"
    using Cons.prems(2) by (intro Cons.IH) auto
  then show ?case by (simp add: add.assoc)
qed simp

lemma minor_to_money:
  assumes x: "v x = Some (of_int i)" and i: "\<bar>i\<bar> < 10 ^ 28" and f: "v f = Some (10 ^ d)" and d: "d \<le> 3"
  shows "\<exists>m. money D (StrArg (d_to_fixed_dp D (d_div D x f) d)) c = Inr m
           \<and> v (m_amount m) = Some (of_int i / 10 ^ d) \<and> m_currency m = to_upper c"
proof -
  have "fits28 (of_int i / 10 ^ d)"
    using i d by (intro fits28I[of _ i d]) (auto simp: dec_limit_def)
  then have "v (d_div D x f) = Some (of_int i / 10 ^ d)"
    using div_exact[OF x f] by simp
  then have "d_to_fixed_dp D (d_div D x f) d = fixed_str i d"
    by (rule to_fixed_dp) simp
  then show ?thesis
    using money_of_arg[of "StrArg (fixed_str i d)" _ c] by (simp add: decimal_literal_fixed_str)
qed

lemma add_first_val:
  assumes rel: "list_all2 (\<lambda>x i. v x = Some (of_int i)) xs ks" and r: "v r = Some (of_int c)"
    and c: "0 < c" and b: "\<And>i. i \<in> set ks \<Longrightarrow> \<bar>i\<bar> + c < 10 ^ 28"
  shows "list_all2 (\<lambda>x i. v x = Some (of_int i)) (add_first (\<lambda>x. d_add D x r) xs) (add_first (\<lambda>i. i + c) ks)"
proof (cases xs)
  case (Cons x xs')
  then obtain i ks' where 2: "ks = i # ks'" "v x = Some (of_int i)"
      "list_all2 (\<lambda>x i. v x = Some (of_int i)) xs' ks'"
    using rel by (auto simp: list_all2_Cons1)
  have "fits28 (of_int (i + c))" using b[of i] 2 c by (intro fits28_of_int) auto
  then have "v (d_add D x r) = Some (of_int (i + c))"
    using add_exact[of x "of_int i" r "of_int c"] 2 r by simp
  with 2 Cons show ?thesis by simp
qed (use rel in simp)

lemma allocate_refines:
  fixes m :: "'d money" and rs :: "int list"
  defines "d \<equiv> getCurrencyDecimals (m_currency m)"
  assumes a: "v (m_amount m) = Some a" and fit: "fits28 (a * 10 ^ d)"
    and bounds: "alloc_bounds \<lfloor>a * 10 ^ d\<rfloor> rs"
  shows "\<exists>ms. allocate D m (map (\<lambda>r. Fin (of_int r)) rs) = Inr ms \<and>
           list_all2 (\<lambda>m' x. v (m_amount m') = Some (of_int x / 10 ^ d)
                             \<and> m_currency m' = to_upper (m_currency m))
             ms (alloc_spec \<lfloor>a * 10 ^ d\<rfloor> rs)"
proof -
  let ?num = "\<lambda>i. Fin (of_int i)" and ?R = "\<lambda>x i. v x = Some (of_int i)"
  define M where "M = \<lfloor>a * 10 ^ d\<rfloor>"
  define T where "T = sum_list rs"
  define f where "f = d_pow D (d_of_number D (Fin 10)) d"
  define mt where "mt = d_to_dp D (d_mul D (m_amount m) f) 0 ROUND_FLOOR"
  define xs where "xs = map (\<lambda>r. d_to_dp D (d_div D (d_mul D mt (d_of_number D (?num r)))
                                   (d_of_number D (?num T))) 0 ROUND_FLOOR) rs"
  define ks where "ks = map (\<lambda>r. M * r div T) rs"
  define rem where "rem = d_sub D mt (foldl (d_add D) (d_of_number D (Fin 0)) xs)"
  define xs' where "xs' = (if d_gt D rem (d_of_number D (Fin 0))
                           then add_first (\<lambda>x. d_add D x rem) xs else xs)"
  have T: "0 < T" "(\<Sum>r\<leftarrow>rs. \<bar>r\<bar>) < 2 ^ 53" "\<bar>M\<bar> * (\<Sum>r\<leftarrow>rs. \<bar>r\<bar>) < 10 ^ 27"
    using bounds by (simp_all add: alloc_bounds_def M_def T_def)
  have T53: "T < 2 ^ 53" using T(2) abs_sum_list_le[of rs] by (simp add: T_def)
  have total: "foldl js_add (Fin 0) (map ?num rs) = ?num T"
    using foldl_js_add_ints[of 0 rs] T(2) by (simp add: T_def)
  have d3: "d \<le> 3" unfolding d_def by (rule getCurrencyDecimals_le)
  have fv: "v f = Some (10 ^ d)" unfolding f_def using d3 by (intro factor_val) simp
  have mv: "?R mt M"
    using to_dp[OF mul_exact[OF a fv fit], of 0 ROUND_FLOOR] by (simp add: mt_def M_def)
  have xv: "list_all2 ?R xs ks"
    unfolding xs_def ks_def list_all2_map1 list_all2_map2
  proof (rule list.rel_refl_strong)
    fix r assume r: "r \<in> set rs"
    then have "\<bar>M\<bar> * \<bar>r\<bar> \<le> \<bar>M\<bar> * (\<Sum>r\<leftarrow>rs. \<bar>r\<bar>)"
      by (intro mult_left_mono abs_le_sum_abs) auto
    then have n: "\<bar>M * r\<bar> < 10 ^ 27" using T(3) by (simp add: abs_mult)
    have r53: "\<bar>r\<bar> < 2 ^ 53" using abs_le_sum_abs[OF r] T(2) by simp
    show "?R (d_to_dp D (d_div D (d_mul D mt (d_of_number D (?num r))) (d_of_number D (?num T)))
        0 ROUND_FLOOR) (M * r div T)"
      by (rule share_val[OF mv n T(1) T53 r53])
  qed
  have isum: "(\<Sum>i\<leftarrow>ks. \<bar>i\<bar>) < 10 ^ 27"
    using sum_abs_shares_le[OF T(1), of M rs] T(3) by (simp add: ks_def o_def)
  have Mle: "\<bar>M\<bar> < 10 ^ 27"
  proof -
    have "1 \<le> (\<Sum>r\<leftarrow>rs. \<bar>r\<bar>)" using T(1) abs_sum_list_le[of rs] by (simp add: T_def)
    then have "\<bar>M\<bar> * 1 \<le> \<bar>M\<bar> * (\<Sum>r\<leftarrow>rs. \<bar>r\<bar>)" by (intro mult_left_mono) auto
    with T(3) show ?thesis by simp
  qed
  have zero: "v (d_of_number D (Fin 0)) = Some (of_int 0)" using of_number_int[of 0] by simp
  have sv: "?R (foldl (d_add D) (d_of_number D (Fin 0)) xs) (sum_list ks)"
    using foldl_add_ints[OF xv zero] isum by simp
  have sle: "\<bar>sum_list ks\<bar> < 10 ^ 27" using abs_sum_list_le[of ks] isum by simp
  have rv: "?R rem (M - sum_list ks)"
    unfolding rem_def using sub_exact[OF mv sv] fits28_of_int[of "M - sum_list ks"] Mle sle by simp
  have r0: "0 \<le> M - sum_list ks"
    using alloc_remainder_bounds(1)[of rs M] T(1) by (simp add: ks_def T_def)
  have gt: "d_gt D rem (d_of_number D (Fin 0)) \<longleftrightarrow> 0 < M - sum_list ks"
    using gt[OF rv zero] by simp
  have ibound: "\<bar>i\<bar> < 10 ^ 27" if "i \<in> set ks" for i
    using abs_le_sum_abs[OF that] isum by simp
  have spec: "alloc_spec M rs = add_first (\<lambda>i. i + (M - sum_list ks)) ks"
    by (simp add: alloc_spec_def Let_def ks_def T_def)
  have xv': "list_all2 ?R xs' (alloc_spec M rs)"
  proof (cases "0 < M - sum_list ks")
    case True
    then show ?thesis
      unfolding xs'_def spec using gt ibound Mle sle
      by (auto intro!: add_first_val[OF xv rv] simp: abs_less_iff dest!: ibound)
  next
    case False
    with r0 have "M - sum_list ks = 0" by simp
    moreover have "add_first (\<lambda>i. i + 0) ks = ks" by (cases ks) auto
    ultimately have "alloc_spec M rs = ks" by (simp only: spec)
    with xv gt False show ?thesis by (simp add: xs'_def)
  qed
  have sbound: "\<bar>i\<bar> < 10 ^ 28" if "i \<in> set (alloc_spec M rs)" for i
    using that Mle sle ibound unfolding spec by (cases ks) (force simp: abs_less_iff)+
  have "list_all2 (\<lambda>x i. \<exists>m'. money D (StrArg (d_to_fixed_dp D (d_div D x f) d)) (m_currency m) = Inr m'
      \<and> v (m_amount m') = Some (of_int i / 10 ^ d) \<and> m_currency m' = to_upper (m_currency m))
      xs' (alloc_spec M rs)"
    using xv' by (rule list.rel_mono_strong) (blast intro: minor_to_money[OF _ sbound fv d3])
  from map_result_list_all2[OF this]
  have "\<exists>ms. map_result (\<lambda>x. money D (StrArg (d_to_fixed_dp D (d_div D x f) d)) (m_currency m)) xs' = Inr ms
      \<and> list_all2 (\<lambda>m' x. v (m_amount m') = Some (of_int x / 10 ^ d)
          \<and> m_currency m' = to_upper (m_currency m)) ms (alloc_spec M rs)" .
  moreover have "allocate D m (map ?num rs)
      = map_result (\<lambda>x. money D (StrArg (d_to_fixed_dp D (d_div D x f) d)) (m_currency m)) xs'"
    using T(1) total unfolding T_def
    by (auto simp: allocate_def Let_def xs'_def rem_def xs_def mt_def f_def d_def T_def o_def)
  ultimately show ?thesis unfolding M_def by simp
qed

end

section \<open>Properties\<close>

lemma list_all2_map_witness:
  "list_all2 (\<lambda>x i. P x (f i)) xs ks \<Longrightarrow> list_all2 P xs (map f ks)"
  by (simp add: list_all2_map2)

lemma sum_list_div: "(\<Sum>i\<leftarrow>ks. of_int i / c) = of_int (sum_list ks) / (c :: rat)"
  by (induction ks) (simp_all add: add_divide_distrib)

lemma floor_scaled_gap:
  "0 \<le> a - of_int \<lfloor>a * 10 ^ d\<rfloor> / (10 ^ d :: rat)"
  "a - of_int \<lfloor>a * 10 ^ d\<rfloor> / (10 ^ d :: rat) < 1 / 10 ^ d"
proof -
  define A where "A = a * 10 ^ d"
  have "a = A / 10 ^ d" by (simp add: A_def)
  then have eq: "a - of_int \<lfloor>A\<rfloor> / 10 ^ d = (A - of_int \<lfloor>A\<rfloor>) / 10 ^ d"
    by (simp add: diff_divide_distrib)
  have "0 \<le> A - of_int \<lfloor>A\<rfloor>" "A - of_int \<lfloor>A\<rfloor> < 1" by linarith+
  then have "0 \<le> (A - of_int \<lfloor>A\<rfloor>) / 10 ^ d" "(A - of_int \<lfloor>A\<rfloor>) / 10 ^ d < 1 / 10 ^ d"
    by (simp_all add: divide_strict_right_mono)
  then show "0 \<le> a - of_int \<lfloor>a * 10 ^ d\<rfloor> / 10 ^ d" "a - of_int \<lfloor>a * 10 ^ d\<rfloor> / 10 ^ d < 1 / 10 ^ d"
    unfolding eq[unfolded A_def] by (simp_all add: A_def eq[unfolded A_def])
qed

text \<open>C1: \<open>Money.allocate\<close> implements the allocation specification. For integer ratios with a
  positive sum, within the stated size limits, it returns one value per ratio in the same
  currency, and the values in minor units are those of \<open>alloc_spec\<close> on the floor of the amount in
  minor units: rounding to 28 digits changes no bucket.\<close>

theorem allocate_implements_spec:
  fixes m :: "'d money"
  assumes "decimal_arith D v" and "money_wf m"
    and "d = getCurrencyDecimals (m_currency m)"
    and "v (m_amount m) = Some a" and "fits28 (a * 10 ^ d)"
    and "alloc_bounds \<lfloor>a * 10 ^ d\<rfloor> rs"
  shows "\<exists>ms. allocate D m (map (\<lambda>r. Fin (of_int r)) rs) = Inr ms \<and>
           list_all2 (\<lambda>m' x. v (m_amount m') = Some (of_int x / 10 ^ d) \<and> m_currency m' = m_currency m)
             ms (alloc_spec \<lfloor>a * 10 ^ d\<rfloor> rs)"
  using decimal_arith.allocate_refines[OF assms(1,4)] assms(2,3,5,6) by (simp add: money_wf_def)

text \<open>The witness: 22.99 USD split 70 to 30 gives 16.10 and 6.89.\<close>

theorem allocate_implements_spec_witness:
  "\<exists>ms. allocate ref_decimal \<lparr>m_amount = Dec 2299 (-2), m_currency = ''USD''\<rparr> [Fin 70, Fin 30] = Inr ms \<and>
     list_all2 (\<lambda>m' x. ref_val (m_amount m') = Some (of_int x / 100) \<and> m_currency m' = ''USD'')
       ms [1610, 689]"
proof -
  let ?m = "\<lparr>m_amount = Dec 2299 (-2), m_currency = ''USD''\<rparr>"
  have d: "2 = getCurrencyDecimals (m_currency ?m)" and wf: "money_wf ?m"
    by code_simp+
  have fit: "fits28 (2299 / 100 * 10 ^ 2)"
    by (rule fits28I[of _ 2299 0]) auto
  have b: "alloc_bounds \<lfloor>2299 / 100 * 10 ^ 2 :: rat\<rfloor> [70, 30]"
    by (simp add: alloc_bounds_def)
  have "alloc_spec 2299 [70, 30] = [1610, 689]" by code_simp
  then show ?thesis
    using allocate_implements_spec[OF ref.decimal_arith_axioms wf d _ fit b]
    by (simp add: power_int_minus)
qed



text \<open>The error branches of \<open>allocate\<close>.\<close>

lemma allocate_empty: "allocate D m [] = Inl (Err (plain_error ''Error'' ''Money.allocate: ratios array is empty''))"
  by (simp add: allocate_def)

lemma allocate_zero_total:
  "rs \<noteq> [] \<Longrightarrow> foldl js_add (Fin 0) rs = Fin 0 \<Longrightarrow> allocate D m rs
     = Inl (Err (plain_error ''Error'' ''Money.allocate: ratios must sum to a positive value''))"
  by (simp add: allocate_def Let_def)



text \<open>C4: the displayed amount is within half a minor unit of the value, and reading it back gives
  a value that displays the same and has the same number of minor units: display and minor-unit
  conversion round alike and rounding is idempotent.\<close>

theorem amount_roundtrip:
  fixes m :: "'d money"
  assumes "decimal_arith D v" and "d = getCurrencyDecimals (m_currency m)"
    and "v (m_amount m) = Some a" and "fits28 (a * 10 ^ d)"
    and "fits28 (of_int (round_half_even (a * 10 ^ d)))"
  shows "\<exists>m' b. money D (StrArg (amount D m)) (m_currency m) = Inr m' \<and> v (m_amount m') = Some b \<and>
           \<bar>b - a\<bar> \<le> 1 / (2 * 10 ^ d) \<and> amount D m' = amount D m \<and> toMinorUnits D m' = toMinorUnits D m"
proof -
  define k where "k = round_half_even (a * 10 ^ d)"
  have am: "amount D m = fixed_str k d"
    using decimal_arith.amount_rounded[OF assms(1,3)] assms(2) by (simp add: k_def)
  obtain m' where m': "money D (StrArg (amount D m)) (m_currency m) = Inr m'"
      "v (m_amount m') = Some (of_int k / 10 ^ d)" "m_currency m' = to_upper (m_currency m)"
    using decimal_arith.money_of_arg[OF assms(1), of "StrArg (amount D m)"]
    by (auto simp: am decimal_literal_fixed_str)
  have d': "getCurrencyDecimals (m_currency m') = d" using m'(3) assms(2) by simp
  have am': "amount D m' = fixed_str k d"
    using decimal_arith.amount_rounded[OF assms(1) m'(2)] by (simp add: d')
  have mu: "toMinorUnits D m' = toMinorUnits D m"
    using decimal_arith.toMinorUnits_val[OF assms(1) m'(2)]
      decimal_arith.toMinorUnits_val[OF assms(1,3)] assms(2,4,5)
    by (simp add: d' k_def)
  have "\<bar>of_int k - a * 10 ^ d\<bar> \<le> 1 / 2"
    unfolding k_def by (rule round_half_even_error)
  then have "\<bar>of_int k - a * 10 ^ d\<bar> / 10 ^ d \<le> 1 / 2 / 10 ^ d"
    by (rule divide_right_mono) simp
  moreover have "of_int k / 10 ^ d - a = (of_int k - a * 10 ^ d) / 10 ^ d"
    by (simp add: diff_divide_distrib)
  ultimately have "\<bar>of_int k / 10 ^ d - a\<bar> \<le> 1 / 2 / 10 ^ d"
    by (simp add: abs_divide)
  then show ?thesis using m' am am' mu by auto
qed

text \<open>The witness: 22.9885 USD displays as 22.99.\<close>

theorem amount_roundtrip_witness:
  "amount ref_decimal \<lparr>m_amount = Dec 229885 (-4), m_currency = ''USD''\<rparr> = ''22.99'' \<and>
   (\<exists>m'. money ref_decimal (StrArg (amount ref_decimal \<lparr>m_amount = Dec 229885 (-4), m_currency = ''USD''\<rparr>)) ''USD'' = Inr m' \<and>
     amount ref_decimal m' = ''22.99'')"
proof -
  let ?m = "\<lparr>m_amount = Dec 229885 (-4), m_currency = ''USD''\<rparr>"
  have d: "2 = getCurrencyDecimals (m_currency ?m)" by code_simp
  have v: "ref_val (m_amount ?m) = Some (229885 / 10000)" by (simp add: power_int_minus)
  have f: "fits28 (229885 / 10000 * 10 ^ 2)"
    by (rule fits28I[of _ 229885 2]) (simp_all add: dec_limit_def)
  have g: "fits28 (of_int (round_half_even (229885 / 10000 * 10 ^ 2)))"
    by (rule fits28_of_int) code_simp
  have "amount ref_decimal ?m = ''22.99''" by code_simp
  then show ?thesis using amount_roundtrip[OF ref.decimal_arith_axioms d v f g] by auto
qed

end
