(* ===== verification/Printing.thy ===== *)
theory Printing
  imports DecimalLib
begin

text \<open>
  Doubles that stand for decimal fractions. A rate such as \<open>0.2\<close> is not a double; the lemmas show
  that the shortest-digits search finds the decimal again, so passing such a number through
  \<open>String(...)\<close> into the decimal package loses nothing.
\<close>

lemma to_double_near:
  assumes "0 < r" "r < 1"
  shows "\<exists>w. to_double r = Fin w \<and> \<bar>w - r\<bar> \<le> 1 / 2 ^ 54"
proof -
  define u :: rat where "u = 2 powi max (expo 2 r - 52) (-1074)"
  define w where "w = of_int (round_half_even (r / u)) * u"
  have "2 powi expo 2 r < (2 :: rat) powi 0" using expo_bounds[of 2 r] assms by simp
  then have "expo 2 r < 0" by (rule powi_less_imp[rotated]) simp
  then have "u \<le> 2 powi (-53)" unfolding u_def by (intro power_int_increasing) (simp_all add: max_def)
  moreover have "(2 :: rat) powi (-53) = 1 / 2 ^ 53" by (simp add: power_int_minus)
  ultimately have u: "u \<le> 1 / 2 ^ 53" "0 < u" by (simp_all only: u_def zero_less_power_int zero_less_numeral)
  have "\<bar>of_int (round_half_even (r / u)) - r / u\<bar> * u \<le> 1 / 2 * u"
    using u(2) by (intro mult_right_mono round_half_even_error) auto
  moreover have "\<bar>of_int (round_half_even (r / u)) - r / u\<bar> * u = \<bar>w - r\<bar>"
    using u(2) by (simp add: w_def abs_mult[of _ u, symmetric, simplified] left_diff_distrib abs_mult_pos)
  ultimately have near: "\<bar>w - r\<bar> \<le> 1 / 2 ^ 54" using u(1) by simp
  have "w = 0 \<or> expo 2 w < 1024"
  proof (cases "w = 0")
    case False
    have "2 powi expo 2 w \<le> \<bar>w\<bar>" using expo_bounds[of 2 w] False by simp
    moreover have "\<bar>w\<bar> < 2 powi 1024"
    proof -
      have "(1 :: rat) / 2 ^ 54 < 1" by simp
      with near assms have "\<bar>w\<bar> < 2" by linarith
      also have "(2 :: rat) = 2 powi 1" by simp
      also have "\<dots> \<le> 2 powi 1024" by (rule power_int_increasing) auto
      finally show ?thesis .
    qed
    ultimately have "2 powi expo 2 w < (2 :: rat) powi 1024" by (rule le_less_trans)
    then have "expo 2 w < 1024" by (rule powi_less_imp[rotated]) simp
    then show ?thesis by simp
  qed simp
  then have "to_double r = Fin w"
    using assms(1) unfolding to_double_def Let_def u_def[symmetric] w_def[symmetric] by simp
  with near show ?thesis by blast
qed


text \<open>Two decimals with at most fifteen digits after the point that round to the same double are
  equal.\<close>

lemma decimal_close:
  assumes "\<bar>of_int a / 10 ^ e - of_int b / 10 ^ P\<bar> \<le> (1 / 2 ^ 53 :: rat)" "e \<le> P" "P \<le> 15"
  shows "(of_int a / 10 ^ e :: rat) = of_int b / 10 ^ P"
proof -
  define c where "c = a * 10 ^ (P - e)"
  have ae: "of_int a / 10 ^ e = (of_int c / 10 ^ P :: rat)"
    using assms(2) by (simp add: c_def field_simps flip: power_add)
  have "\<bar>of_int (c - b) :: rat\<bar> / 10 ^ P \<le> 1 / 2 ^ 53"
    using assms(1) unfolding ae by (simp add: diff_divide_distrib[symmetric] abs_divide)
  then have "\<bar>of_int (c - b) :: rat\<bar> \<le> 10 ^ P / 2 ^ 53" by (simp add: divide_le_eq)
  moreover have "(10 :: rat) ^ P \<le> 10 ^ 15" using assms(3) by (rule power_increasing) simp
  ultimately have "\<bar>of_int (c - b) :: rat\<bar> < of_int 1" by simp
  then have "\<bar>c - b\<bar> < 1" by (simp only: of_int_less_iff flip: of_int_abs)
  then show ?thesis by (simp add: ae)
qed

lemma decimal_unit_bounds:
  assumes r: "r = of_int m / 10 ^ P" "10 \<le> m" "m < 10 ^ P" "P \<le> 15" and w: "to_double r = Fin w"
  shows "0 < w" "w < 1" "\<bar>w - r\<bar> \<le> 1 / 2 ^ 54" "expo 10 w < 0"
proof -
  have "(of_int m :: rat) < of_int (10 ^ P)" using r(3) by (simp only: of_int_less_iff)
  then have r01: "0 < r" "r < 1" using r(1,2) by (simp_all add: divide_less_eq)
  show near: "\<bar>w - r\<bar> \<le> 1 / 2 ^ 54" using to_double_near[OF r01] w by auto
  have inv: "(1 :: rat) / 10 ^ 15 \<le> 1 / 10 ^ P"
    using power_increasing[OF r(4), of "10 :: rat"] by (intro divide_left_mono) auto
  have gap: "(1 :: rat) / 2 ^ 54 < 1 / 10 ^ 15" by simp
  have "1 / 10 ^ P \<le> r" using r(1,2) by (simp add: divide_right_mono)
  with near inv gap show w0: "0 < w" by linarith
  have "of_int m \<le> (of_int (10 ^ P - 1) :: rat)" using r(3) by (simp only: of_int_le_iff)
  then have "r \<le> (10 ^ P - 1) / 10 ^ P" unfolding r(1) by (intro divide_right_mono) auto
  then have "r \<le> 1 - 1 / 10 ^ P" by (simp add: diff_divide_distrib)
  with near inv gap show w1: "w < 1" by linarith
  have "10 powi expo 10 w < (10 :: rat) powi 0" using expo_bounds[of 10 w] w0 w1 by simp
  then show "expo 10 w < 0" by (rule powi_less_imp[rotated]) simp
qed

lemma shortest_step_decimal:
  assumes r: "r = of_int m / 10 ^ P" "10 \<le> m" "m < 10 ^ P" "P \<le> 15" and w: "to_double r = Fin w"
    and e: "e \<le> P" and s: "s = round_half_even (w * 10 ^ e)"
  shows "0 \<le> s" "to_double (of_int s / 10 ^ e) = Fin w \<Longrightarrow> of_int s / 10 ^ e = r"
    "e = P \<Longrightarrow> of_int s / 10 ^ e = r"
proof -
  note b = decimal_unit_bounds[OF r w]
  show s0: "0 \<le> s"
    using round_half_even_mono[of 0 "w * 10 ^ e"] b(1) round_half_even_of_int[of 0] by (simp add: s)
  show "of_int s / 10 ^ e = r" if t: "to_double (of_int s / 10 ^ e) = Fin w"
  proof -
    have "w * 10 ^ e \<le> of_int (10 ^ e)" using b(2) by simp
    then have "s \<le> 10 ^ e" unfolding s by (metis round_half_even_mono round_half_even_of_int)
    moreover have "s \<noteq> 10 ^ e" using t b(2) to_double_of_int[of 1] by auto
    ultimately have "s < 10 ^ e" by simp
    then have "(of_int s :: rat) < of_int (10 ^ e)" by (simp only: of_int_less_iff)
    moreover have "s \<noteq> 0" using t b(1) by (auto simp: to_double_def)
    ultimately have "0 < (of_int s / 10 ^ e :: rat)" "of_int s / 10 ^ e < (1 :: rat)"
      using s0 by (simp_all add: divide_less_eq)
    then have "\<bar>w - of_int s / 10 ^ e\<bar> \<le> 1 / 2 ^ 54" using to_double_near[of "of_int s / 10 ^ e"] t by auto
    with b(3) have "\<bar>of_int s / 10 ^ e - of_int m / 10 ^ P\<bar> \<le> 1 / 2 ^ 54 + (1 / 2 ^ 54 :: rat)"
      unfolding r(1) by linarith
    then have "\<bar>of_int s / 10 ^ e - of_int m / 10 ^ P\<bar> \<le> (1 / 2 ^ 53 :: rat)" by simp
    then show ?thesis unfolding r(1) using e r(4) by (rule decimal_close)
  qed
  show "of_int s / 10 ^ e = r" if "e = P"
  proof -
    have "of_int m - w * 10 ^ P = (r - w) * 10 ^ P" by (simp add: r(1) left_diff_distrib)
    then have "\<bar>of_int m - w * 10 ^ P\<bar> = \<bar>w - r\<bar> * 10 ^ P" by (simp add: abs_mult abs_minus_commute)
    also have "\<dots> \<le> 1 / 2 ^ 54 * 10 ^ 15"
      using power_increasing[OF r(4), of "10 :: rat"] b(3) by (intro mult_mono) auto
    also have "\<dots> < 1 / 2" by simp
    finally have "s = m" unfolding s that by (rule round_half_even_eqI)
    with that r(1) show ?thesis by simp
  qed
qed

lemma shortest_from_decimal:
  assumes r: "r = of_int m / 10 ^ P" "10 \<le> m" "m < 10 ^ P" "P \<le> 15" and w: "to_double r = Fin w"
  shows "1 \<le> k \<Longrightarrow> int k \<le> int P + expo 10 w + 1 \<Longrightarrow> int P + expo 10 w + 1 \<le> int k + int fuel \<Longrightarrow>
    \<exists>s e. shortest_from fuel k w = (s, - int e) \<and> of_nat s / 10 ^ e = r"
proof (induction fuel arbitrary: k)
  case (0 k)
  define s where "s = round_half_even (w * 10 ^ P)"
  note st = shortest_step_decimal[OF r w order_refl s_def]
  have e: "expo 10 w + 1 - int k = - int P" using 0 by simp
  show ?case
    using st(1,3)
    by (subst shortest_from.simps)
      (auto simp: e power_int_minus divide_inverse s_def[symmetric] intro!: exI[of _ P])
next
  case (Suc fuel k)
  define e where "e = nat (int k - expo 10 w - 1)"
  define s where "s = round_half_even (w * 10 ^ e)"
  have e: "expo 10 w + 1 - int k = - int e" "e \<le> P"
    using Suc.prems decimal_unit_bounds(4)[OF r w] by (auto simp: e_def)
  note st = shortest_step_decimal[OF r w e(2) s_def]
  have step: "shortest_from (Suc fuel) k w = (if to_double (of_int s / 10 ^ e) = Fin w
      then (nat s, - int e) else shortest_from fuel (Suc k) w)"
    by (subst shortest_from.simps) (simp add: e(1) power_int_minus divide_inverse s_def[symmetric])
  show ?case
  proof (cases "to_double (of_int s / 10 ^ e) = Fin w")
    case True
    with st(1,2) show ?thesis by (auto simp: step intro!: exI[of _ e])
  next
    case False
    then have "e \<noteq> P" using st(3) w by auto
    then have "int (Suc k) \<le> int P + expo 10 w + 1" using e Suc.prems(2) by simp
    then show ?thesis using False Suc by (simp add: step)
  qed
qed


lemma nat_to_string_ge: "0 < s \<Longrightarrow> 10 ^ (length (nat_to_string s) - 1) \<le> s"
proof (induction s rule: less_induct)
  case (less s)
  show ?case
  proof (cases "s < 10")
    case True
    then show ?thesis using less.prems unfolding nat_to_string_def by (subst nat_to_base.simps) simp
  next
    case False
    have "10 ^ (length (nat_to_string (s div 10)) - 1) \<le> s div 10"
      using False by (intro less.IH) auto
    moreover have "nat_to_string s = nat_to_string (s div 10) @ [digit_char (s mod 10)]"
      unfolding nat_to_string_def using False by (subst nat_to_base.simps) simp
    moreover have "0 < length (nat_to_string (s div 10))"
      unfolding nat_to_string_def by (subst nat_to_base.simps) simp
    ultimately have "10 ^ (length (nat_to_string s) - 1) \<le> 10 * (s div 10)"
      by (cases "length (nat_to_string (s div 10))") auto
    then show ?thesis by linarith
  qed
qed

lemma nat_to_string_lt: "s < 10 ^ length (nat_to_string s)"
proof (induction s rule: less_induct)
  case (less s)
  show ?case
  proof (cases "s < 10")
    case True
    then show ?thesis unfolding nat_to_string_def by (subst nat_to_base.simps) simp
  next
    case False
    have "s div 10 < 10 ^ length (nat_to_string (s div 10))" using False by (intro less.IH) auto
    moreover have "nat_to_string s = nat_to_string (s div 10) @ [digit_char (s mod 10)]"
      unfolding nat_to_string_def using False by (subst nat_to_base.simps) simp
    ultimately show ?thesis by simp
  qed
qed

lemma decimal_literal_fraction:
  assumes "\<forall>c \<in> set ds. is_digit_char c" "ds \<noteq> []"
  shows "decimal_literal (''0.'' @ ds) = Some (of_nat (parse_digits ds) / 10 ^ length ds)"
proof -
  have "\<not> is_digit_char CHR ''.''" by code_simp
  moreover have "parse_digits (CHR ''0'' # ds) = parse_digits ds"
    using parse_digits_append[of "''0''" ds] by (simp add: parse_digits_def)
  ultimately show ?thesis
    using assms by (simp add: decimal_literal_def decimal_parts_def Let_def list_all_iff)
qed

lemma format_positive_fraction:
  assumes se: "shortest_from 16 1 r = (s, - int e)" and s: "0 < s" "s < 10 ^ e" "10 ^ e \<le> s * 10 ^ 6"
  shows "decimal_literal (format_positive r) = Some (of_nat s / 10 ^ e)"
proof -
  let ?all = "nat_to_string s" and ?ds = "strip_zeros (nat_to_string s)"
  obtain j where j: "?all = ?ds @ replicate j CHR ''0''" using strip_zeros_replicate by blast
  have len: "length ?all = length ?ds + j" by (subst j) simp
  have "(10 :: nat) ^ (length ?all - 1) < 10 ^ e" using nat_to_string_ge[OF s(1)] s(2) by linarith
  then have "length ?all - 1 < e" by (rule power_less_imp_less_exp[rotated]) simp
  then have le: "length ?all \<le> e" by simp
  have "(10 :: nat) ^ e < 10 ^ (length ?all + 6)"
    using s(3) nat_to_string_lt[of s] by (simp add: power_add)
  then have ge: "e < length ?all + 6" by (rule power_less_imp_less_exp[rotated]) simp
  have val: "s = parse_digits ?ds * 10 ^ j"
    using parse_digits_append[of ?ds "replicate j CHR ''0''"] parse_nat_to_string[of s] j by simp
  with s(1) have ne: "?ds \<noteq> []" by (auto simp: parse_digits_def)
  let ?z = "replicate (e - length ?all) CHR ''0''"
  have "\<not> int (length ?ds) \<le> int (length ?all) + - int e" "\<not> 0 < int (length ?all) + - int e"
      "-6 < int (length ?all) + - int e" "int (length ?all) + - int e \<le> 0"
      "nat (- (int (length ?all) + - int e)) = e - length ?all"
  proof -
    have "0 < length ?ds" using ne by (simp only: length_greater_0_conv not_False_eq_True)
    then show "\<not> int (length ?ds) \<le> int (length ?all) + - int e" using le by linarith
  qed (use le ge in auto)
  then have F: "format_positive r = ''0.'' @ ?z @ ?ds"
    by (simp only: format_positive_def se Let_def prod.case simp_thms if_True if_False)
  have L: "decimal_literal (''0.'' @ ?z @ ?ds) = Some (of_nat (parse_digits (?z @ ?ds)) / 10 ^ length (?z @ ?ds))"
  proof (rule decimal_literal_fraction)
    have "set ?ds \<subseteq> set ?all" by (subst (2) j) auto
    then show "\<forall>c \<in> set (?z @ ?ds). is_digit_char c" by (auto dest!: nat_to_string_digits)
    show "?z @ ?ds \<noteq> []" using ne by simp
  qed
  have V: "of_nat (parse_digits (?z @ ?ds)) / 10 ^ length (?z @ ?ds) = (of_nat s / 10 ^ e :: rat)"
  proof -
    have "e = length (?z @ ?ds) + j" using le len by simp
    then have p: "(10 :: rat) ^ e = 10 ^ length (?z @ ?ds) * 10 ^ j" by (metis power_add)
    have "(of_nat s :: rat) = of_nat (parse_digits (?z @ ?ds)) * 10 ^ j"
      by (subst val) (simp add: parse_digits_append)
    then show ?thesis unfolding p by simp
  qed
  show ?thesis unfolding F L V ..
qed

text \<open>A decimal fraction with at most fourteen digits prints, as a double, as a literal of the
  same value: \<open>0.2\<close> is not a double, but its double prints as \<open>0.2\<close>.\<close>

theorem number_to_string_fraction:
  assumes m: "0 < m" "m < 10 ^ P" "P \<le> 14" "10 ^ P \<le> m * 10 ^ 6"
  shows "decimal_literal (number_to_string (to_double (of_int m / 10 ^ P))) = Some (of_int m / 10 ^ P)"
proof -
  let ?r = "of_int m / 10 ^ P :: rat"
  have r: "?r = of_int (10 * m) / 10 ^ Suc P" "10 \<le> 10 * m" "10 * m < 10 ^ Suc P" "Suc P \<le> 15"
    using m by simp_all
  have "(of_int m :: rat) < of_int (10 ^ P)" using m(2) by (simp only: of_int_less_iff)
  then have r01: "0 < ?r" "?r < 1" using m(1) by (simp_all add: divide_less_eq)
  then obtain w where w: "to_double ?r = Fin w" using to_double_near by blast
  note b = decimal_unit_bounds[OF r w]
  have E: "- int (Suc P) \<le> expo 10 w"
  proof -
    have "(1 :: rat) / 10 ^ P \<le> ?r" using m(1) by (simp add: divide_right_mono)
    moreover have "(1 :: rat) / 2 ^ 54 < 9 / 10 ^ 15" by simp
    moreover have "(9 :: rat) / 10 ^ 15 \<le> 9 / 10 ^ Suc P"
      using power_increasing[OF r(4), of "10 :: rat"] by (intro divide_left_mono) auto
    moreover have "(1 :: rat) / 10 ^ P - 9 / 10 ^ Suc P = 1 / 10 ^ Suc P" by (simp add: field_simps)
    ultimately have "1 / 10 ^ Suc P < w" using b(3) by linarith
    moreover have "w < 10 powi (expo 10 w + 1)" using expo_bounds[of 10 w] b(1) by simp
    moreover have "(1 :: rat) / 10 ^ Suc P = 10 powi (- int (Suc P))"
      by (simp only: power_int_minus power_int_of_nat divide_inverse mult_1_left)
    ultimately have "(10 :: rat) powi (- int (Suc P)) < 10 powi (expo 10 w + 1)" by linarith
    then have "- int (Suc P) < expo 10 w + 1" by (rule powi_less_imp[rotated]) simp
    then show ?thesis by simp
  qed
  obtain s e where se: "shortest_from 16 1 w = (s, - int e)" "of_nat s / 10 ^ e = ?r"
    using shortest_from_decimal[OF r w, of 1 16] E b(4) r(4) by auto
  have "of_nat s * 10 ^ P = (of_int m * 10 ^ e :: rat)" using se(2) by (simp add: field_simps)
  then have "of_int (int s * 10 ^ P) = (of_int (m * 10 ^ e) :: rat)" by simp
  then have eq: "int s * 10 ^ P = m * 10 ^ e" by (simp only: of_int_eq_iff)
  have "0 < s" using eq m(1) by (cases s) auto
  moreover have "int s * 10 ^ P < int (10 ^ e) * 10 ^ P" using eq m(2) by (simp add: mult.commute)
  then have "int s < int (10 ^ e)" by (rule mult_right_less_imp_less) simp
  then have "s < 10 ^ e" by (simp only: of_nat_less_iff)
  moreover have "10 ^ e * 10 ^ P \<le> int (s * 10 ^ 6) * 10 ^ P"
  proof -
    have "10 ^ e * 10 ^ P \<le> 10 ^ e * (m * 10 ^ 6)" using m(4) by simp
    also have "\<dots> = int s * 10 ^ P * 10 ^ 6" unfolding eq by simp
    finally show ?thesis by (simp only: of_nat_mult of_nat_power of_nat_numeral ac_simps)
  qed
  then have "int (10 ^ e) * 10 ^ P \<le> int (s * 10 ^ 6) * 10 ^ P" by simp
  then have "int (10 ^ e) \<le> int (s * 10 ^ 6)" by (rule mult_right_le_imp_le) simp
  then have "10 ^ e \<le> s * 10 ^ 6" by (simp only: of_nat_le_iff)
  ultimately have "decimal_literal (format_positive w) = Some ?r"
    using format_positive_fraction[OF se(1)] se(2) by simp
  then show ?thesis using w b(1) by simp
qed

section \<open>A fixed number of decimals\<close>

text \<open>\<open>toFixed(n)\<close>: the nearest multiple of \<open>10^-n\<close>, the larger on a tie.\<close>

definition to_fixed :: "nat \<Rightarrow> number \<Rightarrow> string" where
  "to_fixed n x = (case x of
     Fin r \<Rightarrow> if 10 ^ 21 \<le> \<bar>r\<bar> then number_to_string x
       else (if r < 0 then ''-'' else []) @ fixed_str \<lfloor>\<bar>r\<bar> * 10 ^ n + 1 / 2\<rfloor> n
   | _ \<Rightarrow> number_to_string x)"

end
