(* ===== verification/Native.thy ===== *)
theory Native
  imports Identity Money Printing
begin

text \<open>
  The native bridge and its TypeScript fallback (packages/core/src/native/bridge.ts). The digest of
  the platform's crypto module is the argument \<open>sha256\<close> (hexadecimal). The compiled addon is not
  under src/packages: \<open>getNative\<close> takes the outcome of loading it.
\<close>

section \<open>Number parsing and formatting\<close>

text \<open>\<open>parseFloat\<close>: the longest decimal prefix after white space.\<close>

definition parse_exponent :: "string \<Rightarrow> int" where
  "parse_exponent r =
     (if r = [] \<or> hd r \<notin> {CHR ''e'', CHR ''E''} then 0
      else let t = tl r; neg = (t \<noteq> [] \<and> hd t = CHR ''-'');
               u = (if t \<noteq> [] \<and> hd t \<in> {CHR ''-'', CHR ''+''} then tl t else t);
               ds = takeWhile is_digit_char u
           in if ds = [] then 0 else (if neg then - 1 else 1) * int (parse_digits ds))"

definition parse_float :: "string \<Rightarrow> number" where
  "parse_float s =
     (let t = trim_start s; neg = (t \<noteq> [] \<and> hd t = CHR ''-'');
          u = (if t \<noteq> [] \<and> hd t \<in> {CHR ''-'', CHR ''+''} then tl t else t);
          ip = takeWhile is_digit_char u; r = dropWhile is_digit_char u;
          dot = (r \<noteq> [] \<and> hd r = CHR ''.'');
          fp = (if dot then takeWhile is_digit_char (tl r) else []);
          r' = (if dot then dropWhile is_digit_char (tl r) else r)
      in if starts_with u ''Infinity'' then (if neg then NegInf else PosInf)
         else if ip = [] \<and> fp = [] then NaN
         else to_double ((if neg then - 1 else 1) * of_nat (parse_digits (ip @ fp))
                * 10 powi (parse_exponent r' - int (length fp))))"

text \<open>\<open>Number.prototype.toFixed\<close>: the nearest multiple, the larger of two in magnitude.\<close>

fun js_to_fixed :: "nat \<Rightarrow> number \<Rightarrow> string" where
  "js_to_fixed f (Fin r) =
     (if 10 ^ 21 \<le> \<bar>r\<bar> then number_to_string (Fin r)
      else (if r < 0 then ''-'' else []) @ fixed_str \<lfloor>\<bar>r\<bar> * 10 ^ f + 1 / 2\<rfloor> f)"
| "js_to_fixed f x = number_to_string x"

fun js_neg :: "number \<Rightarrow> number" where
  "js_neg (Fin x) = Fin (- x)"
| "js_neg PosInf = NegInf"
| "js_neg NegInf = PosInf"
| "js_neg NaN = NaN"

definition js_sub :: "number \<Rightarrow> number \<Rightarrow> number" where
  "js_sub x y = js_add x (js_neg y)"

text \<open>A number as it serialises.\<close>

definition number_json :: "number \<Rightarrow> json" where
  "number_json x = (case x of Fin r \<Rightarrow> JNum r | _ \<Rightarrow> JNull)"

text \<open>Division; the divisor zero is the positive one.\<close>

fun js_div :: "number \<Rightarrow> number \<Rightarrow> number" where
  "js_div x (Fin y) = (if y \<noteq> 0 then js_div_by x y
     else case x of Fin r \<Rightarrow> if r = 0 then NaN else if 0 < r then PosInf else NegInf | _ \<Rightarrow> x)"
| "js_div x NaN = NaN"
| "js_div (Fin x) _ = Fin 0"
| "js_div x y = NaN"

fun js_floor :: "number \<Rightarrow> number" where
  "js_floor (Fin x) = Fin (of_int \<lfloor>x\<rfloor>)"
| "js_floor x = x"

section \<open>The fallback\<close>

definition ledgerWrite :: "(string \<Rightarrow> string) \<Rightarrow> string \<Rightarrow> string \<Rightarrow> string \<Rightarrow> string \<Rightarrow> string \<Rightarrow> string \<Rightarrow> string \<Rightarrow> string" where
  "ledgerWrite sha256 entryId traceId tenantId accountDebit accountCredit amt currency =
     sha256 (join '':'' [entryId, traceId, accountDebit, accountCredit, amt, currency])"

definition ledgerFlush :: string where "ledgerFlush = ''[]''"

definition ledgerVerifyChain :: "string \<Rightarrow> bool" where "ledgerVerifyChain entriesJson = True"

definition fallback_decimals :: "string \<Rightarrow> nat" where
  "fallback_decimals currency =
     (if currency = ''JPY'' \<or> currency = ''KRW'' then 0
      else if currency = ''BHD'' \<or> currency = ''KWD'' then 3 else 2)"

definition formulaToMinorUnits :: "string \<Rightarrow> string \<Rightarrow> number" where
  "formulaToMinorUnits amt currency =
     js_round (js_mul (parse_float amt) (Fin (10 ^ fallback_decimals currency)))"

definition formulaFromMinorUnits :: "number \<Rightarrow> string \<Rightarrow> string" where
  "formulaFromMinorUnits minor currency =
     (let decimals = fallback_decimals currency
      in js_to_fixed decimals (js_div_by minor (10 ^ decimals)))"

definition formulaAdd :: "number \<Rightarrow> number \<Rightarrow> number" where "formulaAdd a b = js_add a b"

definition formulaSubtract :: "number \<Rightarrow> number \<Rightarrow> number" where "formulaSubtract a b = js_sub a b"

definition formulaMultiply :: "number \<Rightarrow> string \<Rightarrow> bool \<Rightarrow> number" where
  "formulaMultiply minor factor useBankersRounding = js_round (js_mul minor (parse_float factor))"

definition formulaApplyBasisPoints :: "number \<Rightarrow> number \<Rightarrow> number" where
  "formulaApplyBasisPoints minor bp = js_round (js_div_by (js_mul minor bp) 10000)"

definition formulaAllocate :: "number \<Rightarrow> number list \<Rightarrow> number list" where
  "formulaAllocate minor ratios =
     (let tot = foldl js_add (Fin 0) ratios;
          res = map (\<lambda>r. js_floor (js_div (js_mul minor r) tot)) ratios;
          remainder = js_sub minor (foldl js_add (Fin 0) res)
      in add_first (\<lambda>x. js_add x remainder) res)"

definition ruleEvaluate :: "string \<Rightarrow> json" where
  "ruleEvaluate amt = JObj [(''passed'', JBool True), (''applied_rules'', JArr []),
     (''adjusted_amount'', JStr amt), (''tax_amount'', JStr ''0''), (''discount_amount'', JStr ''0'')]"

definition queryPlanWhere :: "string \<Rightarrow> string \<Rightarrow> string" where
  "queryPlanWhere table tenantId =
     ''org_id = '' @ [quote_char] @ tenantId @ [quote_char] @ '' AND deleted_at IS NULL''"

definition queryPlanSudo :: "string \<Rightarrow> string" where "queryPlanSudo table = []"

definition permission_map :: "(string, string list) jsmap" where
  "permission_map =
     [(''owner'', [''read'', ''write'', ''delete'', ''export'', ''admin'', ''billing'', ''impersonate'', ''sudo'']),
      (''admin'', [''read'', ''write'', ''delete'', ''export'', ''admin'', ''billing'']),
      (''billing'', [''read'', ''billing'', ''export'']),
      (''member'', [''read'', ''write'']),
      (''viewer'', [''read''])]"

text \<open>\<open>(map[role] ?? []).includes(permission)\<close>: an inherited property has no \<open>includes\<close>.\<close>

definition permissionCheck :: "string \<Rightarrow> string \<Rightarrow> bool result" where
  "permissionCheck role permission =
     (case get_property permission_map role of
        Own ps \<Rightarrow> Inr (permission \<in> set ps)
      | Undefined \<Rightarrow> Inr False
      | Inherited \<Rightarrow> Inl (Err (plain_error ''TypeError'' ''(map[role] ?? []).includes is not a function'')))"

text \<open>\<open>match(/.{4}/g)\<close> on a digest: the complete groups of four.\<close>

function groups4 :: "string \<Rightarrow> string list" where
  "groups4 s = (if length s < 4 then [] else take 4 s # groups4 (drop 4 s))"
  by pat_completeness auto
termination by (relation "measure length") auto

declare groups4.simps [simp del]

definition cryptoGenerateLicense :: "(string \<Rightarrow> string) \<Rightarrow> string \<Rightarrow> string \<Rightarrow> string \<Rightarrow> string" where
  "cryptoGenerateLicense sha256 tenantId plan secret =
     join ''-'' (groups4 (to_upper (take 16 (sha256 (join '':'' [tenantId, plan, secret])))))"

definition cryptoVerifyLicense :: "(string \<Rightarrow> string) \<Rightarrow> string \<Rightarrow> string \<Rightarrow> string \<Rightarrow> string \<Rightarrow> bool" where
  "cryptoVerifyLicense sha256 tenantId plan secret key \<longleftrightarrow> cryptoGenerateLicense sha256 tenantId plan secret = key"

definition cryptoArgon2Hash :: "(string \<Rightarrow> string) \<Rightarrow> string \<Rightarrow> string" where
  "cryptoArgon2Hash sha256 password =
     ''$argon2id$v=19$m=16,t=2,p=1$'' @ take 16 (sha256 password) @ ''$'' @ sha256 password"

definition cryptoArgon2Verify :: "(string \<Rightarrow> string) \<Rightarrow> string \<Rightarrow> string \<Rightarrow> bool" where
  "cryptoArgon2Verify sha256 password hash \<longleftrightarrow> starts_with (rev hash) (rev (sha256 password))"

definition cryptoEd25519GenerateKeypair :: "(string \<Rightarrow> string) \<Rightarrow> json" where
  "cryptoEd25519GenerateKeypair sha256 =
     JObj [(''signingKey'', JStr (sha256 ''sk'')), (''verifyingKey'', JStr (sha256 ''vk''))]"

definition cryptoEd25519Sign :: "string \<Rightarrow> string \<Rightarrow> string" where
  "cryptoEd25519Sign signingKeyHex message = replicate 128 CHR ''0''"

definition cryptoEd25519Verify :: "string \<Rightarrow> string \<Rightarrow> string \<Rightarrow> bool" where
  "cryptoEd25519Verify verifyingKeyHex message signatureHex = True"

definition schedulerEnqueue :: "string \<Rightarrow> string \<Rightarrow> string \<Rightarrow> number \<Rightarrow> string \<Rightarrow> string \<Rightarrow> unit" where
  "schedulerEnqueue jobId queue payload runAtUnix tenantId traceId = ()"

definition schedulerPoll :: string where "schedulerPoll = ''[]''"

definition serializerCompress :: "nat list \<Rightarrow> nat list" where "serializerCompress data = data"

definition serializerDecompress :: "nat list \<Rightarrow> nat list" where "serializerDecompress data = data"

section \<open>The loader\<close>

text \<open>\<open>addon\<close> is the outcome of loading the compiled addon; the result tells the bridge, the new
  cache and whether the warning is printed.\<close>

datatype 'n bridge = Addon 'n | Fallback

definition getNative :: "'n option \<Rightarrow> string option \<Rightarrow> 'n bridge option \<Rightarrow> 'n bridge \<times> 'n bridge option \<times> bool" where
  "getNative addon node_env native =
     (case native of
        Some b \<Rightarrow> (b, native, False)
      | None \<Rightarrow> (case addon of
          Some n \<Rightarrow> (Addon n, Some (Addon n), False)
        | None \<Rightarrow> (Fallback, Some Fallback, node_env \<noteq> Some ''test'')))"

definition setNative :: "'n bridge \<Rightarrow> 'n bridge option" where "setNative bridge = Some bridge"

definition resetNative :: "'n bridge option" where "resetNative = None"

section \<open>Doubles that hold whole numbers\<close>

lemma to_double_round_sig:
  assumes "x \<noteq> 0" "1 / 2 ^ 53 \<le> \<bar>x\<bar>" "\<bar>x\<bar> < 2 ^ 53"
  shows "to_double x = Fin (round_sig 2 53 x)"
proof -
  note eb = expo_bounds[of 2 x, simplified, OF assms(1)]
  have e2: "(2 :: rat) powi (- 54) < 1 / 2 ^ 53" by (simp add: power_int_minus)
  have "(2 :: rat) powi (- 54) < 2 powi (expo 2 x + 1)" using eb assms(2) e2 by linarith
  then have lo: "- 54 < expo 2 x + 1" by (rule powi_less_imp[rotated]) simp
  have "2 powi expo 2 x < (2 :: rat) powi 53" using eb assms(3) by simp
  then have hi: "expo 2 x < 53" by (rule powi_less_imp[rotated]) simp
  have m: "max (expo 2 x - 52) (- 1074) = expo 2 x + 1 - int 53" using lo by simp
  have u: "ulp_of 2 53 x = 2 powi max (expo 2 x - 52) (- 1074)" by (simp add: ulp_of_def m)
  have w: "of_int (round_half_even (x / ulp_of 2 53 x)) * ulp_of 2 53 x = round_sig 2 53 x"
    using assms(1) by (simp add: round_sig_def)
  have "round_sig 2 53 x = 0 \<or> expo 2 (round_sig 2 53 x) < 1024"
  proof (cases "round_sig 2 53 x = 0")
    case False
    have "ulp_of 2 53 x \<le> 2 powi 1"
      unfolding u m using hi by (intro power_int_increasing) auto
    then have "\<bar>round_sig 2 53 x - x\<bar> \<le> 1" using round_sig_error[of 2 53 x] by simp
    then have "\<bar>round_sig 2 53 x\<bar> < 2 ^ 53 + 1" using assms(3) by linarith
    also have "(2 :: rat) ^ 53 + 1 < 2 powi 54" by simp
    finally have "2 powi expo 2 (round_sig 2 53 x) < (2 :: rat) powi 54"
      using expo_bounds[of 2 "round_sig 2 53 x"] False by simp
    then have "expo 2 (round_sig 2 53 x) < 54" by (rule powi_less_imp[rotated]) simp
    then show ?thesis by simp
  qed simp
  then show ?thesis
    using assms(1) w unfolding to_double_def Let_def u[symmetric] by simp
qed

lemma floor_div_double:
  assumes "\<bar>n\<bar> < 2 ^ 52" "0 < T" "T < 2 ^ 53"
  shows "js_floor (js_div (Fin (of_int n)) (Fin (of_int T))) = Fin (of_int (n div T))"
proof (cases "n = 0")
  case True
  with assms(2) show ?thesis by (simp add: to_double_def)
next
  case False
  let ?x = "of_int n / of_int T :: rat"
  have T: "(0 :: rat) < of_int T" "(of_int T :: rat) < 2 ^ 53"
    using assms(2,3) by simp (metis assms(3) of_int_less_iff of_int_numeral of_int_power)
  have n1: "(1 :: rat) \<le> \<bar>of_int n\<bar>" using False by linarith
  have n52: "\<bar>of_int n :: rat\<bar> < 2 ^ 52"
    using assms(1) by (metis of_int_abs of_int_less_iff of_int_numeral of_int_power)
  have "1 / 2 ^ 53 \<le> \<bar>?x\<bar>"
  proof -
    have "(1 :: rat) / 2 ^ 53 \<le> 1 / of_int T" using T by (intro divide_left_mono) auto
    also have "\<dots> \<le> \<bar>of_int n\<bar> / of_int T" using n1 T(1) by (intro divide_right_mono) auto
    finally show ?thesis using T(1) by (simp add: abs_divide)
  qed
  moreover have "\<bar>?x\<bar> < 2 ^ 53"
  proof -
    have "(1 :: rat) \<le> of_int T" using assms(2) by simp
    then have "\<bar>of_int n\<bar> / of_int T \<le> \<bar>of_int n :: rat\<bar> / 1" by (intro divide_left_mono) auto
    with n52 T(1) show ?thesis by (simp add: abs_divide)
  qed
  moreover have "?x \<noteq> 0" using False T(1) by simp
  ultimately have "to_double ?x = Fin (round_sig 2 53 ?x)" using to_double_round_sig by blast
  moreover have "\<lfloor>round_sig 2 53 ?x\<rfloor> = \<lfloor>?x\<rfloor>"
    using assms(1,2) by (intro floor_round_sig[OF _ _ assms(2) refl]) auto
  moreover have "\<lfloor>?x\<rfloor> = n div T" by (rule floor_divide_of_int_eq)
  ultimately show ?thesis using assms(2) by simp
qed

section \<open>Properties\<close>

text \<open>C15: the fallback allocation agrees with the decimal one. For whole minor units and integer
  ratios with a positive sum whose products stay below 2^50, the double arithmetic of
  \<open>formulaAllocate\<close> computes exactly the allocation \<open>Money.allocate\<close> is proved to compute, so both
  lose nothing and put the remainder first.\<close>

theorem fallback_allocate_exact:
  assumes "0 < sum_list rs" and "\<bar>M\<bar> * (\<Sum>r\<leftarrow>rs. \<bar>r\<bar>) < 2 ^ 50" and "(\<Sum>r\<leftarrow>rs. \<bar>r\<bar>) < 2 ^ 50"
  shows "formulaAllocate (Fin (of_int M)) (map (\<lambda>r. Fin (of_int r)) rs)
           = map (\<lambda>x. Fin (of_int x)) (alloc_spec M rs)"
proof -
  define S where "S = (\<Sum>r\<leftarrow>rs. \<bar>r\<bar>)"
  define T where "T = sum_list rs"
  define shares where "shares = map (\<lambda>r. M * r div T) rs"
  have S1: "1 \<le> S" using assms(1) abs_sum_list_le[of rs] by (simp add: S_def)
  have T: "0 < T" "T < 2 ^ 50" using assms(1,3) abs_sum_list_le[of rs] by (auto simp: T_def)
  have M50: "\<bar>M\<bar> < 2 ^ 50"
    using assms(2) mult_left_mono[of 1 S "\<bar>M\<bar>"] S1 by (simp add: S_def)
  have tot: "foldl js_add (Fin 0) (map (\<lambda>r. Fin (of_int r)) rs) = Fin (of_int T)"
    using foldl_js_add_ints[of 0 rs] assms(3) by (simp add: T_def)
  have prod: "\<bar>M * r\<bar> < 2 ^ 50" if "r \<in> set rs" for r
    using mult_left_mono[OF abs_le_sum_abs[OF that], of "\<bar>M\<bar>"] assms(2) by (simp add: abs_mult)
  have share: "js_floor (js_div (js_mul (Fin (of_int M)) (Fin (of_int r))) (Fin (of_int T))) = Fin (of_int (M * r div T))"
    if "r \<in> set rs" for r
  proof -
    have "to_double (of_int (M * r)) = Fin (of_int (M * r))" using prod[OF that] by (intro to_double_of_int) simp
    then have "js_mul (Fin (of_int M)) (Fin (of_int r)) = Fin (of_int (M * r))" by simp
    moreover have "js_floor (js_div (Fin (of_int (M * r))) (Fin (of_int T))) = Fin (of_int (M * r div T))"
      using prod[OF that] T by (intro floor_div_double) auto
    ultimately show ?thesis by (simp only:)
  qed
  have res: "map (\<lambda>r. js_floor (js_div (js_mul (Fin (of_int M)) r) (Fin (of_int T)))) (map (\<lambda>r. Fin (of_int r)) rs)
      = map (\<lambda>x. Fin (of_int x)) shares"
    unfolding shares_def map_map o_def by (rule map_cong[OF refl]) (rule share)
  have sh: "(\<Sum>x\<leftarrow>shares. \<bar>x\<bar>) \<le> \<bar>M\<bar> * S"
  proof -
    have "\<bar>M * r div T\<bar> \<le> \<bar>M\<bar> * \<bar>r\<bar>" for r
      using abs_div_le[of T "M * r"] T(1) by (simp add: abs_mult)
    then have "(\<Sum>r\<leftarrow>rs. \<bar>M * r div T\<bar>) \<le> (\<Sum>r\<leftarrow>rs. \<bar>M\<bar> * \<bar>r\<bar>)" by (intro sum_list_mono)
    then show ?thesis by (simp add: shares_def S_def o_def sum_list_const_mult)
  qed
  then have sh50: "(\<Sum>x\<leftarrow>shares. \<bar>x\<bar>) < 2 ^ 50" using assms(2) by (simp add: S_def)
  have "foldl js_add (Fin 0) (map (\<lambda>x. Fin (of_int x)) shares) = Fin (of_int (sum_list shares))"
    using foldl_js_add_ints[of 0 shares] sh50 by simp
  moreover have rem53: "\<bar>M - sum_list shares\<bar> < 2 ^ 51" using M50 sh50 abs_sum_list_le[of shares] by simp
  then have "to_double (of_int (M - sum_list shares)) = Fin (of_int (M - sum_list shares))"
    by (intro to_double_of_int) simp
  ultimately have rem: "js_sub (Fin (of_int M)) (foldl js_add (Fin 0) (map (\<lambda>x. Fin (of_int x)) shares))
      = Fin (of_int (M - sum_list shares))" by (simp add: js_sub_def)
  have add: "add_first (\<lambda>x. js_add x (Fin (of_int (M - sum_list shares)))) (map (\<lambda>x. Fin (of_int x)) shares)
      = map (\<lambda>x. Fin (of_int x)) (add_first (\<lambda>x. x + (M - sum_list shares)) shares)"
  proof (cases shares)
    case (Cons x xs)
    have "\<bar>x\<bar> < 2 ^ 50" using sh50 abs_le_sum_abs[of x shares] by (simp add: Cons)
    then have "to_double (of_int (x + (M - sum_list shares))) = Fin (of_int (x + (M - sum_list shares)))"
      using rem53 by (intro to_double_of_int) simp
    then show ?thesis by (simp add: Cons)
  qed simp
  show ?thesis
    unfolding formulaAllocate_def Let_def tot res rem add
    by (simp add: alloc_spec_def shares_def T_def Let_def)
qed

theorem fallback_allocate_exact_witness:
  "formulaAllocate (Fin 1000) [Fin 1, Fin 1, Fin 1] = [Fin 334, Fin 333, Fin 333]"
proof -
  have "alloc_spec 1000 [1, 1, 1] = [334, 333, 333]" by code_simp
  then show ?thesis using fallback_allocate_exact[of "[1, 1, 1]" 1000] by simp
qed

text \<open>The fallback's permission table and the bitmasks agree on every role that is not the
  name of an inherited property; on those the fallback throws.\<close>

theorem fallback_permissions_agree:
  "(st_role st \<notin> set prototype_keys \<longrightarrow> permissionCheck (st_role st) p = can (Some st) p) \<and>
   (st_role st \<in> set prototype_keys \<longrightarrow>
      (\<exists>e. permissionCheck (st_role st) p = Inl (Err e) \<and> err_name e = ''TypeError'') \<and> can (Some st) p = Inr False)"
proof -
  have eq: "permission_map = role_grants" by (simp add: permission_map_def role_grants_def)
  have "\<forall>r \<in> set prototype_keys. jm_get role_grants r = None" by code_simp
  then show ?thesis
    by (auto simp: permissionCheck_def can_granted granted_def get_property_def eq plain_error_def split: option.splits)
qed

theorem fallback_permissions_agree_witness:
  "\<exists>e. permissionCheck ''constructor'' ''read'' = Inl (Err e) \<and> err_name e = ''TypeError''"
proof -
  let ?st = "\<lparr>st_traceId = [], st_tenantId = [], st_userId = None, st_role = ''constructor'', st_startTime = 0,
      st_origin = OriginTest\<rparr>"
  have "st_role ?st \<in> set prototype_keys" by code_simp
  with fallback_permissions_agree[of ?st "''read''"] show ?thesis by auto
qed

end
