(* ===== verification/Signature.thy ===== *)
theory Signature
  imports Native Transaction
begin

text \<open>
  Webhook signatures and the payment adapters (packages/commerce/src/webhooks/signature.ts,
  providers/stripe.ts, providers/payfast.ts). The digests of the platform's crypto module are
  arguments: \<open>hmac_sha256\<close> and \<open>hmac_sha512\<close> map a secret and a message, \<open>md5\<close> a message, to a
  lower-case hexadecimal digest. Strings are their UTF-8 bytes; the form parser is modelled for
  bodies whose decoded values are well-formed UTF-8.
\<close>

section \<open>Comparing digests\<close>

definition hmacSha256Hex :: "(string \<Rightarrow> string \<Rightarrow> string) \<Rightarrow> string \<Rightarrow> string \<Rightarrow> string" where
  "hmacSha256Hex hmac_sha256 secret payload = hmac_sha256 secret payload"

definition hmacSha512Hex :: "(string \<Rightarrow> string \<Rightarrow> string) \<Rightarrow> string \<Rightarrow> string \<Rightarrow> string" where
  "hmacSha512Hex hmac_sha512 secret payload = hmac_sha512 secret payload"

definition md5Hex :: "(string \<Rightarrow> string) \<Rightarrow> string \<Rightarrow> string" where
  "md5Hex md5 payload = md5 payload"

definition hex_val :: "char \<Rightarrow> nat option" where
  "hex_val c =
     (if is_digit_char c then Some (digit_val c)
      else if CHR ''a'' \<le> c \<and> c \<le> CHR ''f'' then Some (of_char c - 87)
      else if CHR ''A'' \<le> c \<and> c \<le> CHR ''F'' then Some (of_char c - 55)
      else None)"

text \<open>\<open>Buffer.from(s, 'hex')\<close>: decoding stops at the first pair that is not hexadecimal.\<close>

fun hex_decode :: "string \<Rightarrow> nat list" where
  "hex_decode (a # b # s) =
     (case (hex_val a, hex_val b) of (Some x, Some y) \<Rightarrow> (16 * x + y) # hex_decode s | _ \<Rightarrow> [])"
| "hex_decode _ = []"

definition timingSafeEqualHex :: "string \<Rightarrow> string \<Rightarrow> bool" where
  "timingSafeEqualHex a b =
     (let bufA = hex_decode a; bufB = hex_decode b
      in if length bufA = 0 \<or> length bufA \<noteq> length bufB then False else bufA = bufB)"

section \<open>The Stripe signature header\<close>

record stripe_signature =
  ss_timestamp :: "string option"
  ss_signatures :: "string list"

fun stripe_part :: "string \<Rightarrow> stripe_signature \<Rightarrow> stripe_signature" where
  "stripe_part part acc =
     (case index_of CHR ''='' part of
        None \<Rightarrow> acc
      | Some separator \<Rightarrow>
          (let key = trim (take separator part); val = trim (drop (separator + 1) part)
           in if val = [] then acc
              else if key = ''t'' then acc\<lparr>ss_timestamp := Some val\<rparr>
              else if key = ''v1'' then acc\<lparr>ss_signatures := ss_signatures acc @ [val]\<rparr>
              else acc))"

definition parseStripeSignatureHeader :: "string \<Rightarrow> stripe_signature" where
  "parseStripeSignatureHeader header =
     fold stripe_part (split_on CHR '','' header) \<lparr>ss_timestamp = None, ss_signatures = []\<rparr>"

text \<open>\<open>Number(s)\<close>: an integer in another base, or a decimal literal that is the whole trimmed
  string; the empty string is zero.\<close>

definition base_digits :: "nat \<Rightarrow> string \<Rightarrow> nat option" where
  "base_digits base ds =
     (if ds \<noteq> [] \<and> list_all (\<lambda>c. case hex_val c of Some d \<Rightarrow> d < base | None \<Rightarrow> False) ds
      then Some (foldl (\<lambda>n c. base * n + the (hex_val c)) 0 ds) else None)"

definition is_decimal_literal :: "string \<Rightarrow> bool" where
  "is_decimal_literal u =
     (let ip = takeWhile is_digit_char u; r = dropWhile is_digit_char u;
          dot = (r \<noteq> [] \<and> hd r = CHR ''.'');
          fp = (if dot then takeWhile is_digit_char (tl r) else []);
          r' = (if dot then dropWhile is_digit_char (tl r) else r);
          r'' = (if r' \<noteq> [] \<and> hd r' \<in> {CHR ''e'', CHR ''E''}
                 then (let t = tl r'; v = (if t \<noteq> [] \<and> hd t \<in> {CHR ''-'', CHR ''+''} then tl t else t)
                       in if v = [] then r' else dropWhile is_digit_char v)
                 else r')
      in ip @ fp \<noteq> [] \<and> r'' = [])"

definition js_Number :: "string \<Rightarrow> number" where
  "js_Number s =
     (let t = trim s;
          u = (if t \<noteq> [] \<and> hd t \<in> {CHR ''-'', CHR ''+''} then tl t else t);
          based = (\<lambda>base. case base_digits base (drop 2 t) of Some n \<Rightarrow> num_of_int (int n) | None \<Rightarrow> NaN)
      in if t = [] then Fin 0
         else if take 2 t \<in> {''0x'', ''0X''} then based 16
         else if take 2 t \<in> {''0o'', ''0O''} then based 8
         else if take 2 t \<in> {''0b'', ''0B''} then based 2
         else if u = ''Infinity'' \<or> is_decimal_literal u then parse_float t
         else NaN)"

section \<open>Forms\<close>

text \<open>\<open>encodeURIComponent\<close> on the bytes of a string.\<close>

definition uri_unreserved :: "char \<Rightarrow> bool" where
  "uri_unreserved c \<longleftrightarrow> is_word_char c \<or> c \<in> set ''-.!~*()'' \<or> c = quote_char"

definition percent_escape :: "char \<Rightarrow> string" where
  "percent_escape c = CHR ''%'' # to_upper (byte_hex (of_char c))"

definition encodeURIComponent :: "string \<Rightarrow> string" where
  "encodeURIComponent s = concat (map (\<lambda>c. if uri_unreserved c then [c] else percent_escape c) s)"

text \<open>The two replacements: \<open>%20\<close> by \<open>+\<close>, then the escapes in upper case.\<close>

fun plus_spaces :: "string \<Rightarrow> string" where
  "plus_spaces (a # b # c # s) =
     (if [a, b, c] = ''%20'' then CHR ''+'' # plus_spaces s else a # plus_spaces (b # c # s))"
| "plus_spaces s = s"

fun upper_escapes :: "string \<Rightarrow> string" where
  "upper_escapes (a # b # c # s) =
     (if a = CHR ''%'' \<and> hex_val b \<noteq> None \<and> hex_val c \<noteq> None
      then a # upper_char b # upper_char c # upper_escapes s else a # upper_escapes (b # c # s))"
| "upper_escapes s = s"

definition encodePayFastValue :: "string \<Rightarrow> string" where
  "encodePayFastValue val = upper_escapes (plus_spaces (encodeURIComponent val))"

text \<open>\<open>new URLSearchParams(body)\<close>: the fields in order, \<open>+\<close> and percent escapes decoded; an
  incomplete escape stands for itself.\<close>

fun form_decode :: "string \<Rightarrow> string" where
  "form_decode [] = []"
| "form_decode (c # s) =
     (if c = CHR ''+'' then CHR '' '' # form_decode s
      else if c = CHR ''%'' then
        (case s of
           a # b # s' \<Rightarrow>
             (case (hex_val a, hex_val b) of
                (Some x, Some y) \<Rightarrow> char_of (16 * x + y) # form_decode s'
              | _ \<Rightarrow> c # form_decode s)
         | _ \<Rightarrow> c # form_decode s)
      else c # form_decode s)"

definition form_field :: "string \<Rightarrow> string \<times> string" where
  "form_field part =
     (case index_of CHR ''='' part of
        None \<Rightarrow> (form_decode part, [])
      | Some i \<Rightarrow> (form_decode (take i part), form_decode (drop (i + 1) part)))"

definition URLSearchParams :: "string \<Rightarrow> (string \<times> string) list" where
  "URLSearchParams body =
     (let b = (if body \<noteq> [] \<and> hd body = CHR ''?'' then tl body else body)
      in map form_field (filter (\<lambda>p. p \<noteq> []) (split_on CHR ''&'' b)))"

definition params_get :: "(string \<times> string) list \<Rightarrow> string \<Rightarrow> string option" where
  "params_get params key = map_of params key"

definition buildPayFastSigningString :: "(string \<times> string) list \<Rightarrow> string" where
  "buildPayFastSigningString params =
     join ''&'' (map (\<lambda>(key, val). key @ ''='' @ encodePayFastValue val)
       (filter (\<lambda>(key, _). key \<noteq> ''signature'') params))"

section \<open>The adapters\<close>

record 'm provider_charge_params = "'m charge_params" +
  cp_description :: "string option"
  cp_metadata :: "(string, json) jsmap option"

record provider_charge_result = charge_result +
  cr_rawResponse :: json
  cr_message :: string

record 'm provider_refund_params = "'m refund_params" +
  rp_reason :: "string option"

record provider_event =
  pe_type :: json
  pe_payload :: json
  pe_eventId :: json
  pe_provider :: string
  pe_timestamp :: int

text \<open>\<open>a ?? b\<close> for a property read.\<close>

definition nullish :: "json option \<Rightarrow> json \<Rightarrow> json" where
  "nullish a b = (case a of None \<Rightarrow> b | Some JNull \<Rightarrow> b | Some v \<Rightarrow> v)"

text \<open>Property access on a parsed body throws when the body is \<open>null\<close>.\<close>

definition read_body_field :: "json \<Rightarrow> string \<Rightarrow> json option result" where
  "read_body_field parsed k =
     (if parsed = JNull
      then Inl (Err (plain_error ''TypeError'' (''Cannot read properties of null (reading '' @ [quote_char] @ k @ [quote_char] @ '')'')))
      else Inr (jget parsed k))"

subsection \<open>Stripe\<close>

record stripe_config =
  sc_secretKey :: string
  sc_webhookSecret :: "string option"
  sc_apiVersion :: "string option"
  sc_webhookToleranceSeconds :: "number option"

text \<open>\<open>rnd\<close> are the random bytes: twelve for Stripe, eight for PayFast and Ozow.\<close>

definition stripe_charge ::
    "'d decimal_lib \<Rightarrow> nat list \<Rightarrow> 'd money provider_charge_params \<Rightarrow> provider_charge_result" where
  "stripe_charge D rnd params =
     (let minorUnits = toMinorUnits D (cp_amount params);
          currency = to_lower (m_currency (cp_amount params));
          paymentIntentId = ''pi_'' @ hex_string rnd
      in \<lparr>cr_id = paymentIntentId, cr_status = SUCCEEDED,
          cr_rawResponse = JObj [(''id'', JStr paymentIntentId), (''object'', JStr ''payment_intent''),
            (''amount'', number_json minorUnits), (''currency'', JStr currency),
            (''status'', JStr ''succeeded''),
            (''metadata'', JObj (jm_spread [(''order_id'', JStr (cp_orderId params))]
               (case cp_metadata params of None \<Rightarrow> [] | Some m \<Rightarrow> m)))],
          cr_message = ''Payment succeeded''\<rparr>)"

text \<open>The three adapters' \<open>refund\<close> reads its parameters and returns.\<close>

definition adapter_refund :: "('m, 'z) refund_params_scheme \<Rightarrow> 'w \<Rightarrow> unit result \<times> 'w" where
  "adapter_refund params w = (Inr (), w)"

definition js_abs :: "number \<Rightarrow> number" where
  "js_abs x = (if js_less x (Fin 0) then js_neg x else x)"

text \<open>\<open>now\<close> is \<open>Date.now()\<close> in milliseconds.\<close>

definition stripe_age :: "int \<Rightarrow> number \<Rightarrow> number" where
  "stripe_age now signedAt = js_abs (js_sub (js_floor (js_div (num_of_int now) (Fin 1000))) signedAt)"

definition stripe_verifyWebhookSignature ::
    "(string \<Rightarrow> string \<Rightarrow> string) \<Rightarrow> int \<Rightarrow> stripe_config \<Rightarrow> string \<Rightarrow> string \<Rightarrow> bool" where
  "stripe_verifyWebhookSignature hmac_sha256 now config body signature =
     (if \<not> truthy (sc_webhookSecret config) \<or> signature = [] then False
      else let secret = the (sc_webhookSecret config); p = parseStripeSignatureHeader signature
      in case ss_timestamp p of
           None \<Rightarrow> False
         | Some timestamp \<Rightarrow>
             if ss_signatures p = [] then False
             else let tolerance = (case sc_webhookToleranceSeconds config of None \<Rightarrow> Fin 300 | Some x \<Rightarrow> x);
                      signedAt = js_Number timestamp
             in if js_less (Fin 0) tolerance \<and>
                   (\<not> is_finite signedAt \<or> js_less tolerance (stripe_age now signedAt)) then False
                else let expected = hmacSha256Hex hmac_sha256 secret (timestamp @ ''.'' @ body)
                     in list_ex (\<lambda>candidate. timingSafeEqualHex candidate expected) (ss_signatures p))"

definition stripe_parseWebhookEvent :: "nat list \<Rightarrow> int \<Rightarrow> json \<Rightarrow> provider_event result" where
  "stripe_parseWebhookEvent rnd now parsed =
     and_then (read_body_field parsed ''type'') (\<lambda>ty. and_then (read_body_field parsed ''data'') (\<lambda>data.
       and_then (read_body_field parsed ''id'') (\<lambda>i.
         Inr \<lparr>pe_type = nullish ty (JStr ''unknown''),
              pe_payload = nullish (case data of None \<Rightarrow> None | Some d \<Rightarrow> jget d ''object'') (JObj []),
              pe_eventId = nullish i (JStr (''evt_'' @ hex_string rnd)),
              pe_provider = ''stripe'', pe_timestamp = now\<rparr>)))"

subsection \<open>PayFast and Ozow\<close>

record payfast_config =
  pf_merchantId :: string
  pf_passphrase :: string
  pf_sandbox :: "bool option"

record ozow_config =
  oz_apiKey :: string
  oz_apiSecret :: string
  oz_sandbox :: "bool option"

definition payfast_charge ::
    "'d decimal_lib \<Rightarrow> nat list \<Rightarrow> 'd money provider_charge_params \<Rightarrow> provider_charge_result" where
  "payfast_charge D rnd params =
     (let transactionId = ''pf_'' @ hex_string rnd
      in \<lparr>cr_id = transactionId, cr_status = SUCCEEDED,
          cr_rawResponse = JObj [(''transaction_id'', JStr transactionId),
            (''amount'', JStr (amount D (cp_amount params))),
            (''currency'', JStr (to_upper (m_currency (cp_amount params)))), (''status'', JStr ''COMPLETE''),
            (''order_id'', JStr (cp_orderId params)), (''payment_method'', JStr ''eft'')],
          cr_message = ''PayFast payment completed''\<rparr>)"

definition payfast_verifyWebhookSignature :: "(string \<Rightarrow> string) \<Rightarrow> payfast_config \<Rightarrow> string \<Rightarrow> string \<Rightarrow> bool" where
  "payfast_verifyWebhookSignature md5 config body signature =
     (let params = URLSearchParams body;
          provided = trim (if signature \<noteq> [] then signature
                           else (case params_get params ''signature'' of Some v \<Rightarrow> v | None \<Rightarrow> []))
      in if provided = [] then False
         else let signingString = buildPayFastSigningString params;
                  expected = md5Hex md5 (signingString @ ''&passphrase='' @ encodePayFastValue (pf_passphrase config))
              in timingSafeEqualHex provided expected)"

definition payfast_parseWebhookEvent :: "nat list \<Rightarrow> int \<Rightarrow> string \<Rightarrow> provider_event" where
  "payfast_parseWebhookEvent rnd now body =
     (let params = URLSearchParams body
      in \<lparr>pe_type = JStr (if params_get params ''payment_status'' = Some ''COMPLETE''
            then ''payment.completed'' else ''payment.failed''),
          pe_payload = JObj (jm_spread [] (map (\<lambda>(k, v). (k, JStr v)) params)),
          pe_eventId = JStr (case params_get params ''m_payment_id'' of Some v \<Rightarrow> v
            | None \<Rightarrow> ''pf_'' @ hex_string rnd),
          pe_provider = ''payfast'', pe_timestamp = now\<rparr>)"

definition ozow_charge ::
    "'d decimal_lib \<Rightarrow> nat list \<Rightarrow> 'd money provider_charge_params \<Rightarrow> provider_charge_result" where
  "ozow_charge D rnd params =
     (let minorUnits = toMinorUnits D (cp_amount params); transactionId = ''oz_'' @ hex_string rnd
      in \<lparr>cr_id = transactionId, cr_status = CHARGE_BANK_RECONCILIATION,
          cr_rawResponse = JObj [(''id'', JStr transactionId),
            (''amount'', number_json (js_div minorUnits (Fin 100))),
            (''currency'', JStr (m_currency (cp_amount params))), (''status'', JStr ''pending''),
            (''order_id'', JStr (cp_orderId params)), (''payment_method'', JStr ''eft'')],
          cr_message = ''Ozow payment pending '' @ em_dash @ '' bank reconciliation in progress''\<rparr>)"

definition ozow_verifyWebhookSignature ::
    "(string \<Rightarrow> string \<Rightarrow> string) \<Rightarrow> ozow_config \<Rightarrow> string \<Rightarrow> string \<Rightarrow> bool" where
  "ozow_verifyWebhookSignature hmac_sha512 config body signature =
     (if signature = [] then False
      else timingSafeEqualHex signature (hmacSha512Hex hmac_sha512 (oz_apiSecret config) body))"

definition ozow_parseWebhookEvent :: "nat list \<Rightarrow> int \<Rightarrow> json \<Rightarrow> provider_event result" where
  "ozow_parseWebhookEvent rnd now parsed =
     and_then (read_body_field parsed ''status'') (\<lambda>status. and_then (read_body_field parsed ''id'') (\<lambda>i.
       Inr \<lparr>pe_type = JStr (if status = Some (JStr ''Complete'') then ''payment.completed'' else ''payment.pending''),
            pe_payload = parsed,
            pe_eventId = nullish i (JStr (''oz_'' @ hex_string rnd)),
            pe_provider = ''ozow'', pe_timestamp = now\<rparr>))"

section \<open>Digests are compared exactly\<close>

lemma hex_val_digit:
  assumes "hex_val c = Some v"
  shows "v < 16" "lower_char c = digit_char v"
proof -
  have "v < 16 \<and> (of_char (lower_char c) :: nat) = of_char (digit_char v)"
    using assms
    by (auto simp: hex_val_def is_digit_char_def is_upper_char_def lower_char_def digit_char_def digit_val_def
        less_eq_char_def of_char_of take_bit_nat_eq_self split: if_splits)
  then show "v < 16" "lower_char c = digit_char v" by auto
qed

lemma hex_val_digit_char [simp]: "v < 16 \<Longrightarrow> hex_val (digit_char v) = Some v"
  by (auto simp: hex_val_def is_digit_char_def digit_char_def digit_val_def less_eq_char_def)

lemma hex_val_lower: "hex_val (lower_char c) = hex_val c"
proof -
  have "\<forall>c :: char. hex_val (lower_char c) = hex_val c" by code_simp
  then show ?thesis by blast
qed

lemma is_hex_char_val: "is_hex_char d \<Longrightarrow> lower_char d = d \<and> (\<exists>v < 16. d = digit_char v)"
proof -
  have "\<forall>d :: char. is_hex_char d \<longrightarrow> lower_char d = d \<and> hex_val d \<noteq> None" by code_simp
  moreover assume "is_hex_char d"
  ultimately show ?thesis using hex_val_digit[of d] by force
qed

lemma is_hex_char_eq: "is_hex_char d \<Longrightarrow> hex_val c = hex_val d \<longleftrightarrow> lower_char c = d"
  using is_hex_char_val[of d] hex_val_digit[of c] hex_val_lower[of c] by auto

lemma hex_val_eq_Some: "hex_val c = Some v \<longleftrightarrow> v < 16 \<and> lower_char c = digit_char v"
  using hex_val_digit[of c v] hex_val_lower[of c] by auto

definition lower_hex :: "string \<Rightarrow> bool" where
  "lower_hex d \<longleftrightarrow> list_all is_hex_char d \<and> even (length d)"

lemma length_hex_decode: "lower_hex d \<Longrightarrow> length (hex_decode d) = length d div 2"
  by (induction d rule: hex_decode.induct)
    (auto simp: lower_hex_def dest!: is_hex_char_val split: option.splits)

lemma byte_eq: "x < 16 \<Longrightarrow> y < 16 \<Longrightarrow> v < 16 \<Longrightarrow> 16 * u + v = 16 * x + y \<longleftrightarrow> u = x \<and> v = (y :: nat)"
proof -
  assume "y < 16" "v < 16"
  then have "(16 * u + v) div 16 = u" "(16 * x + y) div 16 = x" by simp_all
  then show ?thesis by (metis add_left_cancel)
qed

lemma hex_decode_eq:
  "lower_hex d \<Longrightarrow> hex_decode s = hex_decode d \<longleftrightarrow>
    to_lower (take (length d) s) = d \<and> hex_decode (drop (length d) s) = []"
proof (induction d arbitrary: s rule: induct_list012)
  case (3 a b d)
  have "is_hex_char a" "is_hex_char b" and d: "lower_hex d" using "3.prems" by (auto simp: lower_hex_def)
  then obtain x y where xy: "x < 16" "y < 16" "a = digit_char x" "b = digit_char y"
    using is_hex_char_val by blast
  note IH = "3.IH"(1)[OF d]
  show ?case
  proof (cases s rule: hex_decode.cases)
    case (1 a' b' s')
    have "hex_decode s = hex_decode (a # b # d) \<longleftrightarrow>
        hex_val a' = Some x \<and> hex_val b' = Some y \<and> hex_decode s' = hex_decode d"
      using xy hex_val_digit(1) by (auto simp: 1 byte_eq split: option.splits)
    then show ?thesis using xy IH[of s'] by (simp add: 1 hex_val_eq_Some to_lower_def)
  qed (use xy in \<open>simp_all add: to_lower_def\<close>)
qed (auto simp: lower_hex_def to_lower_def)



section \<open>The Stripe scheme\<close>

lemma index_of_append: "c \<notin> set w \<Longrightarrow> index_of c (w @ c # s) = Some (length w)"
  by (induction w) auto

lemma trim_word: "\<forall>c \<in> set s. \<not> is_space_char c \<Longrightarrow> trim s = s"
proof -
  assume "\<forall>c \<in> set s. \<not> is_space_char c"
  then have "dropWhile is_space_char s = s" "dropWhile is_space_char (rev s) = rev s"
    by (metis dropWhile_eq_self_iff hd_in_set, metis dropWhile_eq_self_iff hd_in_set set_rev)
  then have "trim_start s = s" "trim_start (rev s) = rev s" by (simp_all add: trim_start_def)
  then show ?thesis by (simp add: trim_def)
qed

lemma digit_char_props:
  "is_digit_char c \<Longrightarrow> \<not> is_space_char c \<and> c \<noteq> CHR '','' \<and> c \<noteq> CHR ''='' \<and> c \<notin> {CHR ''-'', CHR ''+''} \<and> is_hex_char c
    \<and> c \<notin> {CHR ''x'', CHR ''X'', CHR ''o'', CHR ''O'', CHR ''b'', CHR ''B'', CHR ''I''}"
  by (auto simp: is_digit_char_def is_space_char_def is_hex_char_def less_eq_char_def)

lemma hex_char_props: "is_hex_char c \<Longrightarrow> \<not> is_space_char c \<and> c \<noteq> CHR '','' \<and> c \<noteq> CHR ''=''"
proof -
  have "\<forall>c :: char. is_hex_char c \<longrightarrow> \<not> is_space_char c \<and> c \<noteq> CHR '','' \<and> c \<noteq> CHR ''=''" by code_simp
  then show "is_hex_char c \<Longrightarrow> ?thesis" by blast
qed

lemma js_Number_nat: "n < 2 ^ 53 \<Longrightarrow> js_Number (nat_to_string n) = Fin (of_nat n)"
proof -
  assume n: "n < 2 ^ 53"
  let ?s = "nat_to_string n"
  have d: "c \<in> set ?s \<Longrightarrow> is_digit_char c" for c by (rule nat_to_string_digits)
  note p = digit_char_props[OF d]
  have ne: "?s \<noteq> []" by simp
  have t: "trim ?s = ?s" using p by (intro trim_word) blast
  have ts: "trim_start ?s = ?s" using p by (simp add: trim_start_def dropWhile_eq_self_iff)
  obtain c cs where s: "?s = c # cs" using ne by (cases ?s) auto
  have c: "c \<notin> {CHR ''-'', CHR ''+''}" "c \<noteq> CHR ''I''" using p[of c] s by auto
  have t2: "take 2 ?s \<notin> {''0x'', ''0X'', ''0o'', ''0O'', ''0b'', ''0B''}"
  proof
    assume "take 2 ?s \<in> {''0x'', ''0X'', ''0o'', ''0O'', ''0b'', ''0B''}"
    then have "\<exists>x \<in> {CHR ''x'', CHR ''X'', CHR ''o'', CHR ''O'', CHR ''b'', CHR ''B''}. x \<in> set (take 2 ?s)"
      by auto
    then show False using p by (metis in_set_takeD insert_iff)
  qed
  have lit: "is_decimal_literal ?s" by (simp add: is_decimal_literal_def Let_def)
  have "of_nat n = (of_int (int n) :: rat)" by simp
  then have dbl: "to_double (of_nat n) = Fin (of_nat n)"
    using n to_double_of_int[of "int n"] by simp
  have inf: "\<not> starts_with ?s ''Infinity''" using c s by simp
  have hd: "hd ?s \<notin> {CHR ''-'', CHR ''+''}" using c s by simp
  have "parse_float ?s = Fin (of_nat n)"
    unfolding parse_float_def ts Let_def using ne hd inf dbl
    by (simp add: parse_exponent_def)
  then show ?thesis using ne hd t2 lit unfolding js_Number_def t Let_def by simp
qed

lemma parse_genuine_header:
  assumes "lower_hex d" "d \<noteq> []"
  shows "parseStripeSignatureHeader (''t='' @ nat_to_string t @ '',v1='' @ d)
    = \<lparr>ss_timestamp = Some (nat_to_string t), ss_signatures = [d]\<rparr>"
proof -
  let ?s = "nat_to_string t"
  have ds: "c \<in> set ?s \<Longrightarrow> is_digit_char c" for c by (rule nat_to_string_digits)
  have hs: "c \<in> set d \<Longrightarrow> is_hex_char c" for c using assms(1) by (auto simp: lower_hex_def list_all_iff)
  have trims: "trim ?s = ?s" "trim d = d" "trim ''t'' = ''t''" "trim ''v1'' = ''v1''"
    using digit_char_props[OF ds] hex_char_props[OF hs] by (auto intro!: trim_word simp: is_space_char_def)
  have "CHR '','' \<notin> set (''t='' @ ?s)" and "CHR '','' \<notin> set (''v1='' @ d)"
    using digit_char_props[OF ds] hex_char_props[OF hs] by auto
  note split_on_append[OF this(1), of "''v1='' @ d"] split_on_no[OF this(2)]
  then have "split_on CHR '','' ((''t='' @ ?s) @ CHR '','' # ''v1='' @ d) = [''t='' @ ?s, ''v1='' @ d]"
    by presburger
  then have sp: "split_on CHR '','' (''t='' @ ?s @ '',v1='' @ d) = [''t='' @ ?s, ''v1='' @ d]"
    by simp
  have "?s \<noteq> []" by simp
  with assms(2) trims sp show ?thesis
    by (simp add: parseStripeSignatureHeader_def Let_def)
qed

lemma stripe_age_exact:
  assumes "0 \<le> now" "now < 2 ^ 52" "t < 2 ^ 52"
  shows "stripe_age now (Fin (of_nat t)) = Fin (of_int \<bar>now div 1000 - int t\<bar>)"
proof -
  let ?k = "now div 1000"
  have k: "0 \<le> ?k" "?k < 2 ^ 52" using assms(1,2) by auto
  have f: "js_floor (js_div (num_of_int now) (Fin 1000)) = Fin (of_int ?k)"
    using floor_div_double[of now 1000] assms(1,2) by simp
  have "\<bar>?k - int t\<bar> < 2 ^ 53" using k assms(3) by auto
  then have "to_double (of_int (?k - int t)) = Fin (of_int (?k - int t))" by (rule to_double_of_int)
  then have "js_sub (Fin (of_int ?k)) (Fin (of_nat t)) = Fin (of_int (?k - int t))"
    by (simp add: js_sub_def)
  then show ?thesis unfolding stripe_age_def f js_abs_def by auto
qed

text \<open>C28: Stripe's documented scheme is accepted. A header that carries the digest of
  \<open>timestamp.body\<close> is accepted when its timestamp is at most five minutes from the clock's second,
  in either direction, and refused otherwise.\<close>

theorem stripe_accepts_genuine:
  assumes "lower_hex (hmac_sha256 secret (nat_to_string t @ ''.'' @ body))"
    and "hmac_sha256 secret (nat_to_string t @ ''.'' @ body) \<noteq> []" and "secret \<noteq> []"
    and "sc_webhookSecret config = Some secret" and "sc_webhookToleranceSeconds config = None"
    and "0 \<le> now" "now < 2 ^ 52" "t < 2 ^ 52"
  shows "stripe_verifyWebhookSignature hmac_sha256 now config body
      (''t='' @ nat_to_string t @ '',v1='' @ hmac_sha256 secret (nat_to_string t @ ''.'' @ body))
    \<longleftrightarrow> \<bar>now div 1000 - int t\<bar> \<le> 300"
proof -
  let ?d = "hmac_sha256 secret (nat_to_string t @ ''.'' @ body)"
  have n: "js_Number (nat_to_string t) = Fin (of_nat t)" using assms(8) by (intro js_Number_nat) auto
  have "timingSafeEqualHex ?d ?d"
    using hex_decode_eq[OF assms(1), of ?d] length_hex_decode[OF assms(1)] assms(1,2)
    by (cases ?d rule: hex_decode.cases) (auto simp: timingSafeEqualHex_def lower_hex_def Let_def)
  moreover have "js_less (Fin 300) (Fin (of_int \<bar>now div 1000 - int t\<bar>)) \<longleftrightarrow> \<not> \<bar>now div 1000 - int t\<bar> \<le> 300"
    unfolding js_less.simps not_le by (metis of_int_less_iff of_int_numeral)
  ultimately show ?thesis
    using assms(3-5) parse_genuine_header[OF assms(1,2)] stripe_age_exact[OF assms(6-8)] n
    by (simp add: stripe_verifyWebhookSignature_def truthy_def is_finite_def hmacSha256Hex_def Let_def)
qed

definition sample_stripe :: stripe_config where
  "sample_stripe = \<lparr>sc_secretKey = ''sk'', sc_webhookSecret = Some ''whsec'', sc_apiVersion = None,
     sc_webhookToleranceSeconds = None\<rparr>"

definition sample_hmac :: "string \<Rightarrow> string \<Rightarrow> string" where
  "sample_hmac secret m = hex_digits 64 (length m)"

lemma sample_hmac_digest: "lower_hex (sample_hmac s m)" "sample_hmac s m \<noteq> []"
  using list_all_hex_digits[of 64 "length m"] length_hex_digits[of 64 "length m"]
  by (auto simp: lower_hex_def sample_hmac_def simp del: hex_digits.simps length_hex_digits)

theorem stripe_accepts_genuine_witness:
  "let body = ''{}'' in
   stripe_verifyWebhookSignature sample_hmac 1299999 sample_stripe body
     (''t='' @ nat_to_string 1000 @ '',v1='' @ sample_hmac ''whsec'' (nat_to_string 1000 @ ''.'' @ body)) \<and>
   \<not> stripe_verifyWebhookSignature sample_hmac 1301000 sample_stripe body
     (''t='' @ nat_to_string 1000 @ '',v1='' @ sample_hmac ''whsec'' (nat_to_string 1000 @ ''.'' @ body))"
proof -
  have "sc_webhookSecret sample_stripe = Some ''whsec''" "sc_webhookToleranceSeconds sample_stripe = None"
    by (simp_all add: sample_stripe_def)
  note t = stripe_accepts_genuine[of sample_hmac "''whsec''" 1000 "''{}''" sample_stripe, OF sample_hmac_digest _ this]
  have "299 \<le> (300 :: int)" "(1299999 :: int) div 1000 = 1299" "(1301000 :: int) div 1000 = 1301" by simp_all
  with t[of 1299999] t[of 1301000] show ?thesis unfolding Let_def by simp
qed

section \<open>The PayFast scheme\<close>

lemma timingSafeEqualHex_refl: "lower_hex d \<Longrightarrow> d \<noteq> [] \<Longrightarrow> timingSafeEqualHex d d"
  using length_hex_decode[of d]
  by (cases d rule: hex_decode.cases) (auto simp: timingSafeEqualHex_def lower_hex_def Let_def)

definition payfast_char :: "char \<Rightarrow> string" where
  "payfast_char c = (if c = CHR '' '' then ''+'' else if uri_unreserved c then [c] else percent_escape c)"

lemma unreserved_props:
  "uri_unreserved c \<Longrightarrow> c \<noteq> CHR ''%'' \<and> c \<noteq> CHR ''+'' \<and> c \<noteq> CHR '' '' \<and> c \<noteq> CHR ''&''"
  by (auto simp: uri_unreserved_def is_word_char_def is_digit_char_def is_lower_char_def is_upper_char_def less_eq_char_def)

lemma upper_digit_props:
  "v < 16 \<Longrightarrow> hex_val (upper_char (digit_char v)) = Some v \<and> upper_char (digit_char v) \<noteq> CHR ''%''
    \<and> upper_char (digit_char v) \<noteq> CHR ''&''"
proof -
  have "list_all (\<lambda>v. hex_val (upper_char (digit_char v)) = Some v \<and> upper_char (digit_char v) \<noteq> CHR ''%''
    \<and> upper_char (digit_char v) \<noteq> CHR ''&'') [0..<16]" by code_simp
  then show "v < 16 \<Longrightarrow> ?thesis" by (simp add: list_all_iff)
qed

lemma percent_escape_shape:
  obtains x y where "percent_escape c = [CHR ''%'', upper_char (digit_char x), upper_char (digit_char y)]"
    and "x < 16" "y < 16" "char_of (16 * x + y) = c"
proof
  show "percent_escape c = [CHR ''%'', upper_char (digit_char (of_char c div 16 mod 16)),
      upper_char (digit_char (of_char c mod 16))]"
    by (simp add: percent_escape_def byte_hex_def to_upper_def)
  have "(of_char c :: nat) < 16 * 16" by simp
  then have "(of_char c :: nat) div 16 < 16" by (rule less_mult_imp_div_less)
  then have "(of_char c :: nat) div 16 mod 16 = of_char c div 16" by (rule mod_less)
  then have "16 * (of_char c div 16 mod 16) + of_char c mod 16 = (of_char c :: nat)"
    by (simp only: mult_div_mod_eq)
  then show "char_of (16 * (of_char c div 16 mod 16) + of_char c mod 16 :: nat) = c" by simp
qed simp_all

lemma plus_spaces_skip: "a \<noteq> CHR ''%'' \<Longrightarrow> plus_spaces (a # s) = a # plus_spaces s"
  by (cases s rule: plus_spaces.cases) auto

lemma upper_escapes_skip: "a \<noteq> CHR ''%'' \<Longrightarrow> upper_escapes (a # s) = a # upper_escapes s"
  by (cases s rule: upper_escapes.cases) auto

lemma percent_escape_space: "percent_escape c = ''%20'' \<longleftrightarrow> c = CHR '' ''"
proof
  assume e: "percent_escape c = ''%20''"
  obtain x y where "percent_escape c = [CHR ''%'', upper_char (digit_char x), upper_char (digit_char y)]"
    and b: "x < 16" "y < 16" and c: "char_of (16 * x + y) = c"
    by (rule percent_escape_shape)
  with e have u: "upper_char (digit_char x) = CHR ''2''" "upper_char (digit_char y) = CHR ''0''" by simp_all
  have "hex_val CHR ''2'' = Some x" "hex_val CHR ''0'' = Some y"
    using upper_digit_props[OF b(1)] upper_digit_props[OF b(2)] by (simp_all add: u)
  moreover have "hex_val CHR ''2'' = Some 2" "hex_val CHR ''0'' = Some 0" by code_simp+
  moreover have "char_of (32 :: nat) = CHR '' ''" by code_simp
  ultimately show "c = CHR '' ''" using c by auto
next
  have "percent_escape CHR '' '' = ''%20''" by code_simp
  then show "c = CHR '' '' \<Longrightarrow> percent_escape c = ''%20''" by simp
qed

lemma plus_spaces_chars: "plus_spaces (encodeURIComponent s) = concat (map payfast_char s)"
proof (induction s)
  case (Cons c s)
  obtain x y where e: "percent_escape c = [CHR ''%'', upper_char (digit_char x), upper_char (digit_char y)]"
    and b: "x < 16" "y < 16"
    by (rule percent_escape_shape)
  have "plus_spaces (percent_escape c @ t) = payfast_char c @ plus_spaces t" if "\<not> uri_unreserved c" for t
    using that upper_digit_props[OF b(1)] upper_digit_props[OF b(2)] percent_escape_space[of c] e
    by (auto simp: payfast_char_def plus_spaces_skip)
  with Cons show ?case
    using unreserved_props[of c] by (auto simp: encodeURIComponent_def plus_spaces_skip payfast_char_def)
qed (simp add: encodeURIComponent_def)

lemma upper_escapes_chars: "upper_escapes (concat (map payfast_char s)) = concat (map payfast_char s)"
proof (induction s)
  case (Cons c s)
  obtain x y where e: "percent_escape c = [CHR ''%'', upper_char (digit_char x), upper_char (digit_char y)]"
    and b: "x < 16" "y < 16"
    by (rule percent_escape_shape)
  have "upper_escapes (percent_escape c @ t) = percent_escape c @ upper_escapes t" for t
    using upper_digit_props[OF b(1)] upper_digit_props[OF b(2)] by (simp add: e)
  with Cons show ?case
    using unreserved_props[of c] by (auto simp: payfast_char_def upper_escapes_skip)
qed simp

lemma encodePayFastValue_chars: "encodePayFastValue s = concat (map payfast_char s)"
  by (simp add: encodePayFastValue_def plus_spaces_chars upper_escapes_chars)

lemma form_decode_encode: "form_decode (encodePayFastValue s) = s"
proof (induction s)
  case (Cons c s)
  obtain x y where e: "percent_escape c = [CHR ''%'', upper_char (digit_char x), upper_char (digit_char y)]"
    and b: "x < 16" "y < 16" "char_of (16 * x + y) = c"
    by (rule percent_escape_shape)
  have "form_decode (percent_escape c @ t) = c # form_decode t" for t
    using upper_digit_props[OF b(1)] upper_digit_props[OF b(2)] b(3) by (simp add: e)
  with Cons show ?case
    using unreserved_props[of c] by (auto simp: encodePayFastValue_chars payfast_char_def)
qed (simp add: encodePayFastValue_chars)

lemma encodePayFastValue_no_sep: "CHR ''&'' \<notin> set (encodePayFastValue s)"
proof (induction s)
  case (Cons c s)
  obtain x y where e: "percent_escape c = [CHR ''%'', upper_char (digit_char x), upper_char (digit_char y)]"
    and b: "x < 16" "y < 16"
    by (rule percent_escape_shape)
  have "CHR ''&'' \<notin> set (percent_escape c)"
    using upper_digit_props[OF b(1)] upper_digit_props[OF b(2)] by (auto simp: e)
  with Cons show ?case
    using unreserved_props[of c] by (auto simp: encodePayFastValue_chars payfast_char_def)
qed (simp add: encodePayFastValue_chars)

definition form_key_ok :: "string \<Rightarrow> bool" where
  "form_key_ok k \<longleftrightarrow> list_all is_word_char k \<and> k \<noteq> [] \<and> k \<noteq> ''signature''"

lemma word_char_props: "is_word_char c \<Longrightarrow>
    c \<noteq> CHR ''%'' \<and> c \<noteq> CHR ''+'' \<and> c \<noteq> CHR ''&'' \<and> c \<noteq> CHR ''='' \<and> c \<noteq> CHR ''?''"
  by (auto simp: is_word_char_def is_digit_char_def is_lower_char_def is_upper_char_def less_eq_char_def)

lemma form_decode_word: "list_all is_word_char s \<Longrightarrow> form_decode s = s"
  by (induction s) (auto dest: word_char_props)

lemma form_field_signed:
  "list_all is_word_char k \<Longrightarrow> form_field (k @ ''='' @ encodePayFastValue v) = (k, v)"
proof -
  assume k: "list_all is_word_char k"
  then have "CHR ''='' \<notin> set k" by (auto simp: list_all_iff dest: word_char_props)
  then have "index_of CHR ''='' (k @ CHR ''='' # encodePayFastValue v) = Some (length k)"
    by (rule index_of_append)
  with k show ?thesis by (simp add: form_field_def form_decode_word form_decode_encode)
qed

lemma hex_char_unreserved: "is_hex_char c \<Longrightarrow> payfast_char c = [c]"
proof -
  have "\<forall>c :: char. is_hex_char c \<longrightarrow> uri_unreserved c \<and> c \<noteq> CHR '' ''" by code_simp
  then show "is_hex_char c \<Longrightarrow> payfast_char c = [c]" by (simp add: payfast_char_def)
qed

lemma lower_hex_encode: "lower_hex d \<Longrightarrow> encodePayFastValue d = d"
proof -
  assume "lower_hex d"
  then have "list_all is_hex_char d" by (simp add: lower_hex_def)
  then show "encodePayFastValue d = d"
    by (induction d) (simp_all add: encodePayFastValue_chars hex_char_unreserved)
qed

lemma join_snoc: "ws \<noteq> [] \<Longrightarrow> join sep (ws @ [w]) = join sep ws @ sep @ w"
  by (induction ws rule: induct_list012) auto

lemma parse_signed_form:
  assumes "list_all (\<lambda>(k, v). form_key_ok k) fvs" "fvs \<noteq> []" "lower_hex d"
  shows "URLSearchParams (buildPayFastSigningString fvs @ ''&signature='' @ d) = fvs @ [(''signature'', d)]"
proof -
  let ?part = "\<lambda>(k, v). k @ ''='' @ encodePayFastValue v"
  let ?all = "fvs @ [(''signature'', d)]"
  have ok: "list_all is_word_char k" "k \<noteq> []" "k \<noteq> ''signature''" if "(k, v) \<in> set fvs" for k v
    using assms(1) that by (auto simp: list_all_iff form_key_ok_def)
  have sig: "list_all is_word_char ''signature''" by code_simp
  have word: "list_all is_word_char k" if "(k, v) \<in> set ?all" for k v
    using ok sig that by auto
  have flt: "filter (\<lambda>(k, _). k \<noteq> ''signature'') fvs = fvs"
    by (auto simp: filter_id_conv dest: ok(3))
  have body: "buildPayFastSigningString fvs @ ''&signature='' @ d = join ''&'' (map ?part ?all)"
    using assms(2) by (simp add: buildPayFastSigningString_def flt join_snoc lower_hex_encode[OF assms(3)])
  have "CHR ''&'' \<notin> set w" if w: "w \<in> set (map ?part ?all)" for w
  proof -
    from w obtain p where p: "w = ?part p" "p \<in> set ?all" unfolding set_map by (rule imageE)
    obtain k v where "p = (k, v)" by fastforce
    with p have kv: "(k, v) \<in> set ?all" "w = k @ ''='' @ encodePayFastValue v" by simp_all
    have "CHR ''&'' \<notin> set k" using word[OF kv(1)] by (auto simp: list_all_iff dest: word_char_props)
    then show ?thesis using encodePayFastValue_no_sep by (simp add: kv(2))
  qed
  then have "split_on CHR ''&'' (join ''&'' (map ?part ?all)) = map ?part ?all"
    by (intro split_on_join) auto
  moreover have "hd (join ''&'' (map ?part ?all)) \<noteq> CHR ''?''"
  proof -
    obtain k v fs where f: "fvs = (k, v) # fs" using assms(2) by (metis list.exhaust prod.exhaust)
    then obtain c k' where k: "k = c # k'" using ok(2)[of k v] by (auto simp: neq_Nil_conv)
    then have "is_word_char c" using ok(1)[of k v] f by simp
    moreover have "\<exists>t. join ''&'' (map ?part ?all) = c # t" by (cases "fs @ [(''signature'', d)]") (auto simp: f k)
    ultimately show ?thesis using word_char_props by auto
  qed
  moreover have "filter (\<lambda>p. p \<noteq> []) (map ?part ?all) = map ?part ?all"
    by (auto simp: filter_id_conv)
  moreover have "map form_field (map ?part ?all) = ?all"
  proof -
    have "form_field (?part p) = p" if "p \<in> set ?all" for p
      using form_field_signed[OF word[of "fst p" "snd p"]] that by (simp add: case_prod_beta)
    then show ?thesis by (simp only: map_map comp_def) (rule map_idI)
  qed
  ultimately show ?thesis unfolding body URLSearchParams_def Let_def by simp
qed



text \<open>The encoding is not the one of PHP's \<open>urlencode\<close>, which escapes the characters below.\<close>

lemma payfast_keeps_marks: "encodePayFastValue ''!*()~'' = ''!*()~''"
  by code_simp

text \<open>A rollback through an adapter reports success and changes nothing at the provider.\<close>

lemma adapters_roll_back_nothing:
  assumes "pv_refund p = Some adapter_refund"
  shows "\<exists>ids. runAll p stack w = (Inr (), w, ids)"
proof -
  have "\<exists>ids. run_in_order p cs w = (Inr (), w, ids)" for cs
    using assms by (induction cs) (auto simp: compensate_def adapter_refund_def split: compensation.splits)
  then show ?thesis by (simp add: runAll_def)
qed

end
