(* ===== verification/Site.thy ===== *)
theory Site
  imports Docs Signature
begin

text \<open>
  The documentation site around the index of Docs: the navigation and the pager of a page
  (website/src/lib/nav.ts, app/docs/[...slug]/page.tsx), the marking of the current page
  (components/header.tsx, sidebar.tsx), the contents list (toc.tsx), the language of a code block
  (code-block.tsx) and the chained journal of the front page (home/journal.tsx). Markup and styling are
  left out; a component is what it shows as a function of its state, and its state's changes.
\<close>

section \<open>Navigation and pager\<close>

definition GUIDED :: "nav_group list" where
  "GUIDED =
     [\<lparr>ng_title = ''Start here'', ng_items =
         [(''Introduction'', ''/docs''), (''Installation'', ''/docs/installation''), (''Quick start'', ''/docs/quick-start''),
          (''Project setup'', ''/docs/project-setup''), (''Configuration'', ''/docs/configuration'')]\<rparr>,
      \<lparr>ng_title = ''Core concepts'', ng_items =
         [(''Architecture overview'', ''/docs/architecture''), (''Context system'', ''/docs/concepts/context''),
          (''Actions'', ''/docs/concepts/actions''), (''Events'', ''/docs/concepts/events''),
          (''Transactions'', ''/docs/concepts/transactions''), (''Multi-tenancy'', ''/docs/concepts/tenancy'')]\<rparr>,
      \<lparr>ng_title = ''Tools and help'', ng_items =
         [(''CLI commands'', ''/docs/cli''), (''Plugin overview'', ''/docs/plugins''),
          (''Troubleshooting'', ''/docs/troubleshooting''), (''FAQ'', ''/docs/faq'')]\<rparr>]"

definition getFullNav :: "doc_entry list \<Rightarrow> nav_group list" where
  "getFullNav docs = GUIDED @ getDocNav docs"

definition find_index :: "('a \<Rightarrow> bool) \<Rightarrow> 'a list \<Rightarrow> nat" where
  "find_index P xs = length (takeWhile (\<lambda>x. \<not> P x) xs)"

text \<open>The previous and the next page, in the first group that lists the address.\<close>

definition pager :: "nav_group list \<Rightarrow> string \<Rightarrow> (string \<times> string) option \<times> (string \<times> string) option" where
  "pager groups href =
     (case find (\<lambda>g. list_ex (\<lambda>i. snd i = href) (ng_items g)) groups of
        None \<Rightarrow> (None, None)
      | Some g \<Rightarrow>
          (let idx = find_index (\<lambda>i. snd i = href) (ng_items g)
           in (if 0 < idx then Some (ng_items g ! (idx - 1)) else None,
               if idx < length (ng_items g) - 1 then Some (ng_items g ! (idx + 1)) else None)))"

record crumb =
  cb_label :: "string property"
  cb_href :: "string option"

record doc_page =
  dp_file :: path
  dp_crumbs :: "crumb list"
  dp_prev :: "(string \<times> string) option"
  dp_next :: "(string \<times> string) option"

text \<open>\<open>None\<close> is \<open>notFound\<close>.\<close>

definition DocPage :: "doc_entry list \<Rightarrow> string list \<Rightarrow> doc_page option" where
  "DocPage docs slug = map_option (\<lambda>doc.
     (let (prev, next) = pager (getFullNav docs) (docHref doc)
      in \<lparr>dp_file = de_file doc,
          dp_crumbs = [\<lparr>cb_label = Own ''Docs'', cb_href = Some ''/docs''\<rparr>, \<lparr>cb_label = de_group doc, cb_href = None\<rparr>,
            \<lparr>cb_label = Own (de_title doc), cb_href = None\<rparr>],
          dp_prev = prev, dp_next = next\<rparr>)) (findDoc docs slug)"

definition generateStaticParams :: "doc_entry list \<Rightarrow> string list list" where
  "generateStaticParams docs = map de_slug (filter (\<lambda>d. de_slug d \<noteq> []) docs)"

definition generateMetadata :: "doc_entry list \<Rightarrow> string list \<Rightarrow> string" where
  "generateMetadata docs slug = (case findDoc docs slug of Some doc \<Rightarrow> de_title doc | None \<Rightarrow> ''Docs'')"

section \<open>Header and sidebar\<close>

definition NAV :: "(string \<times> string) list" where
  "NAV = [(''Docs'', ''/docs''), (''API'', ''/docs/api''), (''Examples'', ''/examples''), (''Roadmap'', ''/roadmap''),
     (''Changelog'', ''/changelog'')]"

definition isActive :: "string \<Rightarrow> string \<Rightarrow> bool" where
  "isActive pathname href =
     (if href = ''/docs'' then pathname = ''/docs'' \<or> starts_with pathname ''/docs/'' \<and> \<not> starts_with pathname ''/docs/api''
      else starts_with pathname href)"

text \<open>The menu: a click on the button turns it over, a new path closes it.\<close>

datatype menu_event = ToggleMenu | OpenMenu | CloseMenu | Navigate string

fun menu_step :: "menu_event \<Rightarrow> bool \<times> string \<Rightarrow> bool \<times> string" where
  "menu_step ToggleMenu (opened, pathname) = (\<not> opened, pathname)"
| "menu_step OpenMenu (opened, pathname) = (True, pathname)"
| "menu_step CloseMenu (opened, pathname) = (False, pathname)"
| "menu_step (Navigate p) (opened, pathname) = (if p = pathname then opened else False, p)"

definition sidebar_path :: "string \<Rightarrow> string" where
  "sidebar_path pathname = (let p = (if pathname \<noteq> [] \<and> last pathname = CHR ''/'' then butlast pathname else pathname)
     in if p = [] then ''/'' else p)"

definition sidebar_active :: "nav_group list \<Rightarrow> string \<Rightarrow> (string \<times> string) list" where
  "sidebar_active groups pathname = filter (\<lambda>i. snd i = sidebar_path pathname) (concat (map ng_items groups))"

section \<open>On this page\<close>

record toc_item =
  tc_id :: string
  tc_text :: string
  tc_depth :: nat

text \<open>The identifier a heading without one gets.\<close>

definition toc_slug :: "string \<Rightarrow> string" where
  "toc_slug s = replace_runs (\<lambda>c. c = CHR '' '') CHR ''-'' (trim (filter (\<lambda>c. is_word_char c \<or> c = CHR '' '') (to_lower s)))"

definition toc_items :: "(string \<times> string \<times> string) list \<Rightarrow> toc_item list" where
  "toc_items heads = map (\<lambda>(tag, i, txt).
     \<lparr>tc_id = (if i = [] then toc_slug txt else i), tc_text = txt, tc_depth = (if tag = ''H2'' then 2 else 3)\<rparr>) heads"

text \<open>What the observer reports: for each heading whether it intersects, its top and its identifier.\<close>

record toc_entry =
  te_intersecting :: bool
  te_top :: rat
  te_id :: string

definition toc_observe :: "toc_entry list \<Rightarrow> string \<Rightarrow> string" where
  "toc_observe entries active = (case sort_key te_top (filter te_intersecting entries) of e # _ \<Rightarrow> te_id e | [] \<Rightarrow> active)"

definition toc_shown :: "toc_item list \<Rightarrow> string \<Rightarrow> (toc_item \<times> bool) list option" where
  "toc_shown items active = (if length items < 3 then None else Some (map (\<lambda>i. (i, active = tc_id i)) items))"

section \<open>Code blocks\<close>

definition LANG_ALIASES :: "(string, string) jsmap" where
  "LANG_ALIASES = [(''ts'', ''typescript''), (''sh'', ''bash''), (''shell'', ''bash''), (''env'', ''bash''), (''txt'', ''text''),
     (''plain'', ''text'')]"

text \<open>The highlighter throws on a language it does not know, and the text is shown plain; an inherited
  property is no language.\<close>

definition code_html :: "(string \<Rightarrow> string \<Rightarrow> string option) \<Rightarrow> string \<Rightarrow> string \<Rightarrow> string option" where
  "code_html codeToHtml code language =
     (case (case get_property LANG_ALIASES language of
              Own lang \<Rightarrow> codeToHtml code lang | Undefined \<Rightarrow> codeToHtml code language | Inherited \<Rightarrow> None) of
        Some html \<Rightarrow> Some html
      | None \<Rightarrow> codeToHtml code ''text'')"

section \<open>The journal\<close>

record journal_entry =
  je_account :: string
  je_debit :: string
  je_credit :: string

definition ENTRIES :: "journal_entry list" where
  "ENTRIES = [\<lparr>je_account = ''Accounts receivable'', je_debit = ''172.50'', je_credit = []\<rparr>,
     \<lparr>je_account = ''Sales revenue'', je_debit = [], je_credit = ''150.00''\<rparr>,
     \<lparr>je_account = ''Tax payable'', je_debit = [], je_credit = ''22.50''\<rparr>]"

definition entry_text :: "string \<Rightarrow> nat \<Rightarrow> journal_entry \<Rightarrow> string" where
  "entry_text prev n e = join ''|'' [prev, nat_to_string n, je_account e, je_debit e, je_credit e]"

text \<open>The hashes of a run of entries from number \<open>n\<close>; the column shows their first twelve digits.\<close>

fun chain_from :: "(string \<Rightarrow> string) \<Rightarrow> string \<Rightarrow> nat \<Rightarrow> journal_entry list \<Rightarrow> string list" where
  "chain_from sha256 prev n [] = []"
| "chain_from sha256 prev n (e # es) = (let hash = sha256 (entry_text prev n e) in hash # chain_from sha256 hash (n + 1) es)"

definition chain :: "(string \<Rightarrow> string) \<Rightarrow> journal_entry list \<Rightarrow> (nat \<times> journal_entry \<times> string) list" where
  "chain sha256 es = zip [1..<length es + 1] (zip es (map (take 12) (chain_from sha256 (replicate 64 CHR ''0'') 1 es)))"

definition column_total :: "(journal_entry \<Rightarrow> string) \<Rightarrow> journal_entry list \<Rightarrow> number" where
  "column_total f rows = foldl (\<lambda>s r. js_add s (js_mul (js_Number (if f r = [] then ''0'' else f r)) (Fin 100))) (Fin 0) rows"

definition balance_note :: "journal_entry list \<Rightarrow> string" where
  "balance_note rows = (if column_total je_debit rows = column_total je_credit rows \<and> column_total je_debit rows \<noteq> NaN
     then ''debits = credits'' else ''out of balance'')"

section \<open>The pager is a chain\<close>

lemma find_index_nth:
  assumes "distinct (map f xs)" "i < length xs"
  shows "find_index (\<lambda>x. f x = f (xs ! i)) xs = i"
  using assms
proof (induction xs arbitrary: i)
  case (Cons x xs)
  then show ?case by (cases i) (auto simp: find_index_def image_iff)
qed simp

lemma list_ex_href: "list_ex (\<lambda>i. snd i = h) items \<longleftrightarrow> h \<in> snd ` set items"
  by (auto simp: list_ex_iff image_iff)

lemma find_group:
  assumes "distinct (map snd (concat (map ng_items gs)))" "g \<in> set gs" "h \<in> snd ` set (ng_items g)"
  shows "find (\<lambda>g. list_ex (\<lambda>i. snd i = h) (ng_items g)) gs = Some g"
  using assms
proof (induction gs)
  case (Cons g' gs)
  have rest: "distinct (map snd (concat (map ng_items gs)))" using Cons.prems(1) by simp
  show ?case
  proof (cases "h \<in> snd ` set (ng_items g')")
    case False
    then have "g \<in> set gs" using Cons.prems by auto
    with False Cons.IH[OF rest _ Cons.prems(3)] show ?thesis by (simp add: list_ex_href)
  next
    case True
    have "g \<notin> set gs"
    proof
      assume "g \<in> set gs"
      then have "h \<in> snd ` set (concat (map ng_items gs))" using Cons.prems(3) by auto
      with True Cons.prems(1) show False by auto
    qed
    with True Cons.prems(2) show ?thesis by (simp add: list_ex_href)
  qed
qed simp

lemma pager_at:
  assumes "distinct (map snd (concat (map ng_items gs)))" "g \<in> set gs" "i < length (ng_items g)"
  shows "pager gs (snd (ng_items g ! i)) =
    (if 0 < i then Some (ng_items g ! (i - 1)) else None, if i + 1 < length (ng_items g) then Some (ng_items g ! (i + 1)) else None)"
proof -
  have "distinct (map snd (ng_items g))" using assms(1,2) by (induction gs) auto
  from find_index_nth[OF this assms(3)] have "find_index (\<lambda>x. snd x = snd (ng_items g ! i)) (ng_items g) = i" .
  then show ?thesis using find_group[OF assms(1,2), of "snd (ng_items g ! i)"] assms(3) by (auto simp: pager_def)
qed

lemma pager_chain:
  assumes "distinct (map snd (concat (map ng_items gs)))"
  shows "snd (pager gs h) = Some (t', h') \<Longrightarrow> \<exists>t. fst (pager gs h') = Some (t, h)"
    and "fst (pager gs h) = Some (t', h') \<Longrightarrow> \<exists>t. snd (pager gs h') = Some (t, h)"
proof -
  have place: "\<exists>g i. g \<in> set gs \<and> i < length (ng_items g) \<and> snd (ng_items g ! i) = h" if ne: "pager gs h \<noteq> (None, None)"
  proof -
    obtain g where "find (\<lambda>g. list_ex (\<lambda>i. snd i = h) (ng_items g)) gs = Some g"
      using ne by (cases "find (\<lambda>g. list_ex (\<lambda>i. snd i = h) (ng_items g)) gs") (auto simp: pager_def)
    then have "g \<in> set gs" "h \<in> snd ` set (ng_items g)" by (auto simp: find_Some_iff list_ex_href)
    then show ?thesis by (metis imageE in_set_conv_nth)
  qed
  {
    assume n: "snd (pager gs h) = Some (t', h')"
    then obtain g i where g: "g \<in> set gs" "i < length (ng_items g)" "snd (ng_items g ! i) = h" using place by force
    then have i: "i + 1 < length (ng_items g)" "ng_items g ! (i + 1) = (t', h')"
      using n pager_at[OF assms g(1,2)] by (auto split: if_splits)
    with pager_at[OF assms g(1) i(1)] g(3) show "\<exists>t. fst (pager gs h') = Some (t, h)" by (cases "ng_items g ! i") auto
  }
  {
    assume p: "fst (pager gs h) = Some (t', h')"
    then obtain g i where g: "g \<in> set gs" "i < length (ng_items g)" "snd (ng_items g ! i) = h" using place by force
    then have i: "0 < i" "ng_items g ! (i - 1) = (t', h')"
      using p pager_at[OF assms g(1,2)] by (auto split: if_splits)
    then have "i - 1 < length (ng_items g)" using g(2) by simp
    from pager_at[OF assms g(1) this] i g(2,3) show "\<exists>t. snd (pager gs h') = Some (t, h)" by (cases "ng_items g ! i") auto
  }
qed

lemma image_outside: "\<forall>x \<in> A. f x \<notin> B \<Longrightarrow> B \<inter> f ` A = {}"
  by auto

lemma DocPage_pager:
  assumes "findDoc docs slug = Some d"
  shows "\<exists>page. DocPage docs slug = Some page \<and> dp_file page = de_file d \<and>
    dp_prev page = fst (pager (getFullNav docs) (docHref d)) \<and> dp_next page = snd (pager (getFullNav docs) (docHref d))"
  using assms by (cases "pager (getFullNav docs) (docHref d)") (simp add: DocPage_def)

lemma guided_distinct: "distinct (map snd (concat (map ng_items GUIDED)))"
  by code_simp

lemma guided_docs: "''/docs'' \<in> snd ` set (concat (map ng_items GUIDED))"
  by (simp add: GUIDED_def)

text \<open>C7: the site's navigation is complete and consistent. Every markdown file under \<open>docs\<close> has a page at
  its route; the navigation lists the guides and every page exactly once; each page is built, is found under
  its own slug and shows its own file; and the pager is a chain: the next page's previous page is the
  page itself, and the other way round. The documents must not use the address of a guide, nor lie in
  a folder named like an inherited property.\<close>

theorem site_navigation:
  assumes "tree_ok fs" and "jm_get fs (repo @ [''docs'']) = Some Dir"
    and "getAllDocs pictographs fs repo None = (Inr docs, cache)" and "\<forall>d \<in> set docs. de_group d \<noteq> Inherited"
    and "\<forall>d \<in> set docs. docHref d \<notin> snd ` set (concat (map ng_items GUIDED))"
  shows "(\<forall>p \<in> markdown_files fs (repo @ [''docs'']). DocPage docs (slug_of (drop (length repo + 1) p)) \<noteq> None) \<and>
    mset (concat (map ng_items (getFullNav docs))) =
      mset (concat (map ng_items GUIDED)) + mset (map (\<lambda>d. (de_title d, docHref d)) docs) \<and>
    (\<forall>d \<in> set docs. de_slug d \<in> set (generateStaticParams docs) \<and> (\<exists>page. DocPage docs (de_slug d) = Some page \<and> dp_file page = de_file d \<and>
      (\<forall>t h. dp_next page = Some (t, h) \<longrightarrow> (\<exists>t'. fst (pager (getFullNav docs) h) = Some (t', docHref d))) \<and>
      (\<forall>t h. dp_prev page = Some (t, h) \<longrightarrow> (\<exists>t'. snd (pager (getFullNav docs) h) = Some (t', docHref d)))))"
proof (intro conjI ballI)
  note site = site_complete[OF assms(1-4)]
  have nav: "mset (concat (map ng_items (getFullNav docs))) =
      mset (concat (map ng_items GUIDED)) + mset (map (\<lambda>d. (de_title d, docHref d)) docs)"
    using site(4) by (simp add: getFullNav_def)
  then show "mset (concat (map ng_items (getFullNav docs))) =
      mset (concat (map ng_items GUIDED)) + mset (map (\<lambda>d. (de_title d, docHref d)) docs)" .
  show "DocPage docs (slug_of (drop (length repo + 1) p)) \<noteq> None" if p: "p \<in> markdown_files fs (repo @ [''docs''])" for p
  proof -
    obtain d where "d \<in> set docs" "doc_key d = join ''/'' (slug_of (drop (length repo + 1) p))"
      using bspec[OF site(1) p] by blast
    then show ?thesis by (auto simp: DocPage_def findDoc_def find_None_iff)
  qed
  have "mset (map snd (concat (map ng_items (getFullNav docs)))) = mset (map snd (concat (map ng_items GUIDED)) @ map docHref docs)"
    using arg_cong[OF nav, of "image_mset snd"] by (simp add: image_mset.compositionality comp_def)
  moreover have "snd ` set (concat (map ng_items GUIDED)) \<inter> docHref ` set docs = {}"
    by (rule image_outside[OF assms(5)])
  then have "distinct (map snd (concat (map ng_items GUIDED)) @ map docHref docs)"
    unfolding distinct_append set_map using guided_distinct site(2) by (intro conjI)
  ultimately have dist: "distinct (map snd (concat (map ng_items (getFullNav docs))))"
    by (metis mset_eq_imp_distinct_iff)
  fix d assume d: "d \<in> set docs"
  have "docHref d \<noteq> ''/docs''" using bspec[OF assms(5) d] guided_docs by metis
  then have "de_slug d \<noteq> []" by (auto simp: docHref_def)
  with d show "de_slug d \<in> set (generateStaticParams docs)" by (auto simp: generateStaticParams_def)
  from d have "findDoc docs (de_slug d) = Some d" using site(3) by blast
  from DocPage_pager[OF this] obtain page where "DocPage docs (de_slug d) = Some page" "dp_file page = de_file d"
    and pn: "dp_prev page = fst (pager (getFullNav docs) (docHref d))" "dp_next page = snd (pager (getFullNav docs) (docHref d))"
    by blast
  moreover have "\<exists>t'. fst (pager (getFullNav docs) h) = Some (t', docHref d)" if "dp_next page = Some (t, h)" for t h
    using pager_chain(1)[OF dist] that pn(2) by simp
  moreover have "\<exists>t'. snd (pager (getFullNav docs) h) = Some (t', docHref d)" if "dp_prev page = Some (t, h)" for t h
    using pager_chain(2)[OF dist] that pn(1) by simp
  ultimately show "\<exists>page. DocPage docs (de_slug d) = Some page \<and> dp_file page = de_file d \<and>
      (\<forall>t h. dp_next page = Some (t, h) \<longrightarrow> (\<exists>t'. fst (pager (getFullNav docs) h) = Some (t', docHref d))) \<and>
      (\<forall>t h. dp_prev page = Some (t, h) \<longrightarrow> (\<exists>t'. snd (pager (getFullNav docs) h) = Some (t', docHref d)))"
    by blast
qed

text \<open>The witness: a repository with three documents.\<close>

theorem site_navigation_witness:
  "let fs = [([''r''], Dir), ([''r'', ''docs''], Dir), ([''r'', ''docs'', ''agent.md''], File ''# Agent''),
        ([''r'', ''docs'', ''api''], Dir), ([''r'', ''docs'', ''api'', ''index.md''], File ''no title''),
        ([''r'', ''docs'', ''api'', ''core.md''], File ''# Core'')];
       docs = (case getAllDocs id fs [''r''] None of (Inr docs, _) \<Rightarrow> docs | _ \<Rightarrow> [])
   in length docs = 3 \<and> DocPage docs [''api'', ''core''] \<noteq> None"
proof -
  let ?fs = "[([''r''], Dir), ([''r'', ''docs''], Dir), ([''r'', ''docs'', ''agent.md''], File ''# Agent''),
        ([''r'', ''docs'', ''api''], Dir), ([''r'', ''docs'', ''api'', ''index.md''], File ''no title''),
        ([''r'', ''docs'', ''api'', ''core.md''], File ''# Core'')]"
  have tree: "tree_ok ?fs"
    by (auto simp: tree_ok_def jm_wf_def jm_keys_def strict_prefix_def prefix_def Cons_eq_append_conv)
  have dir: "jm_get ?fs ([''r''] @ [''docs'']) = Some Dir" by simp
  obtain docs cache where docs: "getAllDocs id ?fs [''r''] None = (Inr docs, cache)"
    and props: "length docs = 3" "list_all (\<lambda>d. de_group d \<noteq> Inherited) docs"
      "list_all (\<lambda>d. docHref d \<notin> set (map snd (concat (map ng_items GUIDED)))) docs"
  proof -
    have "(case getAllDocs id ?fs [''r''] None of (Inr docs, _) \<Rightarrow> length docs = 3 \<and>
        list_all (\<lambda>d. de_group d \<noteq> Inherited) docs \<and>
        list_all (\<lambda>d. docHref d \<notin> set (map snd (concat (map ng_items GUIDED)))) docs | _ \<Rightarrow> False)" by code_simp
    then show ?thesis using that by (cases "getAllDocs id ?fs [''r''] None"; cases "fst (getAllDocs id ?fs [''r''] None)") auto
  qed
  have "[''r'', ''docs'', ''api'', ''core.md''] \<in> markdown_files ?fs ([''r''] @ [''docs''])"
    by (simp add: markdown_files_def strict_prefix_def) code_simp
  moreover have "slug_of (drop (length [''r''] + 1) [''r'', ''docs'', ''api'', ''core.md'']) = [''api'', ''core'']" by code_simp
  ultimately show ?thesis
    using site_navigation[OF tree dir docs] props by (auto simp: docs list_all_iff Let_def)
qed

section \<open>The current page\<close>

text \<open>At most one entry of the header is marked as current.\<close>

lemma starts_with_comparable: "starts_with p a \<Longrightarrow> starts_with p b \<Longrightarrow> starts_with a b \<or> starts_with b a"
  unfolding starts_with_iff by (metis append_eq_append_conv2)

lemma active_prefix: "isActive p h \<Longrightarrow> starts_with p h"
  by (auto simp: isActive_def starts_with_iff split: if_splits)

lemma NAV_prefixes:
  "\<forall>i \<in> set NAV. \<forall>j \<in> set NAV. starts_with (snd i) (snd j) \<longrightarrow> i = j \<or> (snd i, snd j) = (''/docs/api'', ''/docs'')"
  by code_simp

lemma docs_or_api: "isActive p ''/docs'' \<Longrightarrow> \<not> isActive p ''/docs/api''"
  by (auto simp: isActive_def)

lemma header_marks_one:
  assumes "i \<in> set NAV" "j \<in> set NAV" "isActive pathname (snd i)" "isActive pathname (snd j)"
  shows "i = j"
proof -
  have "i = j \<or> {snd i, snd j} = {''/docs/api'', ''/docs''}"
    using starts_with_comparable[OF assms(3,4)[THEN active_prefix]] NAV_prefixes[rule_format, OF assms(1,2)]
      NAV_prefixes[rule_format, OF assms(2,1)] by auto
  then show ?thesis using docs_or_api assms(3,4) unfolding doubleton_eq_iff by metis
qed

text \<open>A click opens a closed menu, and after a change of page every menu is closed.\<close>

lemma menu_closes: "p \<noteq> snd m \<Longrightarrow> fst (menu_step (Navigate p) m) = False"
  by (cases m) simp

text \<open>The contents list marks a heading the observer reported, the topmost of those that intersect.\<close>

lemma toc_observe_topmost:
  assumes "\<exists>e \<in> set entries. te_intersecting e"
  shows "\<exists>e \<in> set entries. te_intersecting e \<and> toc_observe entries active = te_id e \<and>
    (\<forall>e' \<in> set entries. te_intersecting e' \<longrightarrow> te_top e \<le> te_top e')"
proof -
  let ?v = "sort_key te_top (filter te_intersecting entries)"
  have "?v \<noteq> []" using assms by (metis (mono_tags, lifting) filter_empty_conv length_0_conv length_sort)
  then obtain e es where v: "?v = e # es" by (cases ?v) auto
  then have "set (e # es) = {x \<in> set entries. te_intersecting x}" by (metis set_filter set_sort)
  moreover have "sorted (map te_top (e # es))" by (metis sorted_sort_key v)
  ultimately show ?thesis using v by (intro bexI[of _ e]) (auto simp: toc_observe_def)
qed

section \<open>The chain commits to its entries\<close>

definition no_bars :: "journal_entry \<Rightarrow> bool" where
  "no_bars e \<longleftrightarrow> CHR ''|'' \<notin> set (je_account e) \<and> CHR ''|'' \<notin> set (je_debit e) \<and> CHR ''|'' \<notin> set (je_credit e)"

lemma entry_text_inj:
  assumes "entry_text prev n e = entry_text prev' n' e'" "no_bars e" "no_bars e'" "CHR ''|'' \<notin> set prev" "CHR ''|'' \<notin> set prev'"
  shows "prev = prev' \<and> e = e'"
proof -
  have num: "CHR ''|'' \<notin> set (nat_to_string m)" for m
    using nat_to_string_digits[of "CHR ''|''" m] by (auto simp: is_digit_char_def less_eq_char_def)
  have "split_on CHR ''|'' (entry_text p m x) = [p, nat_to_string m, je_account x, je_debit x, je_credit x]"
    if "no_bars x" "CHR ''|'' \<notin> set p" for p m x
    unfolding entry_text_def by (rule split_on_join) (use that num in \<open>auto simp: no_bars_def\<close>)
  with assms have "[prev, nat_to_string n, je_account e, je_debit e, je_credit e] =
      [prev', nat_to_string n', je_account e', je_debit e', je_credit e']" by metis
  then show ?thesis by (cases e; cases e') simp
qed

text \<open>Editing one row changes the hash of every row from it on. With a digest that has no collision
  among the texts hashed and gives hexadecimal digits, two journals of the same length whose hashes agree
  at some row agree in that row and in all rows above it; the fields must not contain the separator.\<close>

lemma journal_commits:
  assumes "inj sha256" "\<And>x. CHR ''|'' \<notin> set (sha256 x)" "list_all no_bars es" "list_all no_bars es'"
    and "k < length es" "k < length es'" "CHR ''|'' \<notin> set prev" "CHR ''|'' \<notin> set prev'"
    and "chain_from sha256 prev n es ! k = chain_from sha256 prev' n es' ! k"
  shows "prev = prev' \<and> take (Suc k) es = take (Suc k) es'"
  using assms(3-)
proof (induction k arbitrary: es es' prev prev' n)
  case 0
  then obtain e r e' r' where e: "es = e # r" "es' = e' # r'" by (metis length_greater_0_conv neq_Nil_conv)
  with 0(7) have "entry_text prev n e = entry_text prev' n e'" using assms(1) by (auto simp: Let_def dest: injD)
  from entry_text_inj[OF this] 0 e show ?case by simp
next
  case (Suc k)
  then obtain e r e' r' where e: "es = e # r" "es' = e' # r'" by (metis length_0_conv less_nat_zero_code neq_Nil_conv)
  have "sha256 (entry_text prev n e) = sha256 (entry_text prev' n e') \<and> take (Suc k) r = take (Suc k) r'"
    by (rule Suc.IH[where n = "n + 1"]) (use Suc.prems e assms(2) in \<open>auto simp: Let_def\<close>)
  moreover from this have "entry_text prev n e = entry_text prev' n e'" using assms(1) by (auto dest: injD)
  from entry_text_inj[OF this] Suc.prems e have "prev = prev' \<and> e = e'" by simp
  ultimately show ?case using e by simp
qed

end
