(* ===== verification/Smoke.thy ===== *)
theory Smoke
  imports Docs Plugins
begin

text \<open>
  The runner of the examples (scripts/smoke-examples.mjs). Each example is started in a process of its own and is
  judged by what happens to that process: output, its end, a failure to start, a timer. The operating
  system chooses the order of these events; the runner is a step function on them. \<open>parse\<close> is the JSON
  parser; the process identifiers come from the system.
\<close>

section \<open>Which examples, and how\<close>

definition RUN_TIMEOUT_MS :: nat where "RUN_TIMEOUT_MS = 60000"
definition SERVE_READY_TIMEOUT_MS :: nat where "SERVE_READY_TIMEOUT_MS = 30000"

datatype smoke_mode = RunMode | ServeMode json

text \<open>\<open>s.includes(t)\<close>.\<close>

definition js_includes :: "string \<Rightarrow> string \<Rightarrow> bool" where
  "js_includes s t \<longleftrightarrow> list_ex (\<lambda>n. starts_with (drop n s) t) [0..<length s + 1]"

text \<open>Every failure to read or parse, and every other mode, is the default.\<close>

definition smokeConfig :: "(string \<Rightarrow> json result) \<Rightarrow> fs \<Rightarrow> path \<Rightarrow> string \<Rightarrow> smoke_mode" where
  "smokeConfig parse fs examplesDir name =
     (case readFile fs (examplesDir @ [name, ''package.json'']) of
        Inl _ \<Rightarrow> RunMode
      | Inr text \<Rightarrow>
          (case parse text of
             Inl _ \<Rightarrow> RunMode
           | Inr pkg \<Rightarrow>
               (case jget pkg ''intellibiz'' of
                  None \<Rightarrow> RunMode
                | Some ib \<Rightarrow>
                    (case jget ib ''smoke'' of
                       None \<Rightarrow> RunMode
                     | Some smoke \<Rightarrow>
                         if jget smoke ''mode'' = Some (JStr ''serve'')
                         then ServeMode (case jget smoke ''ready'' of None \<Rightarrow> JStr ''listening'' | Some JNull \<Rightarrow> JStr ''listening'' | Some r \<Rightarrow> r)
                         else RunMode))))"

definition smoke_names :: "fs \<Rightarrow> path \<Rightarrow> string option \<Rightarrow> fs_error + string list" where
  "smoke_names fs examplesDir flt = and_then (readdir fs examplesDir) (\<lambda>ns.
     Inr (sort (filter (\<lambda>n. \<not> truthy flt \<or> js_includes n (the flt))
       (filter (\<lambda>n. jm_get fs (examplesDir @ [n, ''src'', ''index.ts'']) \<noteq> None)
       (filter (\<lambda>n. jm_get fs (examplesDir @ [n]) = Some Dir) ns)))))"

section \<open>One example\<close>

record smoke_result =
  so_name :: string
  so_ok :: bool
  so_reason :: "string option"
  so_output :: string

record smoke_run =
  sm_output :: string
  sm_result :: "smoke_result option"
  sm_timer :: bool
  sm_groups :: "nat list"
  sm_killed :: "nat list"

definition killGroup :: "nat \<Rightarrow> smoke_run \<Rightarrow> smoke_run" where
  "killGroup pid s = s\<lparr>sm_groups := filter (\<lambda>p. p \<noteq> pid) (sm_groups s), sm_killed := sm_killed s @ [pid]\<rparr>"

definition cleanup :: "smoke_run \<Rightarrow> smoke_run" where
  "cleanup s = fold killGroup (sm_groups s) s"

definition smoke_finish :: "nat \<Rightarrow> smoke_result \<Rightarrow> bool \<Rightarrow> smoke_run \<Rightarrow> smoke_run" where
  "smoke_finish pid r kill s =
     (if sm_result s \<noteq> None then s
      else let s1 = s\<lparr>sm_result := Some r, sm_timer := False\<rparr>
           in if kill then killGroup pid s1 else s1\<lparr>sm_groups := filter (\<lambda>p. p \<noteq> pid) (sm_groups s1)\<rparr>)"

text \<open>The end of a process has an exit code or a signal.\<close>

datatype smoke_event = Chunk string | Closed "int option" "string option" | StartError string | TimerFired

definition exit_reason :: "int option \<Rightarrow> string option \<Rightarrow> string" where
  "exit_reason code signal = (case signal of Some sg \<Rightarrow> sg
     | None \<Rightarrow> ''exit '' @ (case code of Some c \<Rightarrow> int_to_string c | None \<Rightarrow> ''null''))"

definition timeout_reason :: "smoke_mode \<Rightarrow> string" where
  "timeout_reason mode = (case mode of
     ServeMode ready \<Rightarrow> ''did not print '' @ [CHR 0x22] @ js_string ready @ [CHR 0x22] @ '' within '' @
       nat_to_string (SERVE_READY_TIMEOUT_MS div 1000) @ ''s''
   | RunMode \<Rightarrow> ''did not exit within '' @ nat_to_string (RUN_TIMEOUT_MS div 1000) @ ''s'')"

fun smoke_step :: "string \<Rightarrow> smoke_mode \<Rightarrow> nat \<Rightarrow> smoke_event \<Rightarrow> smoke_run \<Rightarrow> smoke_run" where
  "smoke_step name mode pid (Chunk chunk) s =
     (let s1 = s\<lparr>sm_output := sm_output s @ chunk\<rparr>
      in case mode of
           ServeMode ready \<Rightarrow>
             if js_includes (sm_output s1) (js_string ready)
             then smoke_finish pid \<lparr>so_name = name, so_ok = True, so_reason = None, so_output = sm_output s1\<rparr> True s1 else s1
         | RunMode \<Rightarrow> s1)"
| "smoke_step name mode pid (Closed code signal) s =
     (case mode of
        ServeMode _ \<Rightarrow> smoke_finish pid \<lparr>so_name = name, so_ok = False,
          so_reason = Some (''exited before becoming ready ('' @ exit_reason code signal @ '')''), so_output = sm_output s\<rparr> False s
      | RunMode \<Rightarrow> smoke_finish pid \<lparr>so_name = name, so_ok = (code = Some 0),
          so_reason = (if code = Some 0 then None else Some (exit_reason code signal)), so_output = sm_output s\<rparr> False s)"
| "smoke_step name mode pid (StartError message) s =
     smoke_finish pid \<lparr>so_name = name, so_ok = False, so_reason = Some message, so_output = sm_output s\<rparr> False s"
| "smoke_step name mode pid TimerFired s =
     (if \<not> sm_timer s then s
      else smoke_finish pid \<lparr>so_name = name, so_ok = False, so_reason = Some (timeout_reason mode), so_output = sm_output s\<rparr>
        True (s\<lparr>sm_timer := False\<rparr>))"

text \<open>The start: the process is in the set of live groups, and the timer is armed.\<close>

definition smoke_start :: "nat \<Rightarrow> nat list \<Rightarrow> nat list \<Rightarrow> smoke_run" where
  "smoke_start pid groups killed = \<lparr>sm_output = [], sm_result = None, sm_timer = True,
     sm_groups = (if pid \<in> set groups then groups else groups @ [pid]), sm_killed = killed\<rparr>"

definition runExample :: "string \<Rightarrow> smoke_mode \<Rightarrow> nat \<Rightarrow> smoke_event list \<Rightarrow> nat list \<times> nat list \<Rightarrow> smoke_run" where
  "runExample name mode pid events gk = foldl (\<lambda>s e. smoke_step name mode pid e s) (smoke_start pid (fst gk) (snd gk)) events"

section \<open>All examples\<close>

text \<open>One after the other; an example that never settles is waited for, and then there is no result. The
  second component is the exit code.\<close>

fun smoke_all :: "(string \<Rightarrow> smoke_mode) \<Rightarrow> (string \<Rightarrow> nat) \<Rightarrow> (string \<Rightarrow> smoke_event list) \<Rightarrow> string list
    \<Rightarrow> nat list \<times> nat list \<Rightarrow> (smoke_result list \<times> nat list \<times> nat list) option" where
  "smoke_all config pids events [] gk = Some ([], gk)"
| "smoke_all config pids events (name # names) gk =
     (let s = runExample name (config name) (pids name) (events name) gk
      in case sm_result s of
           None \<Rightarrow> None
         | Some r \<Rightarrow> map_option (\<lambda>(rs, gk'). (r # rs, gk')) (smoke_all config pids events names (sm_groups s, sm_killed s)))"

definition smoke_exit :: "smoke_result list \<Rightarrow> nat" where
  "smoke_exit results = (if 0 < length (filter (\<lambda>r. \<not> so_ok r) results) then 1 else 0)"

definition smoke_summary :: "smoke_result list \<Rightarrow> string" where
  "smoke_summary results = (let failed = filter (\<lambda>r. \<not> so_ok r) results
     in nat_to_string (length results - length failed) @ ''/'' @ nat_to_string (length results) @ '' examples started successfully.'')"

definition smoke_main :: "(string \<Rightarrow> json result) \<Rightarrow> fs \<Rightarrow> path \<Rightarrow> string option \<Rightarrow> (string \<Rightarrow> nat) \<Rightarrow> (string \<Rightarrow> smoke_event list)
    \<Rightarrow> fs_error + (smoke_result list \<times> nat) option" where
  "smoke_main parse fs examplesDir flt pids events =
     and_then (smoke_names fs examplesDir flt) (\<lambda>names.
       if names = [] then Inr (Some ([], 1))
       else Inr (map_option (\<lambda>(results, _). (results, smoke_exit results))
         (smoke_all (smokeConfig parse fs examplesDir) pids events names ([], []))))"

section \<open>The first verdict stands\<close>

lemma smoke_finish_settled: "sm_result s = Some r \<Longrightarrow> smoke_finish pid r' kill s = s"
  by (simp add: smoke_finish_def)

lemma smoke_step_settled:
  assumes "sm_result s = Some r" "\<not> sm_timer s"
  shows "sm_result (smoke_step name mode pid e s) = Some r \<and> \<not> sm_timer (smoke_step name mode pid e s) \<and>
    sm_groups (smoke_step name mode pid e s) = sm_groups s \<and> sm_killed (smoke_step name mode pid e s) = sm_killed s"
  using assms by (cases e; cases mode) (auto simp: smoke_finish_settled Let_def)

lemma smoke_settled:
  assumes "sm_result s = Some r" "\<not> sm_timer s"
  shows "sm_result (foldl (\<lambda>s e. smoke_step name mode pid e s) s events) = Some r \<and>
    sm_groups (foldl (\<lambda>s e. smoke_step name mode pid e s) s events) = sm_groups s \<and>
    sm_killed (foldl (\<lambda>s e. smoke_step name mode pid e s) s events) = sm_killed s"
  using assms
proof (induction events arbitrary: s)
  case (Cons e events)
  then show ?case using smoke_step_settled[OF Cons.prems, of name mode pid e] by (simp del: smoke_step.simps)
qed simp

text \<open>Before a verdict: the output is what was printed, the timer is armed, the process is in its group and
  nothing was killed.\<close>

definition smoke_open :: "nat \<Rightarrow> nat list \<Rightarrow> nat list \<Rightarrow> string \<Rightarrow> smoke_run \<Rightarrow> bool" where
  "smoke_open pid groups killed out s \<longleftrightarrow> sm_output s = out \<and> sm_result s = None \<and> sm_timer s \<and>
     set (sm_groups s) = insert pid (set groups) \<and> sm_killed s = killed"

fun not_ready :: "smoke_mode \<Rightarrow> string \<Rightarrow> string list \<Rightarrow> bool" where
  "not_ready mode out [] = True"
| "not_ready mode out (c # cs) =
     ((case mode of RunMode \<Rightarrow> True | ServeMode ready \<Rightarrow> \<not> js_includes (out @ c) (js_string ready)) \<and> not_ready mode (out @ c) cs)"

lemma chunks_open:
  "not_ready mode out chunks \<Longrightarrow> smoke_open pid groups killed out s \<Longrightarrow> smoke_open pid groups killed (out @ concat chunks)
     (foldl (\<lambda>s e. smoke_step name mode pid e s) s (map Chunk chunks))"
proof (induction chunks arbitrary: out s)
  case (Cons c chunks)
  have "smoke_open pid groups killed (out @ c) (smoke_step name mode pid (Chunk c) s)"
    using Cons.prems by (cases mode) (auto simp: smoke_open_def Let_def)
  from Cons.IH[OF _ this] Cons.prems(1) show ?case by (simp del: smoke_step.simps)
qed simp

lemma start_open: "smoke_open pid groups killed [] (smoke_start pid groups killed)"
  by (auto simp: smoke_open_def smoke_start_def)

text \<open>The events that settle an example, and their verdicts.\<close>

definition settles :: "smoke_mode \<Rightarrow> string \<Rightarrow> smoke_event \<Rightarrow> bool" where
  "settles mode out e \<longleftrightarrow> (case e of Chunk c \<Rightarrow> (\<exists>ready. mode = ServeMode ready \<and> js_includes (out @ c) (js_string ready)) | _ \<Rightarrow> True)"

definition succeeds :: "smoke_mode \<Rightarrow> smoke_event \<Rightarrow> bool" where
  "succeeds mode e \<longleftrightarrow> (case mode of ServeMode _ \<Rightarrow> (\<exists>c. e = Chunk c) | RunMode \<Rightarrow> (\<exists>sg. e = Closed (Some 0) sg))"

definition still_running :: "smoke_event \<Rightarrow> bool" where
  "still_running e \<longleftrightarrow> (case e of Chunk _ \<Rightarrow> True | TimerFired \<Rightarrow> True | _ \<Rightarrow> False)"

lemma settling_step:
  assumes "smoke_open pid groups killed out s" "settles mode out e"
  shows "\<exists>r. sm_result (smoke_step name mode pid e s) = Some r \<and> so_ok r = succeeds mode e \<and> so_name r = name \<and>
    \<not> sm_timer (smoke_step name mode pid e s) \<and> set (sm_groups (smoke_step name mode pid e s)) = set groups - {pid} \<and>
    sm_killed (smoke_step name mode pid e s) = killed @ (if still_running e then [pid] else [])"
  using assms
  by (cases e; cases mode)
    (auto simp: smoke_open_def settles_def succeeds_def still_running_def smoke_finish_def killGroup_def Let_def)

text \<open>An example is judged by the first event that settles it, whatever follows: a script by its exit code, a
  server by its marker, complete however the output was cut up. Its process is killed exactly
  when it was still running, and is in no live group afterwards.\<close>

theorem smoke_verdict:
  assumes "not_ready mode [] chunks" "settles mode (concat chunks) e"
  shows "\<exists>r. sm_result (runExample name mode pid (map Chunk chunks @ e # later) (groups, killed)) = Some r \<and>
    so_ok r = succeeds mode e \<and> so_name r = name \<and>
    set (sm_groups (runExample name mode pid (map Chunk chunks @ e # later) (groups, killed))) = set groups - {pid} \<and>
    sm_killed (runExample name mode pid (map Chunk chunks @ e # later) (groups, killed)) =
      killed @ (if still_running e then [pid] else [])"
proof -
  let ?s = "foldl (\<lambda>s e. smoke_step name mode pid e s) (smoke_start pid groups killed) (map Chunk chunks)"
  have "smoke_open pid groups killed (concat chunks) ?s"
    using chunks_open[OF assms(1) start_open[of pid groups killed], of name] by simp
  from settling_step[OF this assms(2), of name]
  obtain r where r: "sm_result (smoke_step name mode pid e ?s) = Some r" "so_ok r = succeeds mode e" "so_name r = name"
      "\<not> sm_timer (smoke_step name mode pid e ?s)" "set (sm_groups (smoke_step name mode pid e ?s)) = set groups - {pid}"
      "sm_killed (smoke_step name mode pid e ?s) = killed @ (if still_running e then [pid] else [])"
    by blast
  from smoke_settled[OF r(1,4), of name mode pid later] r show ?thesis
    by (simp add: runExample_def del: smoke_step.simps)
qed

text \<open>An example that the timer reaches always has a verdict.\<close>

lemma js_includes_cases: "settles mode out (Chunk c) \<or> not_ready mode out [c]"
  by (cases mode) (auto simp: settles_def)

lemma settled_by_timer:
  assumes "TimerFired \<in> set events"
  shows "\<exists>chunks e later. events = map Chunk chunks @ e # later \<and> not_ready mode out chunks \<and> settles mode (out @ concat chunks) e"
  using assms
proof (induction events arbitrary: out)
  case (Cons e events)
  show ?case
  proof (cases "settles mode out e")
    case True
    then show ?thesis by (intro exI[of _ "[]"] exI[of _ e] exI[of _ events]) simp
  next
    case False
    then obtain c where c: "e = Chunk c" by (cases e) (auto simp: settles_def)
    with Cons.prems obtain chunks e' later where *: "events = map Chunk chunks @ e' # later"
        "not_ready mode (out @ c) chunks" "settles mode ((out @ c) @ concat chunks) e'"
      using Cons.IH[of "out @ c"] by auto
    moreover have "not_ready mode out (c # chunks)" using False c *(2) js_includes_cases[of mode out c] by simp
    ultimately show ?thesis using c by (intro exI[of _ "c # chunks"] exI[of _ e'] exI[of _ later]) simp
  qed
qed simp

theorem smoke_finishes:
  assumes "\<And>name. name \<in> set names \<Longrightarrow> TimerFired \<in> set (events name)"
  shows "\<exists>rs killed'. smoke_all config pids events names ([], killed) = Some (rs, [], killed') \<and> map so_name rs = names"
  using assms
proof (induction names arbitrary: killed)
  case (Cons name names)
  obtain chunks e later where ev: "events name = map Chunk chunks @ e # later" "not_ready (config name) [] chunks"
      "settles (config name) (concat chunks) e"
    using settled_by_timer[OF Cons.prems, of name "config name" "[]"] by auto
  from smoke_verdict[OF ev(2,3), of name "pids name" later "[]" killed]
  obtain r where r: "sm_result (runExample name (config name) (pids name) (events name) ([], killed)) = Some r" "so_name r = name"
      "sm_groups (runExample name (config name) (pids name) (events name) ([], killed)) = []"
    by (auto simp: ev(1))
  from Cons.IH[of "sm_killed (runExample name (config name) (pids name) (events name) ([], killed))"] Cons.prems r
  show ?case by (auto simp: Let_def)
qed simp

lemma smoke_exit_ok: "smoke_exit results = 0 \<longleftrightarrow> list_all so_ok results"
  by (auto simp: smoke_exit_def list_all_iff filter_empty_conv)

lemma cleanup_kills_all: "sm_groups (cleanup s) = [] \<and> set (sm_killed (cleanup s)) = set (sm_killed s) \<union> set (sm_groups s)"
proof -
  have "sm_groups (fold killGroup ps s) = filter (\<lambda>p. p \<notin> set ps) (sm_groups s) \<and> sm_killed (fold killGroup ps s) = sm_killed s @ ps" for ps
    by (induction ps arbitrary: s) (auto simp: killGroup_def intro: filter_cong)
  then show ?thesis by (simp add: cleanup_def)
qed

end
