(* ===== verification/Http.thy ===== *)
theory Http
  imports Identity
begin

text \<open>
  Actions (packages/core/src/define-action.ts) and the HTTP kernel (packages/http/src): tenant
  resolution and the kernel middleware (middleware.ts), the handler wrapper, the response mapping
  and the error handler (router.ts). Handlers are the application's code: functions of the request
  context and the active store. Routing of paths to handlers, JSON and URL parsing are the
  framework's and the platform's: \<open>json_parse\<close> and \<open>url_host\<close> are arguments.
\<close>

section \<open>Actions\<close>

text \<open>What a validator's \<open>parse\<close> throws: an object with issues (path segments and a message), or
  something without.\<close>

datatype parse_failure = ZodIssues "(string list \<times> string) list" | NoIssues

type_synonym 'a validator = "json option \<Rightarrow> parse_failure + 'a"

definition buildActionContext :: "'s factories \<Rightarrow> string \<Rightarrow> store \<Rightarrow> 'd \<Rightarrow> ('s, 'd) ctx_object" where
  "buildActionContext fs level parent data = build_context fs level parent [(''data'', data)]"

definition inline_action :: "'s factories \<Rightarrow> string \<Rightarrow> (('s, json option) ctx_object \<Rightarrow> als \<Rightarrow> 'o result)
    \<Rightarrow> json option \<Rightarrow> als \<Rightarrow> 'o result" where
  "inline_action fs level handler data s =
     and_then (getContext s) (\<lambda>parent.
       runWithContext parent (handler (buildActionContext fs level parent data)))"

definition schema_action :: "'s factories \<Rightarrow> string \<Rightarrow> 'a validator \<Rightarrow> (('s, 'a) ctx_object \<Rightarrow> als \<Rightarrow> 'o result)
    \<Rightarrow> json option \<Rightarrow> als \<Rightarrow> 'o result" where
  "schema_action fs level schema handler data s =
     and_then (getContext s) (\<lambda>parent.
       case schema data of
         Inl (ZodIssues issues) \<Rightarrow> Inl (Err (ActionValidationError (map (\<lambda>(path, msg). (join ''.'' path, msg)) issues)))
       | Inl NoIssues \<Rightarrow> Inl (Err (plain_error ''TypeError''
           (''Cannot read properties of undefined (reading '' @ [quote_char] @ ''map'' @ [quote_char] @ '')'')))
       | Inr validated \<Rightarrow> runWithContext parent (handler (buildActionContext fs level parent validated)))"

section \<open>Tenant resolution\<close>

text \<open>\<open>/^\d{1,3}(\.\d{1,3}){3}$/\<close>.\<close>

definition is_ipv4 :: "string \<Rightarrow> bool" where
  "is_ipv4 host \<longleftrightarrow> (let ls = split_on CHR ''.'' host
     in length ls = 4 \<and> list_all (\<lambda>l. l \<noteq> [] \<and> length l \<le> 3 \<and> list_all is_digit_char l) ls)"

definition resolveHost :: "(string \<Rightarrow> string option) \<Rightarrow> http_request \<Rightarrow> string" where
  "resolveHost url_host c =
     (let headerHost = req_header c ''host'';
          raw = (if truthy headerHost then headerHost else url_host (rq_url c))
      in hd (split_on CHR '':'' (case raw of Some h \<Rightarrow> h | None \<Rightarrow> [])))"

definition host_tenant :: "string \<Rightarrow> string option" where
  "host_tenant host =
     (let labels = filter (\<lambda>l. l \<noteq> []) (split_on CHR ''.'' host)
      in if \<not> is_ipv4 host \<and> 3 \<le> length labels \<and> hd labels \<noteq> ''www'' \<and> hd labels \<noteq> ''api''
         then Some (hd labels) else None)"

definition resolveTenant :: "(string \<Rightarrow> string option) \<Rightarrow> http_request \<Rightarrow> verified_token option \<Rightarrow> bool \<Rightarrow> string result" where
  "resolveTenant url_host c jwtClaims strict =
     (let headerTenant = req_header c ''x-tenant-id''
      in if truthy headerTenant then Inr (the headerTenant)
         else if truthy (map_option vt_tenantId jwtClaims) then Inr (vt_tenantId (the jwtClaims))
         else case host_tenant (resolveHost url_host c) of
           Some subdomain \<Rightarrow> Inr subdomain
         | None \<Rightarrow> if strict then Inl (Err strict_error) else Inr ''system'')"

section \<open>The kernel middleware\<close>

record middleware_options =
  mo_jwtSecret :: "string option"
  mo_jwtAlgorithm :: "jwt_algorithm option"
  mo_strictTenancy :: bool

definition middleware_claims :: "jwt_lib \<Rightarrow> middleware_options \<Rightarrow> http_request \<Rightarrow> verified_token option" where
  "middleware_claims jwtVerify opts c =
     (if truthy (mo_jwtSecret opts)
      then let token = extractBearerToken (req_header c ''authorization'')
           in if truthy token
              then (case verifyJWT jwtVerify (the token) (the (mo_jwtSecret opts)) (mo_jwtAlgorithm opts) of
                      Inr v \<Rightarrow> Some v | Inl _ \<Rightarrow> None)
              else None
      else None)"

definition kernelMiddleware :: "jwt_lib \<Rightarrow> (string \<Rightarrow> string option) \<Rightarrow> middleware_options \<Rightarrow> string \<Rightarrow> int
    \<Rightarrow> http_request \<Rightarrow> store result" where
  "kernelMiddleware jwtVerify url_host opts traceId startTime c =
     (let jwtClaims = middleware_claims jwtVerify opts c
      in and_then (resolveTenant url_host c jwtClaims (mo_strictTenancy opts)) (\<lambda>tenantId.
         Inr \<lparr>st_traceId = traceId, st_tenantId = tenantId, st_userId = map_option vt_userId jwtClaims,
              st_role = (case jwtClaims of Some v \<Rightarrow> vt_role v | None \<Rightarrow> ''anonymous''),
              st_startTime = startTime, st_origin = OriginHttp\<rparr>))"

section \<open>Responses\<close>

datatype response_body = NoBody | TextBody string | JsonBody "json option"

record response =
  rs_status :: int
  rs_body :: response_body
  rs_headers :: "(string, string) jsmap"

text \<open>\<open>None\<close> is \<open>undefined\<close>.\<close>

definition buildResponse :: "json option \<Rightarrow> string \<Rightarrow> int \<times> response_body" where
  "buildResponse res method =
     (case res of
        None \<Rightarrow> (204, NoBody)
      | Some JNull \<Rightarrow> (204, NoBody)
      | Some (JStr s) \<Rightarrow> (200, TextBody s)
      | Some j \<Rightarrow> (if method = ''POST'' then 201 else 200, JsonBody (Some j)))"

fun json_truthy :: "json \<Rightarrow> bool" where
  "json_truthy JNull = False"
| "json_truthy (JBool b) = b"
| "json_truthy (JNum r) = (r \<noteq> 0)"
| "json_truthy (JStr s) = (s \<noteq> [])"
| "json_truthy _ = True"

definition internal_error :: "int \<times> response_body" where
  "internal_error = (500, JsonBody (Some (JObj [(''error'', JStr ''INTERNAL_ERROR''),
     (''message'', JStr ''An unexpected error occurred.'')])))"

text \<open>The \<open>catch\<close> of the handler wrapper.\<close>

definition error_response :: "thrown \<Rightarrow> int \<times> response_body" where
  "error_response t =
     (case t of
        ThrownValue _ \<Rightarrow> internal_error
      | Err e \<Rightarrow>
          if err_is_intellibiz e
          then (case err_status e of Some st \<Rightarrow> st | None \<Rightarrow> 200, JsonBody (Some (toJSON e)))
          else (case (err_code e, err_status e) of
                  (Some code, Some st) \<Rightarrow>
                    (st, JsonBody (Some (JObj ([(''error'', JStr code), (''message'', JStr (err_message e))] @
                       (case err_details e of Some d \<Rightarrow> if json_truthy d then [(''details'', d)] else [] | None \<Rightarrow> [])))))
                | _ \<Rightarrow> internal_error))"

text \<open>The router's \<open>onError\<close>, for what the middleware throws.\<close>

definition onError :: "thrown \<Rightarrow> int \<times> response_body" where
  "onError t =
     (case t of
        Err e \<Rightarrow> if err_is_intellibiz e
                 then (case err_status e of Some st \<Rightarrow> st | None \<Rightarrow> 200, JsonBody (Some (toJSON e)))
                 else internal_error
      | ThrownValue _ \<Rightarrow> internal_error)"

section \<open>The handler wrapper\<close>

record full_request = http_request +
  fq_text :: "string result"
  fq_params :: "(string, string) jsmap"
  fq_query :: "(string, string) jsmap"
  fq_remoteAddr :: "string option"

record 's request_context =
  rc_context :: "('s, unit) ctx_object"
  rc_body :: "json option"
  rc_rawBody :: string
  rc_headers :: "(string, string) jsmap"
  rc_params :: "(string, string) jsmap"
  rc_query :: "(string, string) jsmap"
  rc_ip :: string
  rc_method :: string
  rc_url :: string

text \<open>What a handler does: its result, and its calls of \<open>status\<close> (the last one) and \<open>header\<close>.\<close>

record handler_outcome =
  ho_result :: "json option result"
  ho_status :: "int option"
  ho_headers :: "(string, string) jsmap"

datatype 's route_handler =
    PlainHandler "'s request_context \<Rightarrow> als \<Rightarrow> handler_outcome"
  | ActionHandler "json option \<Rightarrow> als \<Rightarrow> json option result"

definition isAction :: "'s route_handler \<Rightarrow> bool" where
  "isAction h = (case h of ActionHandler _ \<Rightarrow> True | PlainHandler _ \<Rightarrow> False)"

definition read_body :: "(string \<Rightarrow> json option) \<Rightarrow> string \<Rightarrow> full_request \<Rightarrow> string \<times> json option" where
  "read_body json_parse method c =
     (if method \<in> {''POST'', ''PUT'', ''PATCH''}
      then let rawBody = (case fq_text c of Inr s \<Rightarrow> s | Inl _ \<Rightarrow> [])
           in (rawBody, if rawBody \<noteq> [] then json_parse rawBody else None)
      else ([], None))"

definition request_ctx :: "'s factories \<Rightarrow> string \<Rightarrow> (string \<Rightarrow> json option) \<Rightarrow> string \<Rightarrow> full_request \<Rightarrow> store
    \<Rightarrow> 's request_context" where
  "request_ctx fs level json_parse method c st =
     (let (rawBody, body) = read_body json_parse method c
      in \<lparr>rc_context = jm_spread (buildBaseContext fs level st) (store_object st),
          rc_body = body, rc_rawBody = rawBody, rc_headers = rq_header c, rc_params = fq_params c,
          rc_query = fq_query c,
          rc_ip = (case req_header (http_request.truncate c) ''x-forwarded-for'' of Some ip \<Rightarrow> ip
                   | None \<Rightarrow> (case fq_remoteAddr c of Some ip \<Rightarrow> ip | None \<Rightarrow> ''0.0.0.0'')),
          rc_method = method, rc_url = rq_url c\<rparr>)"

definition run_handler :: "'s route_handler \<Rightarrow> 's request_context \<Rightarrow> store \<Rightarrow> handler_outcome" where
  "run_handler h ctx st = runWithContext st (\<lambda>s.
     case h of
       PlainHandler f \<Rightarrow> f ctx s
     | ActionHandler a \<Rightarrow> \<lparr>ho_result = a (rc_body ctx) s, ho_status = None, ho_headers = []\<rparr>)"

definition wrapHandler :: "'s factories \<Rightarrow> string \<Rightarrow> (string \<Rightarrow> json option) \<Rightarrow> 's route_handler \<Rightarrow> string
    \<Rightarrow> full_request \<Rightarrow> store option \<Rightarrow> (string, string) jsmap \<Rightarrow> response" where
  "wrapHandler fs level json_parse handler method c stored headers =
     (case stored of
        None \<Rightarrow> \<lparr>rs_status = 500, rs_body = JsonBody (Some (JObj [(''error'', JStr ''KERNEL_NOT_INITIALIZED''),
            (''message'', JStr ''Kernel middleware not mounted.'')])), rs_headers = headers\<rparr>
      | Some st \<Rightarrow>
          let out = run_handler handler (request_ctx fs level json_parse method c st) st
          in case ho_result out of
               Inl t \<Rightarrow> (let (code, body) = error_response t
                        in \<lparr>rs_status = code, rs_body = body, rs_headers = headers\<rparr>)
             | Inr res \<Rightarrow>
                 (let (code, body) = (case ho_status out of Some code \<Rightarrow> (code, JsonBody res)
                                      | None \<Rightarrow> buildResponse res method)
                  in \<lparr>rs_status = code, rs_body = body, rs_headers = jm_spread headers (ho_headers out)\<rparr>))"

text \<open>A request through the router: the kernel middleware, then the wrapped handler.\<close>

definition handle_request :: "jwt_lib \<Rightarrow> (string \<Rightarrow> string option) \<Rightarrow> (string \<Rightarrow> json option) \<Rightarrow> middleware_options
    \<Rightarrow> 's factories \<Rightarrow> string \<Rightarrow> 's route_handler \<Rightarrow> string \<Rightarrow> string \<Rightarrow> int \<Rightarrow> full_request \<Rightarrow> response" where
  "handle_request jwtVerify url_host json_parse opts fs level handler method traceId startTime c =
     (case kernelMiddleware jwtVerify url_host opts traceId startTime (http_request.truncate c) of
        Inl t \<Rightarrow> (let (code, body) = onError t in \<lparr>rs_status = code, rs_body = body, rs_headers = []\<rparr>)
      | Inr st \<Rightarrow> wrapHandler fs level json_parse handler method c (Some st) [(''X-Trace-Id'', traceId)])"

text \<open>Routes of a group carry the group's prefix.\<close>

definition group_path :: "string \<Rightarrow> string \<Rightarrow> string" where
  "group_path prefix path = prefix @ path"

section \<open>Properties\<close>

definition unexpected :: "thrown \<Rightarrow> bool" where
  "unexpected t = (case t of ThrownValue _ \<Rightarrow> True
     | Err e \<Rightarrow> \<not> err_is_intellibiz e \<and> (err_code e = None \<or> err_status e = None))"

lemma error_response_unexpected: "unexpected t \<Longrightarrow> error_response t = internal_error"
  by (auto simp: unexpected_def error_response_def split: thrown.splits option.splits)

text \<open>C16: unexpected errors are opaque. Two handlers that throw anything but a domain error (an
  error with a code and a status) get the same response, with status 500 and without the headers
  they set: nothing of the error's message, name or details reaches the client.\<close>

theorem unexpected_errors_opaque:
  assumes "ho_result (run_handler h (request_ctx fs level json_parse method c st) st) = Inl t"
    and "ho_result (run_handler h' (request_ctx fs level json_parse method c st) st) = Inl t'"
    and "unexpected t" and "unexpected t'"
  shows "wrapHandler fs level json_parse h method c (Some st) headers
           = wrapHandler fs level json_parse h' method c (Some st) headers \<and>
         rs_status (wrapHandler fs level json_parse h method c (Some st) headers) = 500 \<and>
         rs_headers (wrapHandler fs level json_parse h method c (Some st) headers) = headers"
  using assms by (simp add: wrapHandler_def Let_def error_response_unexpected internal_error_def)

theorem unexpected_errors_opaque_witness:
  "\<forall>c st. wrapHandler ([] :: unit factories) ''info'' (\<lambda>_. None)
     (PlainHandler (\<lambda>_ _. \<lparr>ho_result = Inl (Err (plain_error ''Error'' ''db password is x'')), ho_status = None, ho_headers = []\<rparr>))
     ''GET'' c (Some st) []
   = wrapHandler ([] :: unit factories) ''info'' (\<lambda>_. None)
     (PlainHandler (\<lambda>_ _. \<lparr>ho_result = Inl (ThrownValue JNull), ho_status = None, ho_headers = []\<rparr>)) ''GET'' c (Some st) []"
  (is "\<forall>c st. wrapHandler _ ?l ?j ?h ?m c _ _ = wrapHandler _ ?l ?j ?h' ?m c _ _")
proof (intro allI)
  fix c st
  have "unexpected (Err (plain_error ''Error'' ''db password is x''))" "unexpected (ThrownValue JNull)"
    by (simp_all add: unexpected_def plain_error_def)
  with unexpected_errors_opaque[of ?h "[] :: unit factories" ?l ?j ?m c st "Err (plain_error ''Error'' ''db password is x'')"
      ?h' "ThrownValue JNull" "[]"]
  show "wrapHandler ([] :: unit factories) ?l ?j ?h ?m c (Some st) [] = wrapHandler ([] :: unit factories) ?l ?j ?h' ?m c (Some st) []"
    by (simp add: run_handler_def runWithContext_def)
qed

text \<open>C17: who the kernel says the user is. The store a handler runs under names a user and a role
  only from a bearer token the token library accepted; otherwise the user is absent and the role
  anonymous. A tenant header decides the tenant whatever the token claims; without one the token's
  tenant is used, and in strict mode without a token the tenant is a subdomain of the host.\<close>

theorem kernel_identity:
  assumes "kernelMiddleware jwtVerify url_host opts traceId startTime c = Inr st"
  shows "(st_userId st = None \<and> st_role st = ''anonymous'' \<or>
            (\<exists>token secret v. extractBearerToken (req_header c ''authorization'') = Some token \<and>
               mo_jwtSecret opts = Some secret \<and> verifyJWT jwtVerify token secret (mo_jwtAlgorithm opts) = Inr v \<and>
               st_userId st = Some (vt_userId v) \<and> st_role st = vt_role v \<and>
               (\<not> truthy (req_header c ''x-tenant-id'') \<longrightarrow> st_tenantId st = vt_tenantId v))) \<and>
         (truthy (req_header c ''x-tenant-id'') \<longrightarrow> req_header c ''x-tenant-id'' = Some (st_tenantId st)) \<and>
         (mo_strictTenancy opts \<and> \<not> truthy (req_header c ''x-tenant-id'') \<and> st_userId st = None \<longrightarrow>
            host_tenant (resolveHost url_host c) = Some (st_tenantId st))"
proof -
  define cl where "cl = middleware_claims jwtVerify opts c"
  obtain tn where tn: "resolveTenant url_host c cl (mo_strictTenancy opts) = Inr tn"
      "st_tenantId st = tn" "st_userId st = map_option vt_userId cl"
      "st_role st = (case cl of Some v \<Rightarrow> vt_role v | None \<Rightarrow> ''anonymous'')"
    using assms by (auto simp: kernelMiddleware_def Let_def and_then_Inr_iff cl_def)
  have tok: "\<exists>token secret. extractBearerToken (req_header c ''authorization'') = Some token \<and>
      mo_jwtSecret opts = Some secret \<and> verifyJWT jwtVerify token secret (mo_jwtAlgorithm opts) = Inr v"
    if "cl = Some v" for v
    using that by (auto simp: cl_def middleware_claims_def Let_def truthy_def split: if_splits sum.splits)
  have claim: "vt_tenantId v \<noteq> []" if "cl = Some v" for v
    using tok[OF that] by (auto simp: verifyJWT_def and_then_Inr_iff truthy_def split: if_splits)
  show ?thesis
  proof (cases cl)
    case None
    with tn show ?thesis
      by (auto simp: resolveTenant_def Let_def truthy_def split: if_splits option.splits)
  next
    case (Some v)
    with tn tok[OF Some] claim[OF Some] show ?thesis
      by (auto simp: resolveTenant_def Let_def truthy_def split: if_splits)
  qed
qed

theorem kernel_identity_witness:
  "req_header \<lparr>rq_header = [(''x-tenant-id'', ''victim'')], rq_url = []\<rparr> ''x-tenant-id'' = Some ''victim'' \<and>
   (\<exists>st. kernelMiddleware (\<lambda>_ _ _. Inl (ThrownValue JNull)) (\<lambda>_. None)
      \<lparr>mo_jwtSecret = Some ''k'', mo_jwtAlgorithm = None, mo_strictTenancy = True\<rparr> ''t'' 0
      \<lparr>rq_header = [(''x-tenant-id'', ''victim'')], rq_url = []\<rparr> = Inr st \<and>
    st_tenantId st = ''victim'' \<and> st_role st = ''anonymous'')"
proof -
  let ?c = "\<lparr>rq_header = [(''x-tenant-id'', ''victim'')], rq_url = []\<rparr>"
  let ?o = "\<lparr>mo_jwtSecret = Some ''k'', mo_jwtAlgorithm = None, mo_strictTenancy = True\<rparr>"
  have k: "kernelMiddleware (\<lambda>_ _ _. Inl (ThrownValue JNull)) (\<lambda>_. None) ?o ''t'' 0 ?c
      = Inr \<lparr>st_traceId = ''t'', st_tenantId = ''victim'', st_userId = None, st_role = ''anonymous'',
             st_startTime = 0, st_origin = OriginHttp\<rparr>"
    by (simp add: kernelMiddleware_def middleware_claims_def resolveTenant_def req_header_def truthy_def
        extractBearerToken_def)
  from kernel_identity[OF k] k show ?thesis by (simp add: req_header_def truthy_def)
qed

text \<open>C18: a mounted action validates before it runs. When the schema rejects the body of a request,
  the response is 422 with the field issues, whatever the handler would do; when it accepts, the
  handler gets the validated value, not the raw body, under the request's own store.\<close>

theorem mounted_action_validates:
  fixes handler :: "('s, 'a) ctx_object \<Rightarrow> als \<Rightarrow> json option result" and schema :: "'a validator"
    and fs :: "'s factories" and c :: full_request
  shows "let run = (\<lambda>h. wrapHandler fs level json_parse (ActionHandler (schema_action fs level schema h))
               ''POST'' c (Some st) headers);
             body = snd (read_body json_parse ''POST'' c)
         in (\<forall>issues. schema body = Inl (ZodIssues issues) \<longrightarrow>
               rs_status (run handler) = 422 \<and> run handler' = run handler \<and>
               rs_body (run handler) = JsonBody (Some (toJSON (ActionValidationError
                 (map (\<lambda>(path, msg). (join ''.'' path, msg)) issues))))) \<and>
            (\<forall>v. schema body = Inr v \<longrightarrow>
               handler' (buildActionContext fs level st v) (Some st) = handler (buildActionContext fs level st v) (Some st)
               \<longrightarrow> run handler' = run handler)"
proof -
  let ?body = "snd (read_body json_parse ''POST'' c)"
  have b: "rc_body (request_ctx fs level json_parse ''POST'' c st) = ?body"
    by (simp add: request_ctx_def case_prod_beta Let_def)
  have run: "ho_result (run_handler (ActionHandler (schema_action fs level schema h))
      (request_ctx fs level json_parse ''POST'' c st) st) = schema_action fs level schema h ?body (Some st)" for h
    by (simp add: run_handler_def runWithContext_def b)
  have st: "ho_status (run_handler (ActionHandler a) ctx st) = None"
    "ho_headers (run_handler (ActionHandler a) ctx st) = []" for a and ctx :: "'s request_context"
    by (simp_all add: run_handler_def runWithContext_def)
  show ?thesis
    unfolding wrapHandler_def option.case Let_def run st
    by (auto simp: schema_action_def runWithContext_def error_response_def ActionValidationError_def
        IntellibizError_def split: sum.splits)
qed

text \<open>The witness: a schema that rejects an absent body.\<close>

theorem mounted_action_validates_witness:
  "rs_status (wrapHandler ([] :: unit factories) ''info'' (\<lambda>_. None)
     (ActionHandler (schema_action ([] :: unit factories) ''info'' (\<lambda>d. if d = None then Inl (ZodIssues [([''email''], ''Required'')]) else Inr ())
        (\<lambda>ctx s. Inr None)))
     ''POST'' \<lparr>rq_header = [], rq_url = [], fq_text = Inr [], fq_params = [], fq_query = [], fq_remoteAddr = None\<rparr>
     (Some \<lparr>st_traceId = [], st_tenantId = [], st_userId = None, st_role = [], st_startTime = 0, st_origin = OriginHttp\<rparr>) [])
   = 422"
  using mounted_action_validates[where handler = "\<lambda>ctx s. Inr None" and handler' = "\<lambda>ctx s. Inr None" and
      schema = "\<lambda>d. if d = None then Inl (ZodIssues [([''email''], ''Required'')]) else Inr ()" and
      fs = "[] :: unit factories" and level = "''info''" and json_parse = "\<lambda>_. None" and headers = "[]" and
      c = "\<lparr>rq_header = [], rq_url = [], fq_text = Inr [], fq_params = [], fq_query = [], fq_remoteAddr = None\<rparr>" and
      st = "\<lparr>st_traceId = [], st_tenantId = [], st_userId = None, st_role = [], st_startTime = 0, st_origin = OriginHttp\<rparr>"]
  by (simp add: Let_def read_body_def)

text \<open>The middleware's own strict-tenancy error carries status 400, but the router's error handler
  only knows the kernel's error class: the client sees an internal error.\<close>

lemma strict_violation_is_500:
  "kernelMiddleware jwtVerify url_host opts traceId startTime (http_request.truncate c) = Inl (Err strict_error) \<Longrightarrow>
   rs_status (handle_request jwtVerify url_host json_parse opts fs level h method traceId startTime c) = 500 \<and>
   err_status strict_error = Some 400"
  by (simp add: handle_request_def onError_def strict_error_def coded_error_def internal_error_def)

text \<open>The two resolvers disagree on a bare domain: the identity package takes its first label for a
  tenant, the kernel middleware does not.\<close>

lemma resolvers_disagree:
  "resolve_host \<lparr>rq_header = [(''host'', ''example.com'')], rq_url = []\<rparr>
      \<lparr>ro_customResolver = None, ro_jwtSecret = None, ro_jwtAlgorithm = None, ro_strict = True\<rparr>
     = Inr \<lparr>ri_tenantId = ''example'', ri_userId = None, ri_role = ''member''\<rparr> \<and>
   resolveTenant (\<lambda>_. None) \<lparr>rq_header = [(''host'', ''example.com'')], rq_url = []\<rparr> None True = Inl (Err strict_error)"
  by (simp add: resolve_host_def req_header_def resolveTenant_def host_tenant_def resolveHost_def truthy_def
      reservedHosts_def Let_def)

text \<open>A tenant header takes precedence over the tenant of a verified token: its holder gets the role
  of the token in the tenant of the header.\<close>

lemma header_overrides_token:
  assumes "middleware_claims jwtVerify opts c = Some v" "req_header c ''x-tenant-id'' = Some t" "t \<noteq> []"
  shows "\<exists>st. kernelMiddleware jwtVerify url_host opts traceId startTime c = Inr st \<and>
    st_tenantId st = t \<and> st_role st = vt_role v \<and> st_userId st = Some (vt_userId v)"
  using assms by (simp add: kernelMiddleware_def resolveTenant_def Let_def truthy_def)

end
