(* ===== verification/Router.thy ===== *)
theory Router
  imports Http
begin

text \<open>
  The router object (packages/http/src/router.ts): route registration by method, groups with a
  shared prefix, and the way of a request from \<open>fetch\<close> through the kernel middleware to a handler.
  Path patterns belong to the framework hono: \<open>path_match\<close> gives the parameters when a pattern
  matches, routes are tried in the order of registration, and \<open>not_found\<close> is its answer when none
  matches.
\<close>

section \<open>Registration\<close>

record 's route =
  rt_method :: string
  rt_path :: string
  rt_handler :: "'s route_handler"

record 's router =
  rr_opts :: middleware_options
  rr_routes :: "'s route list"

definition IntellibizRouter :: "middleware_options \<Rightarrow> 's router" where
  "IntellibizRouter opts = \<lparr>rr_opts = opts, rr_routes = []\<rparr>"

text \<open>\<open>createRouter\<close>, and the default router \<open>http\<close>, which is created without options.\<close>

definition createRouter :: "middleware_options option \<Rightarrow> 's router" where
  "createRouter opts = IntellibizRouter
     (case opts of Some x \<Rightarrow> x | None \<Rightarrow> \<lparr>mo_jwtSecret = None, mo_jwtAlgorithm = None, mo_strictTenancy = False\<rparr>)"

definition http_router :: "'s router" where
  "http_router = createRouter None"

definition add_route :: "string \<Rightarrow> string \<Rightarrow> 's route_handler \<Rightarrow> 's router \<Rightarrow> 's router" where
  "add_route method path handler r =
     r\<lparr>rr_routes := rr_routes r @ [\<lparr>rt_method = method, rt_path = path, rt_handler = handler\<rparr>]\<rparr>"

definition router_get :: "string \<Rightarrow> 's route_handler \<Rightarrow> 's router \<Rightarrow> 's router" where
  "router_get = add_route ''GET''"

definition router_post :: "string \<Rightarrow> 's route_handler \<Rightarrow> 's router \<Rightarrow> 's router" where
  "router_post = add_route ''POST''"

definition router_put :: "string \<Rightarrow> 's route_handler \<Rightarrow> 's router \<Rightarrow> 's router" where
  "router_put = add_route ''PUT''"

definition router_patch :: "string \<Rightarrow> 's route_handler \<Rightarrow> 's router \<Rightarrow> 's router" where
  "router_patch = add_route ''PATCH''"

definition router_delete :: "string \<Rightarrow> 's route_handler \<Rightarrow> 's router \<Rightarrow> 's router" where
  "router_delete = add_route ''DELETE''"

text \<open>A group shares the application's routes and adds its prefix; its options are ignored.\<close>

record route_group =
  rg_prefix :: string

definition router_group :: "string \<Rightarrow> string list \<Rightarrow> route_group" where
  "router_group prefix middleware = \<lparr>rg_prefix = prefix\<rparr>"

definition group_get :: "route_group \<Rightarrow> string \<Rightarrow> 's route_handler \<Rightarrow> 's router \<Rightarrow> 's router" where
  "group_get g path = add_route ''GET'' (group_path (rg_prefix g) path)"

definition group_post :: "route_group \<Rightarrow> string \<Rightarrow> 's route_handler \<Rightarrow> 's router \<Rightarrow> 's router" where
  "group_post g path = add_route ''POST'' (group_path (rg_prefix g) path)"

definition group_put :: "route_group \<Rightarrow> string \<Rightarrow> 's route_handler \<Rightarrow> 's router \<Rightarrow> 's router" where
  "group_put g path = add_route ''PUT'' (group_path (rg_prefix g) path)"

definition group_patch :: "route_group \<Rightarrow> string \<Rightarrow> 's route_handler \<Rightarrow> 's router \<Rightarrow> 's router" where
  "group_patch g path = add_route ''PATCH'' (group_path (rg_prefix g) path)"

definition group_delete :: "route_group \<Rightarrow> string \<Rightarrow> 's route_handler \<Rightarrow> 's router \<Rightarrow> 's router" where
  "group_delete g path = add_route ''DELETE'' (group_path (rg_prefix g) path)"

section \<open>Requests\<close>

definition find_route :: "(string \<Rightarrow> string \<Rightarrow> (string, string) jsmap option) \<Rightarrow> string \<Rightarrow> string \<Rightarrow> 's router
    \<Rightarrow> ('s route \<times> (string, string) jsmap) option" where
  "find_route path_match method path r = Option.bind
     (find (\<lambda>rt. rt_method rt = method \<and> path_match (rt_path rt) path \<noteq> None) (rr_routes r))
     (\<lambda>rt. map_option (\<lambda>params. (rt, params)) (path_match (rt_path rt) path))"

definition fetch :: "jwt_lib \<Rightarrow> (string \<Rightarrow> string option) \<Rightarrow> (string \<Rightarrow> json option)
    \<Rightarrow> (string \<Rightarrow> string \<Rightarrow> (string, string) jsmap option) \<Rightarrow> int \<times> response_body
    \<Rightarrow> 's factories \<Rightarrow> string \<Rightarrow> 's router \<Rightarrow> string \<Rightarrow> int \<Rightarrow> string \<Rightarrow> string \<Rightarrow> full_request \<Rightarrow> response" where
  "fetch jwtVerify url_host json_parse path_match not_found fs level r traceId startTime method path c =
     (case find_route path_match method path r of
        Some (rt, params) \<Rightarrow>
          handle_request jwtVerify url_host json_parse (rr_opts r) fs level (rt_handler rt) method traceId startTime
            (c\<lparr>fq_params := params\<rparr>)
      | None \<Rightarrow>
          (case kernelMiddleware jwtVerify url_host (rr_opts r) traceId startTime (http_request.truncate c) of
             Inl t \<Rightarrow> (let (code, body) = onError t in \<lparr>rs_status = code, rs_body = body, rs_headers = []\<rparr>)
           | Inr st \<Rightarrow> \<lparr>rs_status = fst not_found, rs_body = snd not_found, rs_headers = [(''X-Trace-Id'', traceId)]\<rparr>))"

section \<open>Facts\<close>

lemmas route_defs = router_get_def router_post_def router_put_def router_patch_def router_delete_def
  group_get_def group_post_def group_put_def group_patch_def group_delete_def add_route_def

text \<open>A route added later does not take requests from an earlier one, and registration keeps the
  middleware.\<close>

lemma find_add_route:
  "find_route path_match method path (add_route m p h r) =
    (case find_route path_match method path r of
       Some x \<Rightarrow> Some x
     | None \<Rightarrow> if m = method then map_option (\<lambda>params. (\<lparr>rt_method = m, rt_path = p, rt_handler = h\<rparr>, params)) (path_match p path)
         else None)"
proof -
  let ?P = "\<lambda>rt. rt_method rt = method \<and> path_match (rt_path rt) path \<noteq> None"
  let ?n = "\<lparr>rt_method = m, rt_path = p, rt_handler = h\<rparr>"
  have find: "find P (xs @ [y]) = (case find P xs of Some x \<Rightarrow> Some x | None \<Rightarrow> if P y then Some y else None)"
    for P :: "'a route \<Rightarrow> bool" and xs y by (induction xs) auto
  have added: "find ?P (rr_routes (add_route m p h r)) =
      (case find ?P (rr_routes r) of Some x \<Rightarrow> Some x | None \<Rightarrow> if ?P ?n then Some ?n else None)"
    unfolding add_route_def using find[of ?P "rr_routes r" ?n] by simp
  show ?thesis
  proof (cases "find ?P (rr_routes r)")
    case None
    with added show ?thesis by (simp add: find_route_def)
  next
    case (Some rt)
    then have "?P rt" by (auto simp: find_Some_iff)
    with added Some show ?thesis by (auto simp: find_route_def)
  qed
qed

lemma opts_add_route: "rr_opts (add_route m p h r) = rr_opts r"
  by (simp add: add_route_def)

text \<open>Mounting through a group is mounting at the prefixed path.\<close>

lemma group_mounts:
  "group_get (router_group prefix ms) path = router_get (prefix @ path)"
  "group_post (router_group prefix ms) path = router_post (prefix @ path)"
  "group_put (router_group prefix ms) path = router_put (prefix @ path)"
  "group_patch (router_group prefix ms) path = router_patch (prefix @ path)"
  "group_delete (router_group prefix ms) path = router_delete (prefix @ path)"
  by (simp_all add: fun_eq_iff route_defs router_group_def group_path_def)

text \<open>When the middleware refuses a request no handler runs, whatever the routes.\<close>

lemma fetch_refused:
  assumes "kernelMiddleware jwtVerify url_host (rr_opts r) traceId startTime (http_request.truncate c) = Inl t"
  shows "fetch jwtVerify url_host json_parse path_match not_found fs level r traceId startTime method path c =
    \<lparr>rs_status = fst (onError t), rs_body = snd (onError t), rs_headers = []\<rparr>"
proof -
  have "http_request.truncate (c\<lparr>fq_params := ps\<rparr>) = http_request.truncate c" for ps
    by (cases c) (simp add: http_request.defs)
  with assms show ?thesis
    by (auto simp: fetch_def handle_request_def case_prod_beta Let_def split: option.splits)
qed

end
