(* ===== verification/App.thy ===== *)
theory App
  imports Router Sql
begin

text \<open>
  Applications on the router: handlers that keep state between requests. A handler gets the state
  with the request and gives the next one; for each state it is a route handler of the router, so a
  request goes through \<open>fetch\<close> as it is. The locale \<open>tenant_app\<close> is the contract of an application
  whose tenants do not see each other, and its theorem is non-interference: the answers to a
  tenant's requests are those it would get if the others had sent none.
\<close>

section \<open>Handlers with state\<close>

datatype ('w, 's) app_handler =
    AppPlain "'s request_context \<Rightarrow> als \<Rightarrow> 'w \<Rightarrow> handler_outcome \<times> 'w"
  | AppAction "json option \<Rightarrow> als \<Rightarrow> 'w \<Rightarrow> json option result \<times> 'w"

definition at_state :: "'w \<Rightarrow> ('w, 's) app_handler \<Rightarrow> 's route_handler" where
  "at_state w h = (case h of
     AppPlain f \<Rightarrow> PlainHandler (\<lambda>ctx s. fst (f ctx s w))
   | AppAction a \<Rightarrow> ActionHandler (\<lambda>data s. fst (a data s w)))"

definition state_after :: "('w, 's) app_handler \<Rightarrow> 's request_context \<Rightarrow> store \<Rightarrow> 'w \<Rightarrow> 'w" where
  "state_after h ctx st w = (case h of
     AppPlain f \<Rightarrow> snd (f ctx (Some st) w)
   | AppAction a \<Rightarrow> snd (a (rc_body ctx) (Some st) w))"

text \<open>A schema action whose handler changes the state; a rejected input leaves it.\<close>

definition state_action :: "'s factories \<Rightarrow> string \<Rightarrow> 'a validator
    \<Rightarrow> (('s, 'a) ctx_object \<Rightarrow> als \<Rightarrow> 'w \<Rightarrow> 'o result \<times> 'w) \<Rightarrow> json option \<Rightarrow> als \<Rightarrow> 'w \<Rightarrow> 'o result \<times> 'w" where
  "state_action fs level schema h data s w =
     (schema_action fs level schema (\<lambda>ctx s. fst (h ctx s w)) data s,
      case schema_action fs level schema (\<lambda>ctx s. Inr (snd (h ctx s w))) data s of Inr w' \<Rightarrow> w' | Inl _ \<Rightarrow> w)"

text \<open>\<open>return value\<close> and \<open>throw error\<close> of a plain handler that sets neither status nor headers.\<close>

definition respond :: "json option result \<Rightarrow> handler_outcome" where
  "respond r = \<lparr>ho_result = r, ho_status = None, ho_headers = []\<rparr>"

text \<open>A string property of a context object, and the validated input of an action.\<close>

definition ctx_str :: "('s, 'd) ctx_object \<Rightarrow> string \<Rightarrow> string option" where
  "ctx_str ctx k = (case jm_get ctx k of Some (CStr s) \<Rightarrow> Some s | _ \<Rightarrow> None)"

definition ctx_data :: "('s, 'd) ctx_object \<Rightarrow> 'd option" where
  "ctx_data ctx = (case jm_get ctx ''data'' of Some (CData d) \<Rightarrow> Some d | _ \<Rightarrow> None)"

text \<open>\<open>ctx.tenantId\<close>, and a handler of the validated input: a context always has both (see
  \<open>request_tenant\<close> and \<open>action_context\<close>).\<close>

definition ctx_tenant :: "('s, 'd) ctx_object \<Rightarrow> string" where
  "ctx_tenant ctx = (case ctx_str ctx ''tenantId'' of Some t \<Rightarrow> t | None \<Rightarrow> [])"

definition with_data :: "('a \<Rightarrow> ('s, 'a) ctx_object \<Rightarrow> als \<Rightarrow> 'w \<Rightarrow> 'o result \<times> 'w)
    \<Rightarrow> ('s, 'a) ctx_object \<Rightarrow> als \<Rightarrow> 'w \<Rightarrow> 'o result \<times> 'w" where
  "with_data h ctx s w = (case ctx_data ctx of Some data \<Rightarrow> h data ctx s w
     | None \<Rightarrow> (Inl (Err (plain_error ''TypeError'' ''Cannot read properties of undefined'')), w))"

lemma request_tenant: "ctx_tenant (rc_context (request_ctx fs level jp m c st)) = st_tenantId st"
proof -
  have "jm_wf (store_object st :: ('a, unit) ctx_object)"
    by (simp add: store_object_def jm_wf_def jm_keys_def)
  then show ?thesis
    by (simp add: ctx_tenant_def ctx_str_def request_ctx_def case_prod_beta Let_def jm_get_spread) (simp add: store_object_def)
qed

lemma base_context_get:
  "jm_wf fs \<Longrightarrow> jm_get fs k = None \<Longrightarrow> k \<noteq> ''log'' \<Longrightarrow> k \<noteq> ''emit'' \<Longrightarrow>
    jm_get (buildBaseContext fs level st :: ('s, 'd) ctx_object) k = None"
  by (simp add: buildBaseContext_def jm_get_spread jm_wf_map_value buildRegisteredServices_wf
      buildRegisteredServices_get jm_get_map_value)

lemma action_context:
  fixes fs :: "'s factories"
  assumes "jm_wf fs"
  shows "ctx_data (buildActionContext fs level st d) = Some d"
    "jm_get fs ''tenantId'' = None \<Longrightarrow> ctx_tenant (buildActionContext fs level st d) = st_tenantId st"
    "jm_get fs ''traceId'' = None \<Longrightarrow> ctx_str (buildActionContext fs level st d) ''traceId'' = Some (st_traceId st)"
proof -
  have wf: "jm_wf (buildBaseContext fs level st :: ('s, 'd) ctx_object)"
    unfolding buildBaseContext_def by (intro jm_spread_wf) (simp add: jm_wf_def jm_keys_def)
  have one: "jm_wf [(k, CData x :: ('s, 'd) ctx_value)]" for k x by (simp add: jm_wf_def jm_keys_def)
  show "ctx_data (buildActionContext fs level st d) = Some d"
    by (simp add: ctx_data_def buildActionContext_def build_context_def jm_get_spread one)
  show "jm_get fs ''tenantId'' = None \<Longrightarrow> ctx_tenant (buildActionContext fs level st d) = st_tenantId st"
    "jm_get fs ''traceId'' = None \<Longrightarrow> ctx_str (buildActionContext fs level st d) ''traceId'' = Some (st_traceId st)"
    by (simp_all add: ctx_tenant_def ctx_str_def buildActionContext_def build_context_def jm_get_spread one wf
        base_context_get[OF assms]) (simp_all add: store_object_def)
qed

text \<open>A state action on each branch.\<close>

lemma state_action_rejected:
  assumes "schema data = Inl f"
  shows "\<exists>t. \<forall>w. state_action fs level schema h data (Some st) w = (Inl t, w)"
  using assms by (cases f) (simp_all add: state_action_def schema_action_def)

lemma state_action_accepted:
  assumes "schema data = Inr input" "jm_wf fs"
  shows "state_action fs level schema (with_data h) data (Some st) w
    = h input (buildActionContext fs level st input) (Some st) w"
  using assms by (simp add: state_action_def schema_action_def runWithContext_def with_data_def action_context)

text \<open>The factories of an application that registers the context service only.\<close>

lemma register_db_wf: "jm_wf (register_db [])" "jm_get (register_db []) ''tenantId'' = None"
  "jm_get (register_db []) ''traceId'' = None"
  by (simp_all add: register_db_def registerContextService_def jm_wf_def jm_keys_def)

section \<open>Requests to an application\<close>

type_synonym ('w, 's) app_routes = "(string \<times> string \<times> ('w, 's) app_handler) list"

definition app_router :: "middleware_options \<Rightarrow> ('w, 's) app_routes \<Rightarrow> 'w \<Rightarrow> 's router" where
  "app_router opts routes w = foldl (\<lambda>r (method, path, h). add_route method path (at_state w h) r)
     (IntellibizRouter opts) routes"

definition find_handler :: "(string \<Rightarrow> string \<Rightarrow> (string, string) jsmap option) \<Rightarrow> string \<Rightarrow> string
    \<Rightarrow> ('w, 's) app_routes \<Rightarrow> (('w, 's) app_handler \<times> (string, string) jsmap) option" where
  "find_handler path_match method path routes = Option.bind
     (find (\<lambda>(m, p, _). m = method \<and> path_match p path \<noteq> None) routes)
     (\<lambda>(_, p, h). map_option (\<lambda>params. (h, params)) (path_match p path))"

text \<open>The parameters of a request: trace id, clock, method, path, what the framework parsed, and what
  the handlers take from the platform (clocks, random values).\<close>

record 'r request =
  aq_traceId :: string
  aq_startTime :: int
  aq_method :: string
  aq_path :: string
  aq_request :: full_request
  aq_random :: 'r

record 's app_env =
  ae_jwtVerify :: jwt_lib
  ae_url_host :: "string \<Rightarrow> string option"
  ae_json_parse :: "string \<Rightarrow> json option"
  ae_path_match :: "string \<Rightarrow> string \<Rightarrow> (string, string) jsmap option"
  ae_not_found :: "int \<times> response_body"
  ae_factories :: "'s factories"
  ae_level :: string
  ae_options :: middleware_options

definition request_store :: "'s app_env \<Rightarrow> 'r request \<Rightarrow> store result" where
  "request_store e q = kernelMiddleware (ae_jwtVerify e) (ae_url_host e) (ae_options e) (aq_traceId q) (aq_startTime q)
     (http_request.truncate (aq_request q))"

definition app_fetch :: "'s app_env \<Rightarrow> ('r \<Rightarrow> ('w, 's) app_routes) \<Rightarrow> 'r request \<Rightarrow> 'w \<Rightarrow> response \<times> 'w" where
  "app_fetch e routes q w =
     (fetch (ae_jwtVerify e) (ae_url_host e) (ae_json_parse e) (ae_path_match e) (ae_not_found e) (ae_factories e) (ae_level e)
        (app_router (ae_options e) (routes (aq_random q)) w) (aq_traceId q) (aq_startTime q) (aq_method q) (aq_path q) (aq_request q),
      case (request_store e q, find_handler (ae_path_match e) (aq_method q) (aq_path q) (routes (aq_random q))) of
        (Inr st, Some (h, params)) \<Rightarrow>
          state_after h (request_ctx (ae_factories e) (ae_level e) (ae_json_parse e) (aq_method q)
            ((aq_request q)\<lparr>fq_params := params\<rparr>) st) st w
      | _ \<Rightarrow> w)"

lemma app_router_routes:
  fixes routes :: "('w, 's) app_routes"
  shows "rr_routes (app_router opts routes w) = map (\<lambda>(m, p, h). \<lparr>rt_method = m, rt_path = p, rt_handler = at_state w h\<rparr>) routes"
    "rr_opts (app_router opts routes w) = opts"
proof -
  have "rr_routes (foldl (\<lambda>r (m, p, h). add_route m p (at_state w h) r) r0 routes) =
      rr_routes r0 @ map (\<lambda>(m, p, h). \<lparr>rt_method = m, rt_path = p, rt_handler = at_state w h\<rparr>) routes \<and>
    rr_opts (foldl (\<lambda>r (m, p, h). add_route m p (at_state w h) r) r0 routes) = rr_opts r0" for r0 :: "'s router"
    by (induction routes arbitrary: r0) (auto simp: add_route_def)
  then show "rr_routes (app_router opts routes w) =
      map (\<lambda>(m, p, h). \<lparr>rt_method = m, rt_path = p, rt_handler = at_state w h\<rparr>) routes"
    "rr_opts (app_router opts routes w) = opts"
    by (simp_all add: app_router_def IntellibizRouter_def)
qed

lemma find_SomeD: "find P xs = Some x \<Longrightarrow> x \<in> set xs \<and> P x"
  by (auto simp: find_Some_iff)

abbreviation route_matches :: "(string \<Rightarrow> string \<Rightarrow> (string, string) jsmap option) \<Rightarrow> string \<Rightarrow> string
    \<Rightarrow> string \<times> string \<times> ('w, 's) app_handler \<Rightarrow> bool" where
  "route_matches path_match method path \<equiv> (\<lambda>(m, p, _). m = method \<and> path_match p path \<noteq> None)"

lemma find_route_app:
  fixes routes :: "('w, 's) app_routes"
  shows "find_route path_match method path (app_router opts routes w) =
    (case find (route_matches path_match method path) routes of
       None \<Rightarrow> None
     | Some (m, p, h) \<Rightarrow> Some (\<lparr>rt_method = m, rt_path = p, rt_handler = at_state w h\<rparr>, the (path_match p path)))"
proof -
  have map: "find (\<lambda>rt. rt_method rt = method \<and> path_match (rt_path rt) path \<noteq> None)
      (map (\<lambda>(m, p, h). \<lparr>rt_method = m, rt_path = p, rt_handler = at_state w h\<rparr>) routes) =
    map_option (\<lambda>(m, p, h). \<lparr>rt_method = m, rt_path = p, rt_handler = at_state w h\<rparr>)
      (find (route_matches path_match method path) routes)"
    by (induction routes) auto
  show ?thesis
  proof (cases "find (route_matches path_match method path) routes")
    case None
    then show ?thesis unfolding find_route_def app_router_routes map by simp
  next
    case (Some r)
    obtain m p h where r: "r = (m, p, h)" by (cases r)
    with find_SomeD[OF Some] Some show ?thesis
      unfolding find_route_def app_router_routes map by auto
  qed
qed

lemma find_handler_app:
  "find_handler path_match method path routes =
    (case find (route_matches path_match method path) routes of
       None \<Rightarrow> None
     | Some (m, p, h) \<Rightarrow> Some (h, the (path_match p path)))"
proof (cases "find (route_matches path_match method path) routes")
  case (Some r)
  obtain m p h where r: "r = (m, p, h)" by (cases r)
  with find_SomeD[OF Some] Some show ?thesis unfolding find_handler_def by auto
qed (simp add: find_handler_def)

lemma find_handler_mem:
  assumes "find_handler path_match method path routes = Some (h, params)"
  shows "\<exists>p. (method, p, h) \<in> set routes \<and> path_match p path = Some params"
proof (cases "find (route_matches path_match method path) routes")
  case (Some r)
  obtain m p h' where r: "r = (m, p, h')" by (cases r)
  with find_SomeD[OF Some] Some assms show ?thesis unfolding find_handler_app by auto
qed (use assms in \<open>simp add: find_handler_app\<close>)

text \<open>A request is refused, not routed, or handled by one handler under the request's store.\<close>

definition handler_context :: "'s app_env \<Rightarrow> 'r request \<Rightarrow> (string, string) jsmap \<Rightarrow> store \<Rightarrow> 's request_context" where
  "handler_context e q params st = request_ctx (ae_factories e) (ae_level e) (ae_json_parse e) (aq_method q)
     ((aq_request q)\<lparr>fq_params := params\<rparr>) st"

lemma app_fetch_eq:
  "app_fetch e routes q w =
    (case request_store e q of
       Inl t \<Rightarrow> (\<lparr>rs_status = fst (onError t), rs_body = snd (onError t), rs_headers = []\<rparr>, w)
     | Inr st \<Rightarrow>
         (case find_handler (ae_path_match e) (aq_method q) (aq_path q) (routes (aq_random q)) of
            None \<Rightarrow> (\<lparr>rs_status = fst (ae_not_found e), rs_body = snd (ae_not_found e),
                rs_headers = [(''X-Trace-Id'', aq_traceId q)]\<rparr>, w)
          | Some (h, params) \<Rightarrow>
              (wrapHandler (ae_factories e) (ae_level e) (ae_json_parse e) (at_state w h) (aq_method q)
                 ((aq_request q)\<lparr>fq_params := params\<rparr>) (Some st) [(''X-Trace-Id'', aq_traceId q)],
               state_after h (handler_context e q params st) st w)))"
proof -
  have tr: "http_request.truncate (c\<lparr>fq_params := ps\<rparr>) = http_request.truncate c" for c :: full_request and ps
    by (cases c) (simp add: http_request.defs)
  show ?thesis
  proof (cases "find (route_matches (ae_path_match e) (aq_method q) (aq_path q)) (routes (aq_random q))")
    case None
    then show ?thesis
      by (auto simp: app_fetch_def fetch_def find_route_app find_handler_app request_store_def app_router_routes
          case_prod_beta Let_def split: sum.splits)
  next
    case (Some r)
    then show ?thesis
      by (cases r) (auto simp: app_fetch_def fetch_def find_route_app find_handler_app request_store_def app_router_routes
          handle_request_def handler_context_def tr case_prod_beta Let_def split: sum.splits)
  qed
qed

lemma app_fetch_state:
  "snd (app_fetch e routes q w) = w \<or>
   (\<exists>p h params st. (aq_method q, p, h) \<in> set (routes (aq_random q)) \<and> request_store e q = Inr st \<and>
      snd (app_fetch e routes q w) = state_after h (handler_context e q params st) st w)"
proof (cases "request_store e q")
  case (Inr st)
  show ?thesis
  proof (cases "find_handler (ae_path_match e) (aq_method q) (aq_path q) (routes (aq_random q))")
    case (Some hp)
    obtain h params where hp: "hp = (h, params)" by (cases hp)
    from find_handler_mem[OF Some[unfolded hp]] Some hp Inr show ?thesis by (auto simp: app_fetch_eq)
  qed (simp add: app_fetch_eq Inr)
qed (simp add: app_fetch_eq)

section \<open>Non-interference\<close>

text \<open>The answers to the requests of one tenant in a run. The contract: a request belongs to one tenant or to none, it sees and changes only its tenant's
  part of the state, and a request without a tenant changes nothing.\<close>

fun answers :: "('q \<Rightarrow> 't option) \<Rightarrow> ('q \<Rightarrow> 'w \<Rightarrow> 'r \<times> 'w) \<Rightarrow> 't \<Rightarrow> 'q list \<Rightarrow> 'w \<Rightarrow> 'r list" where
  "answers tenant step t [] w = []"
| "answers tenant step t (q # qs) w =
     (if tenant q = Some t then [fst (step q w)] else []) @ answers tenant step t qs (snd (step q w))"

locale tenant_app =
  fixes tenant :: "'q \<Rightarrow> 't option" and step :: "'q \<Rightarrow> 'w \<Rightarrow> 'r \<times> 'w" and view :: "'t \<Rightarrow> 'w \<Rightarrow> 'v"
  assumes own_answer: "tenant q = Some t \<Longrightarrow> view t w = view t w' \<Longrightarrow> fst (step q w) = fst (step q w')"
    and own_view: "tenant q = Some t \<Longrightarrow> view t w = view t w' \<Longrightarrow> view t (snd (step q w)) = view t (snd (step q w'))"
    and other_view: "tenant q \<noteq> Some t \<Longrightarrow> view t (snd (step q w)) = view t w"
begin

lemma answers_view: "view t w = view t w' \<Longrightarrow> answers tenant step t qs w = answers tenant step t (filter (\<lambda>q. tenant q = Some t) qs) w'"
proof (induction qs arbitrary: w w')
  case (Cons q qs)
  show ?case
  proof (cases "tenant q = Some t")
    case True
    with Cons show ?thesis using own_answer[OF True Cons.prems] own_view[OF True Cons.prems] by simp
  next
    case False
    with Cons.IH[of "snd (step q w)" w'] Cons.prems show ?thesis by (simp add: other_view)
  qed
qed simp

lemma noninterference: "answers tenant step t qs w = answers tenant step t (filter (\<lambda>q. tenant q = Some t) qs) w"
  by (rule answers_view) simp

lemma view_after: "view t (foldl (\<lambda>w q. snd (step q w)) w qs)
    = view t (foldl (\<lambda>w q. snd (step q w)) w (filter (\<lambda>q. tenant q = Some t) qs))"
proof -
  have "view t w = view t w' \<Longrightarrow> view t (foldl (\<lambda>w q. snd (step q w)) w qs)
      = view t (foldl (\<lambda>w q. snd (step q w)) w' (filter (\<lambda>q. tenant q = Some t) qs))" for w w'
  proof (induction qs arbitrary: w w')
    case (Cons q qs)
    then show ?case
      by (cases "tenant q = Some t") (simp_all add: own_view[of q t w w'] other_view)
  qed simp
  then show ?thesis by simp
qed

end

text \<open>An application meets the contract when each of its handlers does, called under any store.\<close>

definition tenant_local :: "(string \<Rightarrow> 'w \<Rightarrow> 'v) \<Rightarrow> ('w, 's) app_handler
    \<Rightarrow> 's request_context \<Rightarrow> store \<Rightarrow> bool" where
  "tenant_local view h ctx st \<longleftrightarrow>
     (\<forall>w w'. view (st_tenantId st) w = view (st_tenantId st) w' \<longrightarrow>
        run_handler (at_state w h) ctx st = run_handler (at_state w' h) ctx st \<and>
        view (st_tenantId st) (state_after h ctx st w) = view (st_tenantId st) (state_after h ctx st w')) \<and>
     (\<forall>w t. t \<noteq> st_tenantId st \<longrightarrow> view t (state_after h ctx st w) = view t w)"

definition request_tenant_id :: "'s app_env \<Rightarrow> 'r request \<Rightarrow> string option" where
  "request_tenant_id e q = (case request_store e q of Inl _ \<Rightarrow> None | Inr st \<Rightarrow> Some (st_tenantId st))"

lemma handler_runs:
  "run_handler (at_state w (AppPlain f)) ctx st = fst (f ctx (Some st) w)"
  "run_handler (at_state w (AppAction a)) ctx st = respond (fst (a (rc_body ctx) (Some st) w))"
  "state_after (AppPlain f) ctx st w = snd (f ctx (Some st) w)"
  "state_after (AppAction a) ctx st w = snd (a (rc_body ctx) (Some st) w)"
  by (simp_all add: run_handler_def runWithContext_def at_state_def state_after_def respond_def)

lemma tenant_localI:
  assumes "\<And>w w'. view (st_tenantId st) w = view (st_tenantId st) w' \<Longrightarrow>
      run_handler (at_state w h) ctx st = run_handler (at_state w' h) ctx st \<and>
      view (st_tenantId st) (state_after h ctx st w) = view (st_tenantId st) (state_after h ctx st w')"
    and "\<And>w t. t \<noteq> st_tenantId st \<Longrightarrow> view t (state_after h ctx st w) = view t w"
  shows "tenant_local view h ctx st"
  using assms unfolding tenant_local_def by blast

text \<open>Requests may be exempt: those for routes that cross tenants on purpose, which must not change
  what any tenant sees and whose answers are nobody's.\<close>

definition scoped_tenant :: "('r request \<Rightarrow> bool) \<Rightarrow> 's app_env \<Rightarrow> 'r request \<Rightarrow> string option" where
  "scoped_tenant exempt e q = (if exempt q then None else request_tenant_id e q)"

lemma tenant_app_except:
  fixes routes :: "'r \<Rightarrow> ('w, 's) app_routes"
  assumes loc: "\<And>q h params st. \<not> exempt q \<Longrightarrow>
      find_handler (ae_path_match e) (aq_method q) (aq_path q) (routes (aq_random q)) = Some (h, params) \<Longrightarrow>
      tenant_local view h (handler_context e q params st) st"
    and ex: "\<And>q h params st t w. exempt q \<Longrightarrow>
      find_handler (ae_path_match e) (aq_method q) (aq_path q) (routes (aq_random q)) = Some (h, params) \<Longrightarrow>
      view t (state_after h (handler_context e q params st) st w) = view t w"
  shows "tenant_app (scoped_tenant exempt e) (app_fetch e routes) view"
proof -
  have wrap: "wrapHandler fs level jp h m c (Some st) hd = wrapHandler fs level jp h' m c (Some st) hd"
    if "run_handler h (request_ctx fs level jp m c st) st = run_handler h' (request_ctx fs level jp m c st) st"
    for fs :: "'s factories" and level jp h h' m c st hd
    using that by (simp add: wrapHandler_def)
  show ?thesis
  proof
    fix q :: "'r request" and t w w'
    assume "scoped_tenant exempt e q = Some t" and v: "view t w = view t w'"
    then obtain st where st: "request_store e q = Inr st" "t = st_tenantId st" and q: "\<not> exempt q"
      by (cases "request_store e q") (auto simp: scoped_tenant_def request_tenant_id_def split: if_splits)
    show "fst (app_fetch e routes q w) = fst (app_fetch e routes q w')"
      "view t (snd (app_fetch e routes q w)) = view t (snd (app_fetch e routes q w'))"
    proof -
      let ?f = "find_handler (ae_path_match e) (aq_method q) (aq_path q) (routes (aq_random q))"
      have "fst (app_fetch e routes q w) = fst (app_fetch e routes q w') \<and>
        view t (snd (app_fetch e routes q w)) = view t (snd (app_fetch e routes q w'))"
      proof (cases ?f)
        case (Some hp)
        obtain h params where hp: "hp = (h, params)" by (cases hp)
        from loc[OF q Some[unfolded hp], of st] v st(2)
        have run: "run_handler (at_state w h) (handler_context e q params st) st
              = run_handler (at_state w' h) (handler_context e q params st) st"
          and view: "view t (state_after h (handler_context e q params st) st w)
              = view t (state_after h (handler_context e q params st) st w')"
          unfolding tenant_local_def by blast+
        show ?thesis
          unfolding app_fetch_eq st(1) Some hp using view by (simp add: wrap[OF run[unfolded handler_context_def]])
      qed (use v st(2) in \<open>simp add: app_fetch_eq st(1)\<close>)
      then show "fst (app_fetch e routes q w) = fst (app_fetch e routes q w')"
        "view t (snd (app_fetch e routes q w)) = view t (snd (app_fetch e routes q w'))" by simp_all
    qed
  next
    fix q :: "'r request" and t w
    assume other: "scoped_tenant exempt e q \<noteq> Some t"
    show "view t (snd (app_fetch e routes q w)) = view t w"
    proof (cases "request_store e q")
      case (Inr st)
      show ?thesis
      proof (cases "find_handler (ae_path_match e) (aq_method q) (aq_path q) (routes (aq_random q))")
        case (Some hp)
        obtain h params where hp: "hp = (h, params)" by (cases hp)
        have "view t (state_after h (handler_context e q params st) st w) = view t w"
        proof (cases "exempt q")
          case True
          then show ?thesis using ex Some hp by blast
        next
          case False
          with other Inr have "t \<noteq> st_tenantId st" by (simp add: scoped_tenant_def request_tenant_id_def)
          with loc[OF False Some[unfolded hp], of st] show ?thesis by (simp add: tenant_local_def)
        qed
        then show ?thesis unfolding app_fetch_eq Inr Some hp by simp
      qed (simp add: app_fetch_eq Inr)
    qed (simp add: app_fetch_eq)
  qed
qed

lemma tenant_app_of_handlers:
  fixes routes :: "'r \<Rightarrow> ('w, 's) app_routes"
  assumes "\<And>m p h q params st. (m, p, h) \<in> set (routes (aq_random q)) \<Longrightarrow>
      tenant_local view h (handler_context e q params st) st"
  shows "tenant_app (request_tenant_id e) (app_fetch e routes) view"
proof -
  have "scoped_tenant (\<lambda>_ :: 'r request. False) e = request_tenant_id e" by (simp add: scoped_tenant_def fun_eq_iff)
  moreover have "tenant_app (scoped_tenant (\<lambda>_ :: 'r request. False) e) (app_fetch e routes) view"
  proof (rule tenant_app_except)
    fix q :: "'r request" and h params st
    assume "find_handler (ae_path_match e) (aq_method q) (aq_path q) (routes (aq_random q)) = Some (h, params)"
    then show "tenant_local view h (handler_context e q params st) st"
      using find_handler_mem assms by blast
  qed simp_all
  ultimately show ?thesis by simp
qed

end
