(* ===== verification/Crm.thy ===== *)
theory Crm
  imports App
begin

text \<open>
  The CRM application (examples/crm/src/index.ts): contacts of several tenants behind bearer tokens
  and permissions. \<open>schema\<close> is the validation library's parser for \<open>CreateContactInput\<close>; its result
  has the two declared fields only. A request's random string names the contact it creates.
\<close>

section \<open>The application\<close>

record contact =
  ct_id :: string
  ct_orgId :: string
  ct_name :: string
  ct_email :: string

record contact_input =
  ci_name :: string
  ci_email :: string

definition contact_json :: "contact \<Rightarrow> json" where
  "contact_json c = JObj [(''id'', JStr (ct_id c)), (''orgId'', JStr (ct_orgId c)), (''name'', JStr (ct_name c)),
     (''email'', JStr (ct_email c))]"

text \<open>\<open>c.orgId === req.tenantId\<close>.\<close>

definition in_org :: "('s, 'd) ctx_object \<Rightarrow> contact \<Rightarrow> bool" where
  "in_org ctx c \<longleftrightarrow> ct_orgId c = ctx_tenant ctx"

text \<open>\<open>if (!identity.can(permission)) throw identity.ForbiddenError()\<close>.\<close>

definition require :: "als \<Rightarrow> string \<Rightarrow> 'a result \<Rightarrow> 'a result" where
  "require s permission k = and_then (can s permission) (\<lambda>b. if \<not> b then Inl (Err ForbiddenError) else k)"

definition listContacts :: "'s request_context \<Rightarrow> als \<Rightarrow> contact list \<Rightarrow> handler_outcome \<times> contact list" where
  "listContacts req s contacts =
     (respond (require s ''read'' (Inr (Some (JArr (map contact_json (filter (in_org (rc_context req)) contacts)))))), contacts)"

definition createContact_handler :: "string \<Rightarrow> contact_input \<Rightarrow> ('s, contact_input) ctx_object \<Rightarrow> als \<Rightarrow> contact list
    \<Rightarrow> json option result \<times> contact list" where
  "createContact_handler rnd data action s contacts =
     (case require s ''write'' (Inr ()) of
        Inl e \<Rightarrow> (Inl e, contacts)
      | Inr _ \<Rightarrow>
          (let contact = \<lparr>ct_id = ''ct_'' @ rnd, ct_orgId = ctx_tenant action, ct_name = ci_name data, ct_email = ci_email data\<rparr>
           in (Inr (Some (contact_json contact)), contacts @ [contact])))"

definition createContact :: "'s factories \<Rightarrow> string \<Rightarrow> contact_input validator \<Rightarrow> string
    \<Rightarrow> json option \<Rightarrow> als \<Rightarrow> contact list \<Rightarrow> json option result \<times> contact list" where
  "createContact fs level schema rnd = state_action fs level schema (with_data (createContact_handler rnd))"

text \<open>\<open>findIndex\<close> and \<open>splice(index, 1)\<close>: the first match and the list without it.\<close>

fun take_first :: "('a \<Rightarrow> bool) \<Rightarrow> 'a list \<Rightarrow> ('a \<times> 'a list) option" where
  "take_first P [] = None"
| "take_first P (x # xs) = (if P x then Some (x, xs) else map_option (\<lambda>(y, ys). (y, x # ys)) (take_first P xs))"

definition deleteContact :: "'s request_context \<Rightarrow> als \<Rightarrow> contact list \<Rightarrow> handler_outcome \<times> contact list" where
  "deleteContact req s contacts =
     (case require s ''delete'' (Inr ()) of
        Inl e \<Rightarrow> (respond (Inl e), contacts)
      | Inr _ \<Rightarrow>
          (case take_first (\<lambda>c. jm_get (rc_params req) ''id'' = Some (ct_id c) \<and> in_org (rc_context req) c) contacts of
             None \<Rightarrow> (respond (Inl (Err (coded_error ''Contact not found.'' ''CONTACT_NOT_FOUND'' 404))), contacts)
           | Some (removed, rest) \<Rightarrow> (respond (Inr (Some (contact_json removed))), rest)))"

definition exportContacts :: "'s request_context \<Rightarrow> als \<Rightarrow> contact list \<Rightarrow> handler_outcome \<times> contact list" where
  "exportContacts req s contacts =
     (respond (require s ''export'' (Inr (Some (JObj
        [(''tenantId'', JStr (ctx_tenant (rc_context req))),
         (''format'', JStr ''csv''),
         (''rows'', JNum (of_nat (length (filter (in_org (rc_context req)) contacts))))])))), contacts)"

definition crm_routes :: "'s factories \<Rightarrow> string \<Rightarrow> contact_input validator \<Rightarrow> string \<Rightarrow> (contact list, 's) app_routes" where
  "crm_routes fs level schema rnd =
     [(''GET'', ''/api/v1/contacts'', AppPlain listContacts),
      (''POST'', ''/api/v1/contacts'', AppAction (createContact fs level schema rnd)),
      (''DELETE'', ''/api/v1/contacts/:id'', AppPlain deleteContact),
      (''GET'', ''/api/v1/contacts/export'', AppPlain exportContacts)]"

text \<open>The environment of the application: one registered service, and the token secret.\<close>

definition crm_env :: "string \<Rightarrow> context_db app_env \<Rightarrow> context_db app_env" where
  "crm_env secret e = e\<lparr>ae_factories := register_db [],
     ae_options := \<lparr>mo_jwtSecret = Some secret, mo_jwtAlgorithm = None, mo_strictTenancy = False\<rparr>\<rparr>"

definition crm_fetch :: "string \<Rightarrow> context_db app_env \<Rightarrow> contact_input validator \<Rightarrow> string request \<Rightarrow> contact list
    \<Rightarrow> response \<times> contact list" where
  "crm_fetch secret e schema = app_fetch (crm_env secret e) (crm_routes (register_db []) (ae_level e) schema)"

lemma crm_env_simps [simp]:
  "ae_jwtVerify (crm_env secret e) = ae_jwtVerify e" "ae_url_host (crm_env secret e) = ae_url_host e"
  "ae_json_parse (crm_env secret e) = ae_json_parse e" "ae_path_match (crm_env secret e) = ae_path_match e"
  "ae_level (crm_env secret e) = ae_level e" "ae_factories (crm_env secret e) = register_db []"
  by (simp_all add: crm_env_def)

section \<open>Isolation of the handlers\<close>

definition contacts_of :: "string \<Rightarrow> contact list \<Rightarrow> contact list" where
  "contacts_of t contacts = filter (\<lambda>c. ct_orgId c = t) contacts"

lemma require_iff: "require (Some st) p k = (if granted (st_role st) p then k else Inl (Err ForbiddenError))"
  by (simp add: require_def can_granted)

lemma in_org_request: "in_org (rc_context (handler_context e q params st)) = (\<lambda>c. ct_orgId c = st_tenantId st)"
  by (auto simp: in_org_def handler_context_def request_tenant fun_eq_iff)

lemma take_first_filter:
  "take_first (\<lambda>x. P x \<and> Q x) xs = None \<longleftrightarrow> take_first P (filter Q xs) = None"
  "take_first (\<lambda>x. P x \<and> Q x) xs = Some (y, ys) \<Longrightarrow>
     Q y \<and> (\<exists>zs. take_first P (filter Q xs) = Some (y, zs) \<and> zs = filter Q ys) \<and>
     (\<forall>R. \<not> R y \<longrightarrow> filter R ys = filter R xs)"
proof (induction xs arbitrary: ys)
  case (Cons x xs)
  {
    case 1
    with Cons.IH(1) show ?case by auto
  next
    case 2
    with Cons.IH(2) show ?case by (auto split: if_splits)
  }
qed simp_all

lemma list_local: "tenant_local contacts_of (AppPlain listContacts) (handler_context e q params st) st"
  by (auto simp: tenant_local_def listContacts_def at_state_def state_after_def run_handler_def runWithContext_def
      in_org_request contacts_of_def)

lemma export_local: "tenant_local contacts_of (AppPlain exportContacts) (handler_context e q params st) st"
  by (auto simp: tenant_local_def exportContacts_def at_state_def state_after_def run_handler_def runWithContext_def
      in_org_request contacts_of_def)

lemma delete_local: "tenant_local contacts_of (AppPlain deleteContact) (handler_context e q params st) st"
proof -
  define ctx where "ctx = handler_context e q params st"
  let ?t = "st_tenantId st" and ?P = "\<lambda>c. jm_get (rc_params ctx) ''id'' = Some (ct_id c)"
  have org: "in_org (rc_context ctx) = (\<lambda>c. ct_orgId c = ?t)" by (simp add: ctx_def in_org_request)
  have first: "(case take_first ?P (contacts_of ?t w) of
        None \<Rightarrow> deleteContact ctx (Some st) w = (respond (if granted (st_role st) ''delete''
            then Inl (Err (coded_error ''Contact not found.'' ''CONTACT_NOT_FOUND'' 404)) else Inl (Err ForbiddenError)), w)
      | Some (c, cs) \<Rightarrow> \<exists>w'. contacts_of ?t w' = (if granted (st_role st) ''delete'' then cs else contacts_of ?t w) \<and>
          (\<forall>t. t \<noteq> ?t \<longrightarrow> contacts_of t w' = contacts_of t w) \<and>
          deleteContact ctx (Some st) w = (respond (if granted (st_role st) ''delete''
            then Inr (Some (contact_json c)) else Inl (Err ForbiddenError)), w'))" for w
  proof (cases "take_first (\<lambda>c. ?P c \<and> ct_orgId c = ?t) w")
    case None
    with take_first_filter(1)[of ?P "\<lambda>c. ct_orgId c = ?t" w] show ?thesis
      by (simp add: contacts_of_def deleteContact_def require_iff org)
  next
    case (Some r)
    obtain c ws where r: "r = (c, ws)" by (cases r)
    note f = take_first_filter(2)[of ?P "\<lambda>c. ct_orgId c = ?t" w c ws, OF Some[unfolded r]]
    then have t: "take_first ?P (contacts_of ?t w) = Some (c, contacts_of ?t ws)" "ct_orgId c = ?t"
      by (auto simp: contacts_of_def)
    have "contacts_of t ws = contacts_of t w" if "t \<noteq> ?t" for t
      using f t(2) that by (simp add: contacts_of_def)
    with t Some r show ?thesis
      by (auto simp: deleteContact_def require_iff org)
  qed
  have own: "fst (deleteContact ctx (Some st) w) = fst (deleteContact ctx (Some st) w') \<and>
      contacts_of ?t (snd (deleteContact ctx (Some st) w)) = contacts_of ?t (snd (deleteContact ctx (Some st) w'))"
    if "contacts_of ?t w = contacts_of ?t w'" for w w'
    using first[of w] first[of w'] that
    by (cases "take_first ?P (contacts_of ?t w)") auto
  have other: "contacts_of t (snd (deleteContact ctx (Some st) w)) = contacts_of t w" if "t \<noteq> ?t" for t w
    using first[of w] that by (cases "take_first ?P (contacts_of ?t w)") auto
  show ?thesis
    unfolding ctx_def[symmetric] by (rule tenant_localI; unfold handler_runs; rule own other; assumption)
qed

text \<open>Creating a contact on each branch: rejected input, missing permission, success.\<close>

definition new_contact :: "string \<Rightarrow> store \<Rightarrow> contact_input \<Rightarrow> contact" where
  "new_contact rnd st input = \<lparr>ct_id = ''ct_'' @ rnd, ct_orgId = st_tenantId st, ct_name = ci_name input, ct_email = ci_email input\<rparr>"

lemma createContact_rejected:
  "schema data = Inl f \<Longrightarrow> \<exists>t. \<forall>w. createContact fs level schema rnd data (Some st) w = (Inl t, w)"
  unfolding createContact_def by (rule state_action_rejected)

lemma createContact_accepted:
  "schema data = Inr input \<Longrightarrow> createContact (register_db []) level schema rnd data (Some st) w =
    (if granted (st_role st) ''write'' then (Inr (Some (contact_json (new_contact rnd st input))), w @ [new_contact rnd st input])
     else (Inl (Err ForbiddenError), w))"
  by (simp add: createContact_def state_action_accepted register_db_wf createContact_handler_def
      action_context[OF register_db_wf(1)] require_iff new_contact_def Let_def)

lemma create_local:
  "tenant_local contacts_of (AppAction (createContact (register_db []) level schema rnd)) ctx st"
proof (cases "schema (rc_body ctx)")
  case (Inl f)
  from createContact_rejected[of schema, OF Inl] obtain t
    where "\<And>w. createContact (register_db []) level schema rnd (rc_body ctx) (Some st) w = (Inl t, w)" by metis
  then show ?thesis
    by (simp add: tenant_local_def handler_runs)
next
  case (Inr input)
  show ?thesis
    by (simp add: tenant_local_def handler_runs
        createContact_accepted[of schema, OF Inr] contacts_of_def new_contact_def)
qed

interpretation crm: tenant_app "request_tenant_id (crm_env secret e)" "crm_fetch secret e schema" contacts_of
  unfolding crm_fetch_def
  by (rule tenant_app_of_handlers) (auto simp: crm_routes_def list_local export_local delete_local create_local)

section \<open>Properties\<close>

lemma handler_authorised:
  assumes "(m, p, h) \<in> set (crm_routes (register_db []) level schema rnd)"
  shows "state_after h ctx st w = w \<or> granted (st_role st) (if m = ''POST'' then ''write'' else ''delete'')"
proof -
  have create: "snd (createContact (register_db []) level schema rnd data (Some st) w) = w \<or> granted (st_role st) ''write''" for data
  proof (cases "schema data")
    case (Inl f)
    from createContact_rejected[of schema, OF Inl] obtain t
      where "createContact (register_db []) level schema rnd data (Some st) w = (Inl t, w)" by metis
    then show ?thesis by simp
  qed (simp add: createContact_accepted)
  show ?thesis
    using assms create by (auto simp: crm_routes_def handler_runs listContacts_def exportContacts_def deleteContact_def require_iff)
qed

lemma role_needs_claims:
  assumes "request_store e q = Inr st" "granted (st_role st) p"
  shows "\<exists>v. middleware_claims (ae_jwtVerify e) (ae_options e) (http_request.truncate (aq_request q)) = Some v \<and> granted (vt_role v) p"
  using assms
  by (auto simp: request_store_def kernelMiddleware_def Let_def and_then_Inr_iff granted_def role_grants_def
      split: option.splits if_splits)

text \<open>C8: tenants of the CRM do not see each other, and every change is authorised. In any sequence of
  requests, the answers to those under one tenant are exactly the answers when all other requests
  are left out; and a request changes the contacts only with a token whose role is granted writing
  (for a creation) or deleting.\<close>

theorem crm_noninterference:
  "answers (request_tenant_id (crm_env secret e)) (crm_fetch secret e schema) t qs w =
     answers (request_tenant_id (crm_env secret e)) (crm_fetch secret e schema) t
       (filter (\<lambda>q. request_tenant_id (crm_env secret e) q = Some t) qs) w \<and>
   (snd (crm_fetch secret e schema q w) = w \<or>
    (\<exists>v. middleware_claims (ae_jwtVerify e) (ae_options (crm_env secret e)) (http_request.truncate (aq_request q)) = Some v \<and>
       granted (vt_role v) (if aq_method q = ''POST'' then ''write'' else ''delete'')))"
proof
  show "answers (request_tenant_id (crm_env secret e)) (crm_fetch secret e schema) t qs w =
     answers (request_tenant_id (crm_env secret e)) (crm_fetch secret e schema) t
       (filter (\<lambda>q. request_tenant_id (crm_env secret e) q = Some t) qs) w"
    by (rule crm.noninterference)
  show "snd (crm_fetch secret e schema q w) = w \<or>
    (\<exists>v. middleware_claims (ae_jwtVerify e) (ae_options (crm_env secret e)) (http_request.truncate (aq_request q)) = Some v \<and>
       granted (vt_role v) (if aq_method q = ''POST'' then ''write'' else ''delete''))"
    using app_fetch_state[of "crm_env secret e" "crm_routes (register_db []) (ae_level e) schema" q w]
  proof (elim disjE exE conjE)
    fix p h params st
    assume h: "(aq_method q, p, h) \<in> set (crm_routes (register_db []) (ae_level e) schema (aq_random q))"
      and st: "request_store (crm_env secret e) q = Inr st"
      and state: "snd (app_fetch (crm_env secret e) (crm_routes (register_db []) (ae_level e) schema) q w)
        = state_after h (handler_context (crm_env secret e) q params st) st w"
    from handler_authorised[OF h, of "handler_context (crm_env secret e) q params st" st w] role_needs_claims[OF st] state
    show ?thesis by (auto simp: crm_fetch_def)
  qed (simp add: crm_fetch_def)
qed

text \<open>The tenant of a request is the one its header names: a token issued for one tenant, sent with
  the header of another, reads the other's contacts.\<close>

lemma crm_header_reads_other_tenant:
  assumes "middleware_claims (ae_jwtVerify e) (ae_options (crm_env secret e)) (http_request.truncate (aq_request q)) = Some v"
    and "req_header (http_request.truncate (aq_request q)) ''x-tenant-id'' = Some victim" "victim \<noteq> []"
    and "granted (vt_role v) ''read''"
    and "aq_method q = ''GET''" and "ae_path_match e ''/api/v1/contacts'' (aq_path q) = Some params"
  shows "rs_body (fst (crm_fetch secret e schema q w)) = JsonBody (Some (JArr (map contact_json (contacts_of victim w))))"
proof -
  let ?e = "crm_env secret e"
  obtain st where st: "request_store ?e q = Inr st" "st_tenantId st = victim" "st_role st = vt_role v"
    using header_overrides_token[OF assms(1-3), of "ae_url_host e" "aq_traceId q" "aq_startTime q"]
    by (auto simp: request_store_def)
  have h: "find_handler (ae_path_match ?e) (aq_method q) (aq_path q) (crm_routes (register_db []) (ae_level e) schema (aq_random q))
      = Some (AppPlain listContacts, params)"
    using assms(5,6) by (simp add: find_handler_app crm_routes_def)
  have run: "run_handler (at_state w (AppPlain listContacts)) (handler_context ?e q params st) st
      = respond (Inr (Some (JArr (map contact_json (contacts_of victim w)))))"
    using st assms(4) by (simp add: handler_runs listContacts_def in_org_request require_iff contacts_of_def)
  show ?thesis
    using run by (simp add: crm_fetch_def app_fetch_eq st(1) h[simplified] wrapHandler_def handler_context_def respond_def buildResponse_def Let_def)
qed

end
