(* ===== verification/MultiTenant.thy ===== *)
theory MultiTenant
  imports App Signature
begin

text \<open>
  The multi-tenant application (examples/multi-tenant/src/index.ts): orders of several tenants, a
  listing with the query the planner generates, and a platform route that crosses tenants through
  \<open>sudo\<close>. The state is the orders and the governance log; a request brings the random string of a new
  order and the clock reading of the log. \<open>schema\<close> is the validation library's parser.
\<close>

section \<open>The application\<close>

record order =
  od_id :: string
  od_orgId :: string
  od_total :: string
  od_status :: string

record order_store =
  os_orders :: "order list"
  os_log :: governance_log

record order_random =
  ox_id :: string
  ox_now :: int

definition ORDERS :: "order list" where
  "ORDERS =
     [\<lparr>od_id = ''ord_a1'', od_orgId = ''org_northwind'', od_total = ''249.00'', od_status = ''paid''\<rparr>,
      \<lparr>od_id = ''ord_a2'', od_orgId = ''org_northwind'', od_total = ''89.50'', od_status = ''paid''\<rparr>,
      \<lparr>od_id = ''ord_b1'', od_orgId = ''org_acme'', od_total = ''1750.00'', od_status = ''paid''\<rparr>]"

definition order_json :: "order \<Rightarrow> json" where
  "order_json d = JObj [(''id'', JStr (od_id d)), (''orgId'', JStr (od_orgId d)), (''total'', JStr (od_total d)),
     (''status'', JStr (od_status d))]"

text \<open>The validated input is the total.\<close>

definition createOrder_handler :: "order_random \<Rightarrow> string \<Rightarrow> ('s, string) ctx_object \<Rightarrow> als \<Rightarrow> order_store
    \<Rightarrow> json option result \<times> order_store" where
  "createOrder_handler x total_price action s w =
     (let order = \<lparr>od_id = ''ord_'' @ ox_id x, od_orgId = ctx_tenant action, od_total = total_price, od_status = ''paid''\<rparr>
      in (Inr (Some (order_json order)), w\<lparr>os_orders := os_orders w @ [order]\<rparr>))"

definition createOrder :: "'s factories \<Rightarrow> string \<Rightarrow> string validator \<Rightarrow> order_random
    \<Rightarrow> json option \<Rightarrow> als \<Rightarrow> order_store \<Rightarrow> json option result \<times> order_store" where
  "createOrder fs level schema x = state_action fs level schema (with_data (createOrder_handler x))"

definition list_template :: "string list" where
  "list_template =
     (let line = [CHR 0x0A, CHR 0x09, CHR 0x09]
      in [line @ ''SELECT id, total, status FROM orders'' @ line @ ''WHERE status = '',
          line @ ''ORDER BY id'' @ [CHR 0x0A, CHR 0x09]])"

definition listOrders :: "'s request_context \<Rightarrow> als \<Rightarrow> order_store \<Rightarrow> handler_outcome \<times> order_store" where
  "listOrders req s w =
     (let mine = filter (\<lambda>d. od_orgId d = ctx_tenant (rc_context req)) (os_orders w)
      in (respond (and_then (sql_tag s list_template [JStr ''paid'']) (\<lambda>plan.
            Inr (Some (JObj [(''tenantId'', JStr (ctx_tenant (rc_context req))), (''count'', JNum (of_nat (length mine))),
              (''orders'', JArr (map order_json mine)),
              (''generatedSql'', JObj [(''text'', JStr (sq_text plan)), (''params'', JArr (sq_params plan))])])))), w))"

definition platformTotal :: "order_random \<Rightarrow> 's request_context \<Rightarrow> als \<Rightarrow> order_store \<Rightarrow> handler_outcome \<times> order_store" where
  "platformTotal x req s w =
     (case db_sudo s (ox_now x) (os_log w) of
        (Inl e, glog) \<Rightarrow> (respond (Inl e), w\<lparr>os_log := glog\<rparr>)
      | (Inr build, glog) \<Rightarrow>
          (let plan = build [''SELECT count(*) FROM orders''] [];
               grandTotal = foldl (\<lambda>sum d. js_add sum (js_Number (od_total d))) (Fin 0) (os_orders w)
           in (respond (Inr (Some (JObj [(''requestedBy'', JStr (ctx_tenant (rc_context req))), (''scope'', JStr (sq_tenantId plan)),
                 (''query'', JStr (sq_text plan)), (''orders'', JNum (of_nat (length (os_orders w)))),
                 (''grandTotal'', JStr (to_fixed 2 grandTotal))]))), w\<lparr>os_log := glog\<rparr>)))"

definition order_routes :: "'s factories \<Rightarrow> string \<Rightarrow> string validator \<Rightarrow> order_random \<Rightarrow> (order_store, 's) app_routes" where
  "order_routes fs level schema x =
     [(''POST'', ''/api/v1/orders'', AppAction (createOrder fs level schema x)),
      (''GET'', ''/api/v1/orders'', AppPlain listOrders),
      (''GET'', ''/api/v1/platform/total'', AppPlain (platformTotal x))]"

text \<open>The default router has no token secret.\<close>

definition orders_env :: "context_db app_env \<Rightarrow> context_db app_env" where
  "orders_env e = e\<lparr>ae_factories := register_db [],
     ae_options := \<lparr>mo_jwtSecret = None, mo_jwtAlgorithm = None, mo_strictTenancy = False\<rparr>\<rparr>"

definition orders_fetch :: "context_db app_env \<Rightarrow> string validator \<Rightarrow> order_random request \<Rightarrow> order_store
    \<Rightarrow> response \<times> order_store" where
  "orders_fetch e schema = app_fetch (orders_env e) (order_routes (register_db []) (ae_level e) schema)"

lemma orders_env_simps [simp]:
  "ae_path_match (orders_env e) = ae_path_match e" "ae_level (orders_env e) = ae_level e"
  "ae_factories (orders_env e) = register_db []"
  by (simp_all add: orders_env_def)

section \<open>Isolation, except through the platform route\<close>

definition orders_of :: "string \<Rightarrow> order_store \<Rightarrow> order list" where
  "orders_of t w = filter (\<lambda>d. od_orgId d = t) (os_orders w)"

definition platform_request :: "context_db app_env \<Rightarrow> order_random request \<Rightarrow> bool" where
  "platform_request e q \<longleftrightarrow> aq_method q = ''GET'' \<and> ae_path_match e ''/api/v1/orders'' (aq_path q) = None \<and>
     ae_path_match e ''/api/v1/platform/total'' (aq_path q) \<noteq> None"

definition order_tenant :: "context_db app_env \<Rightarrow> order_random request \<Rightarrow> string option" where
  "order_tenant e = scoped_tenant (platform_request e) (orders_env e)"

lemma ctx_tenant_request: "ctx_tenant (rc_context (handler_context e q params st)) = st_tenantId st"
  by (simp add: handler_context_def request_tenant)

lemma orders_list_local: "tenant_local orders_of (AppPlain listOrders) (handler_context e q params st) st"
  by (auto simp: tenant_local_def handler_runs listOrders_def ctx_tenant_request orders_of_def Let_def)

lemma createOrder_accepted:
  "schema data = Inr total_price \<Longrightarrow> createOrder (register_db []) level schema x data (Some st) w =
    (let order = \<lparr>od_id = ''ord_'' @ ox_id x, od_orgId = st_tenantId st, od_total = total_price, od_status = ''paid''\<rparr>
     in (Inr (Some (order_json order)), w\<lparr>os_orders := os_orders w @ [order]\<rparr>))"
  by (simp add: createOrder_def state_action_accepted register_db_wf createOrder_handler_def action_context Let_def)

lemma createOrder_rejected:
  "schema data = Inl f \<Longrightarrow> \<exists>t. \<forall>w. createOrder fs level schema x data (Some st) w = (Inl t, w)"
  unfolding createOrder_def by (rule state_action_rejected)

lemma orders_create_local: "tenant_local orders_of (AppAction (createOrder (register_db []) level schema x)) ctx st"
proof (cases "schema (rc_body ctx)")
  case (Inl f)
  from createOrder_rejected[of schema, OF Inl] obtain t
    where "\<And>w. createOrder (register_db []) level schema x (rc_body ctx) (Some st) w = (Inl t, w)" by metis
  then show ?thesis by (simp add: tenant_local_def handler_runs)
next
  case (Inr total_price)
  then show ?thesis
    by (simp add: tenant_local_def handler_runs createOrder_accepted[of schema, OF Inr] orders_of_def Let_def)
qed

lemma platform_keeps_orders: "os_orders (snd (platformTotal x req s w)) = os_orders w"
  by (auto simp: platformTotal_def Let_def split: sum.splits prod.splits)

lemma order_handlers:
  assumes "find_handler (ae_path_match e) (aq_method q) (aq_path q) (order_routes fs level schema (aq_random q)) = Some (h, params)"
  shows "if platform_request e q then h = AppPlain (platformTotal (aq_random q))
    else h = AppAction (createOrder fs level schema (aq_random q)) \<or> h = AppPlain listOrders"
  using assms by (auto simp: find_handler_app order_routes_def platform_request_def split: if_splits option.splits)

interpretation orders: tenant_app "order_tenant e" "orders_fetch e schema" orders_of
  unfolding orders_fetch_def order_tenant_def
proof (rule tenant_app_except)
  fix q :: "order_random request" and h params st
  let ?found = "find_handler (ae_path_match (orders_env e)) (aq_method q) (aq_path q)
      (order_routes (register_db []) (ae_level e) schema (aq_random q)) = Some (h, params)"
  assume "\<not> platform_request e q" and ?found
  with order_handlers[of e q "register_db []" "ae_level e" schema h params] show
    "tenant_local orders_of h (handler_context (orders_env e) q params st) st"
    using orders_create_local orders_list_local by auto
next
  fix q :: "order_random request" and h params st t w
  assume "platform_request e q" and "find_handler (ae_path_match (orders_env e)) (aq_method q) (aq_path q)
      (order_routes (register_db []) (ae_level e) schema (aq_random q)) = Some (h, params)"
  with order_handlers[of e q "register_db []" "ae_level e" schema h params]
  show "orders_of t (state_after h (handler_context (orders_env e) q params st) st w) = orders_of t w"
    by (simp add: handler_runs orders_of_def platform_keeps_orders)
qed

section \<open>Properties\<close>

definition sudo_record :: "store \<Rightarrow> int \<Rightarrow> governance_record" where
  "sudo_record st now = \<lparr>gr_type = GOVERNANCE_SUDO_ACCESS, gr_userId = st_userId st, gr_tenantId = st_tenantId st,
     gr_traceId = st_traceId st, gr_timestamp = now, gr_sql = None\<rparr>"

lemma platform_log:
  "os_log (snd (platformTotal x req (Some st) w)) = os_log w @ [sudo_record st (ox_now x)]"
  by (simp add: platformTotal_def db_sudo_def recordGovernance_def sudo_record_def Let_def)

lemma createOrder_log: "os_log (snd (createOrder (register_db []) level schema x data (Some st) w)) = os_log w"
proof (cases "schema data")
  case (Inl f)
  from createOrder_rejected[of schema, OF Inl] obtain t
    where "createOrder (register_db []) level schema x data (Some st) w = (Inl t, w)" by metis
  then show ?thesis by simp
qed (simp add: createOrder_accepted Let_def)

lemma platform_found:
  "platform_request e q \<Longrightarrow>
    find_handler (ae_path_match e) (aq_method q) (aq_path q) (order_routes fs level schema (aq_random q)) \<noteq> None"
  by (auto simp: find_handler_app order_routes_def platform_request_def)

text \<open>Tenants do not see each other's orders, and the one route that crosses them is audited. In any
  sequence of requests, the answers to those under one tenant, the platform route apart, are the answers
  when all others are left out; and the governance log grows by one record with the requester's
  identity at each request that reaches the platform route, and at no other.\<close>

theorem orders_isolated_and_audited:
  "answers (order_tenant e) (orders_fetch e schema) t qs w =
     answers (order_tenant e) (orders_fetch e schema) t (filter (\<lambda>q. order_tenant e q = Some t) qs) w \<and>
   os_log (snd (orders_fetch e schema q w)) = os_log w @
     (case request_store (orders_env e) q of
        Inr st \<Rightarrow> if platform_request e q then [sudo_record st (ox_now (aq_random q))] else []
      | Inl _ \<Rightarrow> [])"
proof (intro conjI)
  show "answers (order_tenant e) (orders_fetch e schema) t qs w =
     answers (order_tenant e) (orders_fetch e schema) t (filter (\<lambda>q. order_tenant e q = Some t) qs) w"
    by (rule orders.noninterference)
  show "os_log (snd (orders_fetch e schema q w)) = os_log w @
     (case request_store (orders_env e) q of
        Inr st \<Rightarrow> if platform_request e q then [sudo_record st (ox_now (aq_random q))] else []
      | Inl _ \<Rightarrow> [])"
  proof (cases "find_handler (ae_path_match e) (aq_method q) (aq_path q)
      (order_routes (register_db []) (ae_level e) schema (aq_random q))")
    case None
    with platform_found[of e q "register_db []" "ae_level e" schema] show ?thesis
      by (auto simp: orders_fetch_def app_fetch_eq split: sum.splits)
  next
    case (Some hp)
    obtain h params where hp: "hp = (h, params)" by (cases hp)
    from order_handlers[OF Some[unfolded hp]] show ?thesis
      by (auto simp: orders_fetch_def app_fetch_eq Some hp handler_runs platform_log createOrder_log listOrders_def Let_def
          split: sum.splits if_splits)
  qed
qed

text \<open>The query the listing shows carries the tenant's filter.\<close>

lemma list_query:
  "sql_tag (Some \<lparr>st_traceId = ''t'', st_tenantId = ''org_acme'', st_userId = None, st_role = ''anonymous'',
       st_startTime = 0, st_origin = OriginHttp\<rparr>) list_template [JStr ''paid''] =
     Inr \<lparr>sq_text = ''SELECT id, total, status FROM orders'' @ [CHR 0x0A, CHR 0x09, CHR 0x09] @ ''WHERE org_id = '' @ [quote_char]
         @ ''org_acme'' @ [quote_char] @ '' AND deleted_at IS NULL AND status = $1'' @ [CHR 0x0A, CHR 0x09, CHR 0x09] @ ''ORDER BY id'',
       sq_params = [JStr ''paid''], sq_tenantId = ''org_acme''\<rparr>"
  by code_simp

lemma platform_total:
  "to_fixed 2 (foldl (\<lambda>sum d. js_add sum (js_Number (od_total d))) (Fin 0) ORDERS) = ''2088.50''"
  by code_simp

end
