(* ===== verification/Inventory.thy ===== *)
theory Inventory
  imports App Money Native
begin

text \<open>
  The inventory application (examples/inventory/src/index.ts): stock valued at weighted average,
  where a sale takes its cost out of the pool with \<open>Money.allocate\<close>. The decimal library is the
  argument \<open>D\<close>. The state is the map of stock records and the list of emitted events; listeners of
  the events only write to the log. The input schemas are the validation library's: \<open>op_ok\<close> at the
  end states what they let through.
\<close>

section \<open>State and actions\<close>

record 'd stock_record =
  iv_sku :: string
  iv_name :: string
  iv_onHand :: number
  iv_value :: "'d money"
  iv_reorderPoint :: number

record 'd inventory =
  in_stock :: "(string, 'd stock_record) jsmap"
  in_events :: "(string \<times> json) list"

record receive_input =
  ri_sku :: string
  ri_name :: string
  ri_units :: number
  ri_unitCost :: string
  ri_reorderPoint :: number

record sell_input =
  si_sku :: string
  si_units :: number
  si_unitPrice :: string

definition requireRecord :: "string \<Rightarrow> (string, 'd stock_record) jsmap \<Rightarrow> 'd stock_record result" where
  "requireRecord sku stock = (case jm_get stock sku of
     None \<Rightarrow> Inl (Err (plain_error ''Error'' (''Unknown SKU: '' @ sku))) | Some r \<Rightarrow> Inr r)"

definition inventory_emit :: "string \<Rightarrow> (string \<times> json) list \<Rightarrow> 'd inventory \<Rightarrow> 'd inventory" where
  "inventory_emit event payload w = w\<lparr>in_events := in_events w @ [(event, JObj payload)]\<rparr>"

definition receive_stock :: "'d decimal_lib \<Rightarrow> receive_input \<Rightarrow> 'd inventory \<Rightarrow> json option result \<times> 'd inventory" where
  "receive_stock D data w =
     (let sku = ri_sku data; units = ri_units data
      in case and_then (money D (StrArg (ri_unitCost data)) ''USD'') (\<lambda>c. money_multiply D c (NumArg units)) of
           Inl e \<Rightarrow> (Inl e, w)
         | Inr addedValue \<Rightarrow>
             (case (case jm_get (in_stock w) sku of
                      Some existing \<Rightarrow> and_then (money_add D (iv_value existing) addedValue)
                        (\<lambda>v. Inr (existing\<lparr>iv_onHand := js_add (iv_onHand existing) units, iv_value := v\<rparr>))
                    | None \<Rightarrow> Inr \<lparr>iv_sku = sku, iv_name = ri_name data, iv_onHand = units, iv_value = addedValue,
                                  iv_reorderPoint = ri_reorderPoint data\<rparr>) of
                Inl e \<Rightarrow> (Inl e, w)
              | Inr next \<Rightarrow>
                  (Inr (Some (JObj [(''sku'', JStr sku), (''onHand'', number_json (iv_onHand next)),
                      (''value'', JStr (amount D (iv_value next)))])),
                   inventory_emit ''inventory.received''
                     [(''sku'', JStr sku), (''units'', number_json units), (''value'', JStr (amount D addedValue))]
                     (w\<lparr>in_stock := jm_set sku next (in_stock w)\<rparr>))))"

definition out_of_stock :: "string \<Rightarrow> js_error" where
  "out_of_stock sku = coded_error (''Insufficient stock for '' @ sku) ''OUT_OF_STOCK'' 409"

text \<open>The first bucket of the split, \<open>const [cost] = record.value.allocate(...)\<close>; the record is
  updated in place, the units before the value.\<close>

definition split_cost :: "'d decimal_lib \<Rightarrow> 'd stock_record \<Rightarrow> number \<Rightarrow> 'd money result" where
  "split_cost D record units =
     and_then (allocate D (iv_value record) [units, js_sub (iv_onHand record) units]) (\<lambda>ms.
       case ms of cost # _ \<Rightarrow> Inr cost
       | [] \<Rightarrow> Inl (Err (plain_error ''TypeError'' ''Cannot read properties of undefined'')))"

definition sell_stock :: "'d decimal_lib \<Rightarrow> sell_input \<Rightarrow> 'd inventory \<Rightarrow> json option result \<times> 'd inventory" where
  "sell_stock D data w =
     (let sku = si_sku data; units = si_units data
      in case requireRecord sku (in_stock w) of
           Inl e \<Rightarrow> (Inl e, w)
         | Inr record \<Rightarrow>
             if js_less (iv_onHand record) units then (Inl (Err (out_of_stock sku)), w)
             else
               (case and_then (split_cost D record units) (\<lambda>cost.
                       and_then (and_then (money D (StrArg (si_unitPrice data)) ''USD'') (\<lambda>p. money_multiply D p (NumArg units)))
                         (\<lambda>revenue. and_then (money_subtract D revenue cost) (\<lambda>margin. Inr (cost, revenue, margin)))) of
                  Inl e \<Rightarrow> (Inl e, w)
                | Inr (cost, revenue, margin) \<Rightarrow>
                    (let r1 = record\<lparr>iv_onHand := js_sub (iv_onHand record) units\<rparr>;
                         put = (\<lambda>r. w\<lparr>in_stock := jm_set sku r (in_stock w)\<rparr>)
                     in case money_subtract D (iv_value r1) cost of
                          Inl e \<Rightarrow> (Inl e, put r1)
                        | Inr val \<Rightarrow>
                            (let r2 = r1\<lparr>iv_value := val\<rparr>;
                                 low = \<not> js_less (iv_reorderPoint r2) (iv_onHand r2);
                                 w' = (if low
                                       then inventory_emit ''inventory.low'' [(''sku'', JStr sku),
                                         (''onHand'', number_json (iv_onHand r2)),
                                         (''reorderPoint'', number_json (iv_reorderPoint r2))] (put r2)
                                       else put r2)
                             in (Inr (Some (JObj [(''sku'', JStr sku), (''unitsSold'', number_json units),
                                   (''costOfGoods'', JStr (amount D cost)), (''revenue'', JStr (amount D revenue)),
                                   (''margin'', JStr (amount D margin)), (''onHand'', number_json (iv_onHand r2))])), w')))))"

definition receiveStock :: "'s factories \<Rightarrow> string \<Rightarrow> receive_input validator \<Rightarrow> 'd decimal_lib
    \<Rightarrow> json option \<Rightarrow> als \<Rightarrow> 'd inventory \<Rightarrow> json option result \<times> 'd inventory" where
  "receiveStock fs level ReceiveInput D = state_action fs level ReceiveInput (with_data (\<lambda>data action s. receive_stock D data))"

definition sellStock :: "'s factories \<Rightarrow> string \<Rightarrow> sell_input validator \<Rightarrow> 'd decimal_lib
    \<Rightarrow> json option \<Rightarrow> als \<Rightarrow> 'd inventory \<Rightarrow> json option result \<times> 'd inventory" where
  "sellStock fs level SellInput D = state_action fs level SellInput (with_data (\<lambda>data action s. sell_stock D data))"

datatype inventory_op = Receive receive_input | Sell sell_input

fun inventory_step :: "'d decimal_lib \<Rightarrow> inventory_op \<Rightarrow> 'd inventory \<Rightarrow> json option result \<times> 'd inventory" where
  "inventory_step D (Receive data) = receive_stock D data"
| "inventory_step D (Sell data) = sell_stock D data"

fun run_inventory :: "'d decimal_lib \<Rightarrow> inventory_op list \<Rightarrow> 'd inventory \<Rightarrow> json option result list \<times> 'd inventory" where
  "run_inventory D [] w = ([], w)"
| "run_inventory D (op # ops) w =
     (let (r, w') = inventory_step D op w; (rs, w'') = run_inventory D ops w' in (r # rs, w''))"

section \<open>What the schemas let through\<close>

text \<open>Whole positive units, plain decimal amounts; \<open>literal_ok\<close> also bounds the decimals by six.\<close>

definition literal_ok :: "string \<Rightarrow> bool" where
  "literal_ok s \<longleftrightarrow> (case decimal_parts s of Some (m, k) \<Rightarrow> 0 \<le> m \<and> k \<le> 6 | None \<Rightarrow> False)"

definition literal_value :: "string \<Rightarrow> rat" where
  "literal_value s = (case decimal_literal s of Some r \<Rightarrow> r | None \<Rightarrow> 0)"

definition whole :: "number \<Rightarrow> int" where
  "whole x = (case x of Fin r \<Rightarrow> \<lfloor>r\<rfloor> | _ \<Rightarrow> 0)"

definition units_ok :: "number \<Rightarrow> bool" where
  "units_ok x \<longleftrightarrow> x = Fin (of_int (whole x)) \<and> 0 < whole x"

fun op_ok :: "inventory_op \<Rightarrow> bool" where
  "op_ok (Receive data) = (units_ok (ri_units data) \<and> literal_ok (ri_unitCost data))"
| "op_ok (Sell data) = (units_ok (si_units data) \<and> literal_ok (si_unitPrice data) \<and>
     literal_value (si_unitPrice data) * of_int (whole (si_units data)) < 10 ^ 12)"

text \<open>What is received of one SKU, in value and in units, and what a run sells of it by its answers.\<close>

fun received :: "string \<Rightarrow> inventory_op \<Rightarrow> rat" where
  "received sku (Receive data) =
     (if ri_sku data = sku then literal_value (ri_unitCost data) * of_int (whole (ri_units data)) else 0)"
| "received sku (Sell _) = 0"

fun received_units :: "string \<Rightarrow> inventory_op \<Rightarrow> int" where
  "received_units sku (Receive data) = (if ri_sku data = sku then whole (ri_units data) else 0)"
| "received_units sku (Sell _) = 0"

definition str_field :: "string \<Rightarrow> json option result \<Rightarrow> rat" where
  "str_field k r = (case r of Inr (Some j) \<Rightarrow> (case jget j k of Some (JStr s) \<Rightarrow> literal_value s | _ \<Rightarrow> 0) | _ \<Rightarrow> 0)"

fun cost_sold :: "string \<Rightarrow> inventory_op \<times> json option result \<Rightarrow> rat" where
  "cost_sold sku (Sell data, r) = (if si_sku data = sku then str_field ''costOfGoods'' r else 0)"
| "cost_sold sku (Receive _, r) = 0"

fun units_sold :: "string \<Rightarrow> inventory_op \<times> json option result \<Rightarrow> int" where
  "units_sold sku (Sell data, Inr _) = (if si_sku data = sku then whole (si_units data) else 0)"
| "units_sold sku _ = 0"

text \<open>The books: the value and the units the records should hold.\<close>

definition stock_is :: "('d \<Rightarrow> rat option) \<Rightarrow> 'd inventory \<Rightarrow> (string \<Rightarrow> rat) \<Rightarrow> (string \<Rightarrow> int) \<Rightarrow> bool" where
  "stock_is v w val un \<longleftrightarrow> (\<forall>sku. case jm_get (in_stock w) sku of
     None \<Rightarrow> val sku = 0 \<and> un sku = 0
   | Some r \<Rightarrow> v (m_amount (iv_value r)) = Some (val sku) \<and> m_currency (iv_value r) = ''USD'' \<and>
       iv_onHand r = Fin (of_int (un sku)) \<and> 0 \<le> val sku \<and> 0 \<le> un sku \<and> (\<exists>i. val sku * 10 ^ 6 = of_int i))"

lemma stock_isD:
  assumes "stock_is v w val un"
  shows "0 \<le> val sku" "0 \<le> un sku"
    "jm_get (in_stock w) sku = None \<Longrightarrow> val sku = 0 \<and> un sku = 0"
    "jm_get (in_stock w) sku = Some r \<Longrightarrow> v (m_amount (iv_value r)) = Some (val sku) \<and> m_currency (iv_value r) = ''USD'' \<and>
       iv_onHand r = Fin (of_int (un sku)) \<and> (\<exists>i. val sku * 10 ^ 6 = of_int i)"
  using assms[unfolded stock_is_def, rule_format, of sku] by (auto split: option.splits)

lemma stock_is_put:
  assumes "stock_is v w val un" "in_stock w' = jm_set sku r (in_stock w)"
    and "v (m_amount (iv_value r)) = Some (val' sku)" "m_currency (iv_value r) = ''USD''"
    "iv_onHand r = Fin (of_int (un' sku))" "0 \<le> val' sku" "0 \<le> un' sku" "val' sku * 10 ^ 6 = of_int i"
    and "\<And>k. k \<noteq> sku \<Longrightarrow> val' k = val k \<and> un' k = un k"
  shows "stock_is v w' val' un'"
  unfolding stock_is_def
proof
  fix k
  show "case jm_get (in_stock w') k of None \<Rightarrow> val' k = 0 \<and> un' k = 0
     | Some r \<Rightarrow> v (m_amount (iv_value r)) = Some (val' k) \<and> m_currency (iv_value r) = ''USD'' \<and>
         iv_onHand r = Fin (of_int (un' k)) \<and> 0 \<le> val' k \<and> 0 \<le> un' k \<and> (\<exists>i. val' k * 10 ^ 6 = of_int i)"
  proof (cases "k = sku")
    case True
    then show ?thesis using assms(2-8) by auto
  next
    case False
    then show ?thesis using assms(1)[unfolded stock_is_def, rule_format, of k] assms(2) assms(9)[OF False]
      by (auto split: option.splits)
  qed
qed

section \<open>One step\<close>

lemma literal_ok_value:
  assumes "literal_ok s"
  shows "decimal_literal s = Some (literal_value s)" "0 \<le> literal_value s" "\<exists>i. literal_value s * 10 ^ 6 = of_int i"
proof -
  obtain m k where mk: "decimal_parts s = Some (m, k)" "0 \<le> m" "k \<le> 6"
    using assms by (auto simp: literal_ok_def split: option.splits)
  then have val: "decimal_literal s = Some (of_int m / 10 ^ k)" by (simp add: decimal_literal_def)
  then show "decimal_literal s = Some (literal_value s)" by (simp add: literal_value_def)
  from val mk show "0 \<le> literal_value s" by (simp add: literal_value_def)
  have "(10 :: rat) ^ 6 = 10 ^ k * 10 ^ (6 - k)" using mk(3) by (simp flip: power_add)
  then have "of_int m / 10 ^ k * 10 ^ 6 = (of_int m / 10 ^ k * (10 ^ k * 10 ^ (6 - k)) :: rat)" by (simp only:)
  also have "\<dots> = of_int (m * 10 ^ (6 - k))" by simp
  finally have "of_int m / 10 ^ k * 10 ^ 6 = (of_int (m * 10 ^ (6 - k)) :: rat)" .
  then show "\<exists>i. literal_value s * 10 ^ 6 = of_int i" unfolding literal_value_def val option.case by (rule exI)
qed

text \<open>Amounts below a million million with six decimals fit the 28 digits, in minor units too.\<close>

lemma micro_fits:
  assumes "a * 10 ^ 6 = (of_int i :: rat)" "\<bar>a\<bar> < 10 ^ 13"
  shows "fits28 a" "fits28 (a * 10 ^ 2)"
proof -
  have "\<bar>of_int i :: rat\<bar> < 10 ^ 19" using assms(2) by (simp flip: assms(1) add: abs_mult)
  then have "(of_int \<bar>i\<bar> :: rat) < of_int (10 ^ 19)" by simp
  then have "\<bar>i\<bar> < 10 ^ 19" by (simp only: of_int_less_iff)
  then have i: "\<bar>i\<bar> < 10 ^ 28" by simp
  have a: "a = of_int i / 10 ^ 6" using assms(1) by (simp add: field_simps)
  show "fits28 a" using i by (intro fits28I[of _ i 6]) (auto simp: a dec_limit_def)
  show "fits28 (a * 10 ^ 2)" using i by (intro fits28I[of _ i 4]) (auto simp: a dec_limit_def)
qed

lemma usd [simp]: "getCurrencyDecimals ''USD'' = 2" "to_upper ''USD'' = ''USD''"
  by code_simp+

lemma arg_value_units: "units_ok x \<Longrightarrow> whole x < 2 ^ 53 \<Longrightarrow> arg_value (NumArg x) = Some (of_int (whole x))"
  unfolding units_ok_def by (cases x) (auto simp: whole_def)

text \<open>Rounding the rest of the pool down puts the sold part within one minor unit of its share.\<close>

lemma split_near_average:
  fixes a :: rat
  assumes "0 \<le> a" "0 < n" "n \<le> T"
  shows "\<bar>of_int (\<lfloor>a * 10 ^ 2\<rfloor> - \<lfloor>a * 10 ^ 2\<rfloor> * (T - n) div T) / 10 ^ 2 - a * of_int n / of_int T\<bar> < 1 / 100"
proof -
  define M where "M = \<lfloor>a * 10 ^ 2\<rfloor>"
  define q where "q = M * (T - n) div T"
  have T: "0 < T" using assms(2,3) by simp
  have "M * (T - n) = T * q + M * (T - n) mod T" by (simp add: q_def)
  then have "(of_int (M * (T - n)) :: rat) = of_int (T * q + M * (T - n) mod T)" by simp
  then have q: "of_int M * of_int n / of_int T - (of_int M - of_int q) = - (of_int (M * (T - n) mod T) / of_int T :: rat)"
    using T by (simp add: field_simps)
  have r: "0 \<le> (of_int (M * (T - n) mod T) / of_int T :: rat)" "of_int (M * (T - n) mod T) / of_int T < (1 :: rat)"
    using T by simp_all
  have fl: "of_int M \<le> a * 100" "a * 100 < of_int M + 1" using floor_correct[of "a * 100"] by (simp_all add: M_def)
  have nT: "0 < (of_int n / of_int T :: rat)" "of_int n / of_int T \<le> (1 :: rat)" using assms(2,3) T by simp_all
  have "(a * 100 - of_int M) * (of_int n / of_int T) < 1 * 1 \<or> (a * 100 - of_int M) * (of_int n / of_int T) \<le> (a * 100 - of_int M) * 1"
    using fl(1) nT by (intro disjI2 mult_left_mono) auto
  then have u: "(a * 100 - of_int M) * (of_int n / of_int T) < 1" using fl(2) by auto
  have l: "0 \<le> (a * 100 - of_int M) * (of_int n / of_int T)" using fl(1) nT by (intro mult_nonneg_nonneg) auto
  have "(of_int M - of_int q) - a * 100 * (of_int n / of_int T)
      = of_int (M * (T - n) mod T) / of_int T - (a * 100 - of_int M) * (of_int n / of_int T)"
    using q by (simp add: algebra_simps)
  then have "\<bar>(of_int M - of_int q) - a * 100 * (of_int n / of_int T)\<bar> < (1 :: rat)"
    using r u l by linarith
  moreover have "of_int (M - q) / 100 - a * of_int n / of_int T = ((of_int M - of_int q) - a * 100 * (of_int n / of_int T)) / (100 :: rat)"
    by (simp add: diff_divide_distrib)
  ultimately have "\<bar>of_int (M - q) / 100 - a * of_int n / of_int T\<bar> < (1 / 100 :: rat)"
    by (simp only: abs_divide) (simp add: divide_strict_right_mono)
  then show ?thesis by (simp add: M_def q_def)
qed

context decimal_arith
begin

text \<open>\<open>money(price, 'USD').multiply(units)\<close>.\<close>

lemma priced:
  assumes "literal_ok s" "units_ok n" "whole n < 2 ^ 53" "literal_value s * of_int (whole n) < 10 ^ 13"
  shows "\<exists>m i. and_then (money D (StrArg s) ''USD'') (\<lambda>c. money_multiply D c (NumArg n)) = Inr m \<and>
    v (m_amount m) = Some (literal_value s * of_int (whole n)) \<and> m_currency m = ''USD'' \<and>
    0 \<le> literal_value s * of_int (whole n) \<and> literal_value s * of_int (whole n) * 10 ^ 6 = of_int i"
proof -
  note lit = literal_ok_value[OF assms(1)]
  obtain c where c: "money D (StrArg s) ''USD'' = Inr c" "v (m_amount c) = Some (literal_value s)" "m_currency c = ''USD''"
    using money_of_arg[of "StrArg s" "literal_value s" "''USD''"] lit(1) by auto
  obtain i where "literal_value s * 10 ^ 6 = of_int i" using lit(3) by blast
  then have "literal_value s * of_int (whole n) * 10 ^ 6 = of_int (i * whole n)" by (simp add: algebra_simps)
  then obtain k where i': "literal_value s * of_int (whole n) * 10 ^ 6 = of_int k" by blast
  have nn: "0 \<le> literal_value s * of_int (whole n)" using lit(2) assms(2) by (simp add: units_ok_def)
  have "fits28 (literal_value s * of_int (whole n))"
    using micro_fits(1)[OF i'] nn assms(4) by simp
  from money_multiply_exact[OF c(2) arg_value_units[OF assms(2,3)] this] c i' nn show ?thesis by auto
qed

lemma receive_stock_accepted:
  assumes "and_then (money D (StrArg (ri_unitCost data)) ''USD'') (\<lambda>c. money_multiply D c (NumArg (ri_units data))) = Inr added"
    and "(case jm_get (in_stock w) (ri_sku data) of
        Some existing \<Rightarrow> and_then (money_add D (iv_value existing) added)
          (\<lambda>v. Inr (existing\<lparr>iv_onHand := js_add (iv_onHand existing) (ri_units data), iv_value := v\<rparr>))
      | None \<Rightarrow> Inr \<lparr>iv_sku = ri_sku data, iv_name = ri_name data, iv_onHand = ri_units data, iv_value = added,
                    iv_reorderPoint = ri_reorderPoint data\<rparr>) = Inr next"
  shows "\<exists>j w'. receive_stock D data w = (Inr j, w') \<and> in_stock w' = jm_set (ri_sku data) next (in_stock w)"
  using assms by (simp add: receive_stock_def inventory_emit_def Let_def)

lemma receive_books:
  assumes st: "stock_is v w val un" and ok: "op_ok (Receive data)"
    and b: "val (ri_sku data) + received (ri_sku data) (Receive data) < 10 ^ 12"
      "un (ri_sku data) + received_units (ri_sku data) (Receive data) < 10 ^ 9"
  shows "\<exists>j w'. receive_stock D data w = (Inr j, w') \<and>
    stock_is v w' (\<lambda>sku. val sku + received sku (Receive data)) (\<lambda>sku. un sku + received_units sku (Receive data))"
proof -
  let ?sku = "ri_sku data" and ?n = "whole (ri_units data)" and ?x = "literal_value (ri_unitCost data) * of_int (whole (ri_units data))"
  note vu = stock_isD(1,2)[OF st, of ?sku]
  have n: "0 < ?n" "?n < 2 ^ 53" "un ?sku + ?n < 2 ^ 53" "ri_units data = Fin (of_int ?n)"
    using ok b(2) vu(2) by (auto simp: units_ok_def)
  obtain added i where added: "and_then (money D (StrArg (ri_unitCost data)) ''USD'')
        (\<lambda>c. money_multiply D c (NumArg (ri_units data))) = Inr added"
      "v (m_amount added) = Some ?x" "m_currency added = ''USD''" "0 \<le> ?x" "?x * 10 ^ 6 = of_int i"
    using priced[of "ri_unitCost data" "ri_units data"] ok n(2) b(1) vu(1) by auto
  show ?thesis
  proof (cases "jm_get (in_stock w) ?sku")
    case None
    note zero = stock_isD(3)[OF st None]
    obtain j w' where "receive_stock D data w = (Inr j, w')" "in_stock w' = jm_set ?sku \<lparr>iv_sku = ?sku, iv_name = ri_name data,
        iv_onHand = ri_units data, iv_value = added, iv_reorderPoint = ri_reorderPoint data\<rparr> (in_stock w)"
      using receive_stock_accepted[OF added(1), of w] None by auto
    moreover from this(2) have "stock_is v w' (\<lambda>sku. val sku + received sku (Receive data)) (\<lambda>sku. un sku + received_units sku (Receive data))"
      by (rule stock_is_put[OF st, where i = i]) (use zero added n in simp_all)
    ultimately show ?thesis by blast
  next
    case (Some r)
    with stock_isD(4)[OF st this] obtain j where r: "v (m_amount (iv_value r)) = Some (val ?sku)"
        "m_currency (iv_value r) = ''USD''" "iv_onHand r = Fin (of_int (un ?sku))" "val ?sku * 10 ^ 6 = of_int j" by blast
    have micro: "(val ?sku + ?x) * 10 ^ 6 = of_int (j + i)" using r(4) added(5) by (simp add: algebra_simps)
    have "fits28 (val ?sku + ?x)" using micro_fits(1)[OF micro] vu(1) added(4) b(1) by simp
    from money_add_exact[OF r(1) added(2) this] obtain s where s: "money_add D (iv_value r) added = Inr s"
        "v (m_amount s) = Some (val ?sku + ?x)" "m_currency s = ''USD''"
      using r(2) added(3) by auto
    have "\<bar>un ?sku + ?n\<bar> < 2 ^ 53" using n(1,3) vu by simp
    then have "js_add (Fin (of_int (un ?sku))) (Fin (of_int ?n)) = Fin (of_int (un ?sku + ?n))"
      using to_double_of_int[of "un ?sku + ?n"] by simp
    then have "js_add (iv_onHand r) (ri_units data) = Fin (of_int (un ?sku + ?n))" using n(4) r(3) by metis
    then obtain j' w' where "receive_stock D data w = (Inr j', w')" "in_stock w' = jm_set ?sku
        (r\<lparr>iv_onHand := Fin (of_int (un ?sku + ?n)), iv_value := s\<rparr>) (in_stock w)"
      using receive_stock_accepted[OF added(1), of w] Some s(1) by auto
    moreover from this(2) have "stock_is v w' (\<lambda>sku. val sku + received sku (Receive data)) (\<lambda>sku. un sku + received_units sku (Receive data))"
      by (rule stock_is_put[OF st, where i = "j + i"]) (use micro s vu added(4) n(1) in simp_all)
    ultimately show ?thesis by blast
  qed
qed

text \<open>The pool's split: the cost is \<open>M * n / T\<close> minor units rounded up, for a pool of \<open>M\<close> whole minor
  units and \<open>T\<close> units of stock.\<close>

lemma split_cost_val:
  assumes "v (m_amount (iv_value r)) = Some a" "m_currency (iv_value r) = ''USD''" "iv_onHand r = Fin (of_int T)"
    and "0 \<le> a" "a < 10 ^ 12" "a * 10 ^ 6 = of_int i" "0 < n" "n \<le> T" "T < 10 ^ 9"
  defines "M \<equiv> \<lfloor>a * 10 ^ 2\<rfloor>"
  defines "c \<equiv> M - M * (T - n) div T"
  shows "\<exists>m. split_cost D r (Fin (of_int n)) = Inr m \<and> v (m_amount m) = Some (of_int c / 10 ^ 2) \<and> m_currency m = ''USD''"
    "0 \<le> c" "c \<le> M" "0 \<le> M" "of_int M \<le> a * 10 ^ 2" "M < 10 ^ 14"
proof -
  show M: "0 \<le> M" "of_int M \<le> a * 10 ^ 2" using assms(4) by (simp_all add: M_def)
  have "a * 10 ^ 2 < 10 ^ 14" using assms(5) by simp
  then have "(of_int M :: rat) < of_int (10 ^ 14)" using M(2) by simp
  then show M14: "M < 10 ^ 14" by (simp only: of_int_less_iff)
  have T: "0 < T" "T < 2 ^ 53" using assms(7-9) by simp_all
  have "M * (T - n) div T \<le> M * T div T" using M(1) assms(7) T(1) by (intro zdiv_mono1 mult_left_mono) auto
  then show "0 \<le> c" using T(1) by (simp add: c_def)
  show "c \<le> M" using M(1) assms(8) T(1) by (simp add: c_def pos_imp_zdiv_nonneg_iff)
  have "M * T \<le> 10 ^ 14 * 10 ^ 9" using M(1) M14 T(1) assms(9) by (intro mult_mono) auto
  then have "M * T < 10 ^ 27" by simp
  then have bounds: "alloc_bounds M [n, T - n]"
    using assms(7,8) T M(1) by (simp add: alloc_bounds_def)
  have spec: "alloc_spec M [n, T - n] = [c, M * (T - n) div T]"
    by (simp add: alloc_spec_def Let_def c_def)
  have fit: "fits28 (a * 10 ^ 2)" using micro_fits(2)[OF assms(6)] assms(4,5) by simp
  have sub: "js_sub (Fin (of_int T)) (Fin (of_int n)) = Fin (of_int (T - n))"
    using to_double_of_int[of "T - n"] assms(7,8) T by (simp add: js_sub_def)
  have "\<exists>ms. allocate D (iv_value r) (map (\<lambda>r. Fin (of_int r)) [n, T - n]) = Inr ms \<and>
      list_all2 (\<lambda>m' x. v (m_amount m') = Some (of_int x / 10 ^ 2) \<and> m_currency m' = ''USD'') ms (alloc_spec M [n, T - n])"
    using allocate_refines[OF assms(1), of "[n, T - n]", unfolded assms(2) usd, OF fit, folded M_def, OF bounds] by simp
  then show "\<exists>m. split_cost D r (Fin (of_int n)) = Inr m \<and> v (m_amount m) = Some (of_int c / 10 ^ 2) \<and> m_currency m = ''USD''"
    unfolding spec split_cost_def assms(3) sub by (auto simp: list_all2_Cons2)
qed

lemma sell_stock_accepted:
  assumes "jm_get (in_stock w) (si_sku data) = Some r" "\<not> js_less (iv_onHand r) (si_units data)"
    and "split_cost D r (si_units data) = Inr cost"
    and "and_then (money D (StrArg (si_unitPrice data)) ''USD'') (\<lambda>p. money_multiply D p (NumArg (si_units data))) = Inr revenue"
    and "money_subtract D revenue cost = Inr margin" "money_subtract D (iv_value r) cost = Inr val"
  shows "\<exists>j w'. sell_stock D data w = (Inr (Some j), w') \<and> jget j ''costOfGoods'' = Some (JStr (amount D cost)) \<and>
    in_stock w' = jm_set (si_sku data) (r\<lparr>iv_onHand := js_sub (iv_onHand r) (si_units data), iv_value := val\<rparr>) (in_stock w)"
  using assms by (simp add: sell_stock_def requireRecord_def inventory_emit_def Let_def)

text \<open>A sale succeeds exactly when the stock suffices; it moves its cost, within one cent of the
  weighted average, out of the pool.\<close>

lemma sell_books:
  assumes st: "stock_is v w val un" and ok: "op_ok (Sell data)"
    and b: "val (si_sku data) < 10 ^ 12" "un (si_sku data) < 10 ^ 9"
  shows "\<exists>r w'. sell_stock D data w = (r, w') \<and>
    stock_is v w' (\<lambda>k. val k - cost_sold k (Sell data, r)) (\<lambda>k. un k - units_sold k (Sell data, r)) \<and>
    0 \<le> cost_sold (si_sku data) (Sell data, r) \<and> ((\<exists>j. r = Inr j) \<longleftrightarrow> whole (si_units data) \<le> un (si_sku data)) \<and>
    (whole (si_units data) \<le> un (si_sku data) \<longrightarrow>
       \<bar>cost_sold (si_sku data) (Sell data, r) - val (si_sku data) * of_int (whole (si_units data)) / of_int (un (si_sku data))\<bar> < 1 / 100)"
proof -
  let ?sku = "si_sku data" and ?n = "whole (si_units data)"
  note vu = stock_isD(1,2)[OF st, of ?sku]
  have n: "0 < ?n" "si_units data = Fin (of_int ?n)" using ok by (auto simp: units_ok_def)
  have failed: ?thesis if "sell_stock D data w = (Inl e, w)" "un ?sku < ?n" for e
  proof -
    have "(\<lambda>k. val k - cost_sold k (Sell data, Inl e)) = val" "(\<lambda>k. un k - units_sold k (Sell data, Inl e)) = un"
      by (simp_all add: str_field_def fun_eq_iff)
    with that st show ?thesis by (simp add: str_field_def)
  qed
  show ?thesis
  proof (cases "jm_get (in_stock w) ?sku")
    case None
    with stock_isD(3)[OF st None] n(1) show ?thesis
      by (intro failed) (auto simp: sell_stock_def requireRecord_def Let_def)
  next
    case (Some r)
    with stock_isD(4)[OF st this] obtain i where r: "v (m_amount (iv_value r)) = Some (val ?sku)"
        "m_currency (iv_value r) = ''USD''" "iv_onHand r = Fin (of_int (un ?sku))" "val ?sku * 10 ^ 6 = of_int i" by blast
    have less: "js_less (iv_onHand r) (si_units data) \<longleftrightarrow> un ?sku < ?n"
      using n(2) r(3) by (metis js_less.simps(1) of_int_less_iff)
    show ?thesis
    proof (cases "un ?sku < ?n")
      case True
      with Some less show ?thesis
        by (intro failed) (auto simp: sell_stock_def requireRecord_def Let_def)
    next
      case False
      then have le: "?n \<le> un ?sku" by simp
      define M where "M = \<lfloor>val ?sku * 10 ^ 2\<rfloor>"
      define c where "c = M - M * (un ?sku - ?n) div un ?sku"
      note split = split_cost_val[OF r(1-3) vu(1) b(1) r(4) n(1) le b(2), folded M_def, folded c_def]
      then obtain cost where cost: "split_cost D r (si_units data) = Inr cost" "v (m_amount cost) = Some (of_int c / 10 ^ 2)"
          "m_currency cost = ''USD''"
        using n(2) by metis
      have cM: "0 \<le> c" "c \<le> M" "of_int M \<le> val ?sku * 10 ^ 2" "M < 10 ^ 14" using split by auto
      have cval: "of_int c / 10 ^ 2 \<le> val ?sku" using cM(2,3) by (simp add: field_simps)
      define cv where "cv = (of_int c / 10 ^ 2 :: rat)"
      define x where "x = literal_value (si_unitPrice data) * of_int ?n"
      obtain revenue k where revenue: "and_then (money D (StrArg (si_unitPrice data)) ''USD'')
            (\<lambda>p. money_multiply D p (NumArg (si_units data))) = Inr revenue"
          "v (m_amount revenue) = Some x" "m_currency revenue = ''USD''" "0 \<le> x" "x * 10 ^ 6 = of_int k"
        using priced[of "si_unitPrice data" "si_units data"] ok le b(2) by (auto simp: x_def)
      have x: "x < 10 ^ 12" using ok by (simp add: x_def)
      have cv: "cv * 10 ^ 6 = of_int (c * 10 ^ 4)" "0 \<le> cv" "cv \<le> val ?sku"
        using cM(1) cval by (simp_all add: cv_def)
      have m1: "(x - cv) * 10 ^ 6 = of_int (k - c * 10 ^ 4)" and m2: "(val ?sku - cv) * 10 ^ 6 = of_int (i - c * 10 ^ 4)"
        using cv(1) revenue(5) r(4) by (simp_all add: algebra_simps)
      have "fits28 (x - cv)" using micro_fits(1)[OF m1] cv(2,3) b(1) x revenue(4) by simp
      from money_subtract_exact[OF revenue(2) cost(2)[folded cv_def] this] obtain margin
        where margin: "money_subtract D revenue cost = Inr margin" using revenue(3) cost(3) by auto
      have "fits28 (val ?sku - cv)" using micro_fits(1)[OF m2] cv(2,3) b(1) by simp
      from money_subtract_exact[OF r(1) cost(2)[folded cv_def] this] obtain s where s: "money_subtract D (iv_value r) cost = Inr s"
          "v (m_amount s) = Some (val ?sku - cv)" "m_currency s = ''USD''"
        using r(2) cost(3) by auto
      have "\<bar>un ?sku - ?n\<bar> < 2 ^ 53" using le n(1) b(2) by simp
      then have "js_sub (Fin (of_int (un ?sku))) (Fin (of_int ?n)) = Fin (of_int (un ?sku - ?n))"
        using to_double_of_int[of "un ?sku - ?n"] by (simp add: js_sub_def)
      then have onHand: "js_sub (iv_onHand r) (si_units data) = Fin (of_int (un ?sku - ?n))" using n(2) r(3) by metis
      obtain j w' where sold: "sell_stock D data w = (Inr (Some j), w')" "jget j ''costOfGoods'' = Some (JStr (amount D cost))"
          "in_stock w' = jm_set ?sku (r\<lparr>iv_onHand := Fin (of_int (un ?sku - ?n)), iv_value := s\<rparr>) (in_stock w)"
        using sell_stock_accepted[OF Some _ cost(1) revenue(1) margin s(1)] less False onHand by auto
      have "amount D cost = fixed_str c 2"
        using amount_rounded[OF cost(2)] cost(3) by simp
      then have field: "str_field ''costOfGoods'' (Inr (Some j)) = cv"
        by (simp add: str_field_def sold(2) literal_value_def decimal_literal_fixed_str cv_def)
      have books: "stock_is v w' (\<lambda>k. val k - cost_sold k (Sell data, Inr (Some j))) (\<lambda>k. un k - units_sold k (Sell data, Inr (Some j)))"
        by (rule stock_is_put[OF st sold(3), where i = "i - c * 10 ^ 4"])
          (use s cv m2 le in \<open>simp_all add: field\<close>)
      have avg: "\<bar>cv - val ?sku * of_int ?n / of_int (un ?sku)\<bar> < 1 / 100"
        unfolding cv_def c_def M_def using vu(1) n(1) le by (rule split_near_average)
      show ?thesis
        using sold(1) books field cv(2) le avg by auto
    qed
  qed
qed

lemma step_books:
  assumes "stock_is v w val un" "op_ok op"
    and "\<And>k. val k + received k op < 10 ^ 12" "\<And>k. un k + received_units k op < 10 ^ 9"
  shows "\<exists>r w'. inventory_step D op w = (r, w') \<and>
    stock_is v w' (\<lambda>k. val k + received k op - cost_sold k (op, r)) (\<lambda>k. un k + received_units k op - units_sold k (op, r)) \<and>
    (\<forall>k. 0 \<le> cost_sold k (op, r) \<and> 0 \<le> units_sold k (op, r))"
proof (cases op)
  case (Receive data)
  with receive_books[OF assms(1), of data] assms(2) assms(3)[of "ri_sku data"] assms(4)[of "ri_sku data"]
  obtain j w' where "receive_stock D data w = (Inr j, w')"
      "stock_is v w' (\<lambda>sku. val sku + received sku (Receive data)) (\<lambda>sku. un sku + received_units sku (Receive data))" by blast
  then show ?thesis unfolding Receive by (intro exI[of _ "Inr j"] exI[of _ w']) simp
next
  case (Sell data)
  with sell_books[OF assms(1), of data] assms(2) assms(3)[of "si_sku data"] assms(4)[of "si_sku data"]
  obtain r w' where r: "sell_stock D data w = (r, w')"
      "stock_is v w' (\<lambda>k. val k - cost_sold k (Sell data, r)) (\<lambda>k. un k - units_sold k (Sell data, r))"
      "0 \<le> cost_sold (si_sku data) (Sell data, r)"
    by auto
  have "0 \<le> cost_sold k (Sell data, r)" "0 \<le> units_sold k (Sell data, r)" for k
    using r(3) assms(2) Sell by (cases r; auto simp: units_ok_def)+
  with r show ?thesis unfolding Sell by (intro exI[of _ r] exI[of _ w']) simp
qed

lemma run_books:
  assumes "stock_is v w val un" "list_all op_ok ops"
    and "\<And>k. val k + (\<Sum>op\<leftarrow>ops. received k op) < 10 ^ 12" "\<And>k. un k + (\<Sum>op\<leftarrow>ops. received_units k op) < 10 ^ 9"
    and "run_inventory D ops w = (rs, w')"
  shows "length rs = length ops \<and>
    stock_is v w' (\<lambda>k. val k + (\<Sum>op\<leftarrow>ops. received k op) - (\<Sum>x\<leftarrow>zip ops rs. cost_sold k x))
      (\<lambda>k. un k + (\<Sum>op\<leftarrow>ops. received_units k op) - (\<Sum>x\<leftarrow>zip ops rs. units_sold k x))"
  using assms
proof (induction ops arbitrary: w val un rs)
  case (Cons op ops)
  have ok: "op_ok op" "list_all op_ok ops" using Cons.prems(2) by simp_all
  have pos: "0 \<le> received k op \<and> 0 \<le> received_units k op" if "op_ok op" for k op
    using that literal_ok_value(2) by (cases op) (auto simp: units_ok_def)
  have sums: "0 \<le> (\<Sum>op\<leftarrow>ops. received k op)" "0 \<le> (\<Sum>op\<leftarrow>ops. received_units k op)" for k
    using ok(2) pos by (auto intro!: sum_list_nonneg simp: list_all_iff)
  have "val k + received k op < 10 ^ 12" "un k + received_units k op < 10 ^ 9" for k
    using Cons.prems(3,4)[of k] sums[of k] by simp_all
  from step_books[OF Cons.prems(1) ok(1) this] obtain r w1 where step: "inventory_step D op w = (r, w1)"
      "stock_is v w1 (\<lambda>k. val k + received k op - cost_sold k (op, r)) (\<lambda>k. un k + received_units k op - units_sold k (op, r))"
      "\<And>k. 0 \<le> cost_sold k (op, r) \<and> 0 \<le> units_sold k (op, r)" by blast
  obtain rs1 where rs1: "run_inventory D ops w1 = (rs1, w')" "rs = r # rs1"
    using Cons.prems(5) step(1) by (cases "run_inventory D ops w1") auto
  have "val k + received k op - cost_sold k (op, r) + (\<Sum>op\<leftarrow>ops. received k op) < 10 ^ 12"
    "un k + received_units k op - units_sold k (op, r) + (\<Sum>op\<leftarrow>ops. received_units k op) < 10 ^ 9" for k
    using Cons.prems(3,4)[of k] step(3)[of k] by simp_all
  from Cons.IH[OF step(2) ok(2) this rs1(1)] show ?case
    by (simp add: rs1(2) algebra_simps)
qed simp

end

text \<open>A validated action is one step.\<close>

lemma actions_step:
  "ReceiveInput body = Inr data \<Longrightarrow>
     receiveStock (register_db []) level ReceiveInput D body (Some st) w = inventory_step D (Receive data) w"
  "SellInput body = Inr sdata \<Longrightarrow>
     sellStock (register_db []) level SellInput D body (Some st) w = inventory_step D (Sell sdata) w"
  by (simp_all add: receiveStock_def sellStock_def state_action_accepted register_db_def registerContextService_def jm_wf_def jm_keys_def)

section \<open>Properties\<close>

definition empty_inventory :: "'d inventory" where
  "empty_inventory = \<lparr>in_stock = [], in_events = []\<rparr>"


text \<open>Records are never removed.\<close>

lemma record_stays:
  "jm_get (in_stock w) k \<noteq> None \<Longrightarrow> jm_get (in_stock (snd (inventory_step D op w))) k \<noteq> None"
  by (cases op) (auto simp: receive_stock_def sell_stock_def requireRecord_def inventory_emit_def Let_def
      split: sum.splits option.splits)


end
