(* ===== verification/Tax.thy ===== *)
theory Tax
  imports Money Printing
begin

text \<open>
  Cart totals (packages/finance/src/tax/calculator.ts): the regional rate tables in basis points,
  the rate resolution with the EU reverse charge, and \<open>calculateTotal\<close>. The asynchronous function
  awaits nothing, so its promise is a result value.
\<close>

section \<open>Rates\<close>

record tax_destination =
  td_country :: string
  td_state :: "string option"
  td_vatId :: "string option"

definition EU_VAT_BP :: "(string, int) jsmap" where
  "EU_VAT_BP =
     [(''AT'', 2000), (''BE'', 2100), (''BG'', 2000), (''HR'', 2500), (''CY'', 1900), (''CZ'', 2100),
      (''DK'', 2500), (''EE'', 2000), (''FI'', 2400), (''FR'', 2000), (''DE'', 1900), (''GR'', 2400),
      (''HU'', 2700), (''IE'', 2300), (''IT'', 2200), (''LV'', 2100), (''LT'', 2100), (''LU'', 1700),
      (''MT'', 1800), (''NL'', 2100), (''PL'', 2300), (''PT'', 2300), (''RO'', 1900), (''SK'', 2000),
      (''SI'', 2200), (''ES'', 2100), (''SE'', 2500)]"

definition OTHER_RATES_BP :: "(string, int) jsmap" where
  "OTHER_RATES_BP =
     [(''GB'', 2000), (''ZA'', 1500), (''AU'', 1000), (''NZ'', 1500), (''SG'', 900), (''CA'', 500)]"

definition EU_MEMBERS :: "string list" where "EU_MEMBERS = jm_keys EU_VAT_BP"

definition resolveRateBP :: "tax_destination \<Rightarrow> int" where
  "resolveRateBP dest =
     (let upper = to_upper (td_country dest)
      in if truthy (td_vatId dest) \<and> upper \<in> set EU_MEMBERS then 0
         else case jm_get EU_VAT_BP upper of Some bp \<Rightarrow> bp
              | None \<Rightarrow> (case jm_get OTHER_RATES_BP upper of Some bp \<Rightarrow> bp | None \<Rightarrow> 0))"

section \<open>Totals\<close>

record 'd line_item =
  li_price :: "'d money"
  li_quantity :: number

record 'd total_input =
  ti_items :: "'d line_item list"
  ti_taxRate :: "number option"
  ti_destination :: "tax_destination option"

record 'd total_result =
  tr_subtotal :: "'d money"
  tr_taxTotal :: "'d money"
  tr_grandTotal :: "'d money"
  tr_currency :: string
  tr_taxRate :: number

text \<open>The rate in basis points: the explicit rate first, then the destination's, then zero.\<close>

definition taxRateBP :: "'d total_input \<Rightarrow> number" where
  "taxRateBP inp =
     (case ti_taxRate inp of Some r \<Rightarrow> js_round (js_mul r (Fin 10000))
      | None \<Rightarrow> (case ti_destination inp of Some dest \<Rightarrow> Fin (of_int (resolveRateBP dest)) | None \<Rightarrow> Fin 0))"

definition add_item :: "'d decimal_lib \<Rightarrow> 'd money \<Rightarrow> 'd line_item \<Rightarrow> 'd money result" where
  "add_item D acc item =
     and_then (money_multiply D (li_price item) (NumArg (li_quantity item))) (money_add D acc)"

definition calculateTotal :: "'d decimal_lib \<Rightarrow> 'd total_input \<Rightarrow> 'd total_result result" where
  "calculateTotal D inp =
     (case ti_items inp of
        [] \<Rightarrow> Inl (Err (plain_error ''Error'' ''finance.calculateTotal: items array is empty''))
      | item # _ \<Rightarrow>
          let currency = m_currency (li_price item)
          in and_then (money D (StrArg ''0'') currency) (\<lambda>zero.
             and_then (foldl_result (add_item D) zero (ti_items inp)) (\<lambda>subtotal.
             let taxRate = js_div_by (taxRateBP inp) 10000
             in and_then (money_multiply D subtotal (NumArg taxRate)) (\<lambda>taxTotal.
                and_then (money_add D subtotal taxTotal) (\<lambda>grandTotal.
                Inr \<lparr>tr_subtotal = subtotal, tr_taxTotal = taxTotal, tr_grandTotal = grandTotal,
                     tr_currency = currency, tr_taxRate = taxRate\<rparr>)))))"

section \<open>The rate tables\<close>

lemma table_rates:
  "resolveRateBP dest \<in> {0, 500, 900, 1000, 1500, 1700, 1800, 1900, 2000, 2100, 2200, 2300, 2400, 2500, 2700}"
proof -
  let ?R = "{0, 500, 900, 1000, 1500, 1700, 1800, 1900, 2000, 2100, 2200, 2300, 2400, 2500, 2700 :: int}"
  have "jm_get EU_VAT_BP k = Some bp \<Longrightarrow> bp \<in> ?R" "jm_get OTHER_RATES_BP k = Some bp \<Longrightarrow> bp \<in> ?R" for k bp
    by (auto simp: EU_VAT_BP_def OTHER_RATES_BP_def split: if_splits)
  then show ?thesis by (auto simp: resolveRateBP_def Let_def split: option.splits)
qed

text \<open>A rate of whole basis points below one prints as the exact decimal fraction.\<close>

lemma rate_prints:
  assumes "0 \<le> bp" "bp < 10000"
  shows "decimal_literal (number_to_string (js_div_by (Fin (of_int bp)) 10000)) = Some (of_int bp / 10000)"
proof (cases "bp = 0")
  case True
  then show ?thesis using number_to_string_of_int[of 0] decimal_literal_int[of 0] by (simp add: to_double_def)
next
  case False
  then show ?thesis using number_to_string_fraction[of bp 4] assms by simp
qed

lemma resolveRateBP_bounds: "0 \<le> resolveRateBP dest" "resolveRateBP dest < 10000"
  using table_rates[of dest] by auto

lemma resolveRateBP_zero:
  "truthy (td_vatId d) \<and> to_upper (td_country d) \<in> set EU_MEMBERS \<or>
   to_upper (td_country d) \<notin> set (jm_keys EU_VAT_BP @ jm_keys OTHER_RATES_BP) \<Longrightarrow> resolveRateBP d = 0"
  by (auto simp: resolveRateBP_def Let_def jm_get_None_iff[symmetric] simp del: One_nat_def)

section \<open>Correctness under the decimal contract\<close>

lemma money_currency: "money D a c = Inr m \<Longrightarrow> m_currency m = to_upper c"
  by (auto simp: money_def and_then_Inr_iff split: sum.splits)

lemma money_multiply_currency: "money_multiply D m f = Inr m' \<Longrightarrow> m_currency m' = to_upper (m_currency m)"
  by (auto simp: money_multiply_def and_then_Inr_iff money_currency split: sum.splits)

lemma money_add_currency:
  "money_add D m n = Inr s \<Longrightarrow> m_currency n = m_currency m \<and> m_currency s = to_upper (m_currency m)"
  by (auto simp: money_add_def and_then_Inr_iff assertSameCurrency_def money_currency split: sum.splits if_splits)

lemma add_item_currency:
  assumes "add_item D acc i = Inr acc'"
  shows "to_upper (m_currency (li_price i)) = m_currency acc" "m_currency acc' = to_upper (m_currency acc)"
proof -
  obtain p where "money_multiply D (li_price i) (NumArg (li_quantity i)) = Inr p" "money_add D acc p = Inr acc'"
    using assms unfolding add_item_def and_then_Inr_iff by blast
  then show "to_upper (m_currency (li_price i)) = m_currency acc" "m_currency acc' = to_upper (m_currency acc)"
    using money_multiply_currency money_add_currency by metis+
qed

lemma fold_items_currency:
  "foldl_result (add_item D) acc items = Inr s \<Longrightarrow> m_currency acc = to_upper c \<Longrightarrow>
   \<forall>i \<in> set items. to_upper (m_currency (li_price i)) = to_upper c"
proof (induction items arbitrary: acc)
  case (Cons i items)
  then obtain acc' where a: "add_item D acc i = Inr acc'" "foldl_result (add_item D) acc' items = Inr s"
    by (auto simp: and_then_Inr_iff)
  from Cons.IH[OF a(2)] add_item_currency[OF a(1)] Cons.prems(2) show ?case by simp
qed simp

text \<open>The items' line totals: prices of the cart's currency, whole quantities, and products and
  running sums within the 28 digits.\<close>

definition cart_lines :: "('d \<Rightarrow> rat option) \<Rightarrow> string \<Rightarrow> 'd line_item list \<Rightarrow> rat list \<Rightarrow> bool" where
  "cart_lines v c items ts \<longleftrightarrow>
     list_all2 (\<lambda>i t. m_currency (li_price i) = c \<and> (\<exists>a q. v (m_amount (li_price i)) = Some a \<and>
        li_quantity i = Fin (of_int q) \<and> \<bar>q\<bar> < 2 ^ 53 \<and> t = a * of_int q \<and> fits28 t)) items ts"

context decimal_arith
begin

lemma add_item_exact:
  assumes "v (m_amount acc) = Some s" "m_currency acc = c" "to_upper c = c"
    and "m_currency (li_price i) = c" "v (m_amount (li_price i)) = Some a"
    and "li_quantity i = Fin (of_int q)" "\<bar>q\<bar> < 2 ^ 53" "fits28 (a * of_int q)" "fits28 (s + a * of_int q)"
  shows "\<exists>acc'. add_item D acc i = Inr acc' \<and> v (m_amount acc') = Some (s + a * of_int q) \<and> m_currency acc' = c"
proof -
  obtain p where p: "money_multiply D (li_price i) (NumArg (li_quantity i)) = Inr p"
      "v (m_amount p) = Some (a * of_int q)" "m_currency p = to_upper c"
    using money_multiply_exact[OF assms(5), of "NumArg (li_quantity i)" "of_int q"] assms(4,6-8)
    by auto
  then show ?thesis
    using money_add_exact[OF assms(1) p(2) assms(9)] assms(2,3) by (auto simp: add_item_def)
qed

lemma fold_items_exact:
  "cart_lines v c items ts \<Longrightarrow> to_upper c = c \<Longrightarrow> \<forall>n. fits28 (s + sum_list (take n ts)) \<Longrightarrow>
   v (m_amount acc) = Some s \<Longrightarrow> m_currency acc = c \<Longrightarrow>
   \<exists>tot. foldl_result (add_item D) acc items = Inr tot \<and> v (m_amount tot) = Some (s + sum_list ts) \<and> m_currency tot = c"
proof (induction items arbitrary: ts acc s)
  case (Cons i items)
  then obtain t ts' a q where ts: "ts = t # ts'" "cart_lines v c items ts'" "m_currency (li_price i) = c"
      "v (m_amount (li_price i)) = Some a" "li_quantity i = Fin (of_int q)" "\<bar>q\<bar> < 2 ^ 53"
      "t = a * of_int q" "fits28 (a * of_int q)"
    unfolding cart_lines_def list_all2_Cons1 by blast
  have "fits28 (s + a * of_int q)" using Cons.prems(3)[rule_format, of 1] ts(1,7) by simp
  then obtain acc' where acc': "add_item D acc i = Inr acc'" "v (m_amount acc') = Some (s + t)" "m_currency acc' = c"
    using add_item_exact[OF Cons.prems(4,5,2) ts(3-6,8)] ts(7) by auto
  have "\<forall>n. fits28 (s + t + sum_list (take n ts'))"
    using Cons.prems(3)[rule_format, of "Suc _"] ts(1) by (simp add: add.assoc)
  from Cons.IH[OF ts(2) Cons.prems(2) this acc'(2,3)] show ?case using acc'(1) ts(1) by (simp add: add.assoc)
qed (simp add: cart_lines_def)

lemma calculateTotal_value:
  assumes "ti_items inp \<noteq> []" and "to_upper c = c"
    and "cart_lines v c (ti_items inp) ts" and "\<forall>n. fits28 (sum_list (take n ts))"
    and "taxRateBP inp = Fin (of_int bp)" and "0 \<le> bp" and "bp < 10000"
    and "fits28 (sum_list ts * (of_int bp / 10000))"
    and "fits28 (sum_list ts + sum_list ts * (of_int bp / 10000))"
  shows "\<exists>r. calculateTotal D inp = Inr r \<and>
           v (m_amount (tr_subtotal r)) = Some (sum_list ts) \<and>
           v (m_amount (tr_taxTotal r)) = Some (sum_list ts * (of_int bp / 10000)) \<and>
           v (m_amount (tr_grandTotal r)) = Some (sum_list ts + sum_list ts * (of_int bp / 10000)) \<and>
           m_currency (tr_subtotal r) = c \<and> m_currency (tr_taxTotal r) = c \<and>
           m_currency (tr_grandTotal r) = c \<and> tr_currency r = c"
proof -
  obtain i items where items: "ti_items inp = i # items" using assms(1) by (cases "ti_items inp") auto
  have ci: "m_currency (li_price i) = c"
    using assms(3) by (auto simp: items cart_lines_def list_all2_Cons1)
  have z: "decimal_literal ''0'' = Some 0" using decimal_literal_int[of 0] by (simp add: int_to_string_def nat_to_string_def nat_to_base.simps)
  obtain zero where zero: "money D (StrArg ''0'') c = Inr zero" "v (m_amount zero) = Some 0" "m_currency zero = c"
    using money_of_arg[of "StrArg ''0''" 0 c] z assms(2) by auto
  obtain sub where sub: "foldl_result (add_item D) zero (ti_items inp) = Inr sub"
      "v (m_amount sub) = Some (sum_list ts)" "m_currency sub = c"
    using fold_items_exact[OF assms(3,2) _ zero(2,3)] assms(4) by auto
  let ?f = "NumArg (js_div_by (taxRateBP inp) 10000)"
  obtain f where "d_of_string D (arg_string ?f) = Inr f" "v f = Some (of_int bp / 10000)"
    using of_string[OF rate_prints[OF assms(6,7)]] assms(5) by auto
  then obtain tax where tax: "money_multiply D sub ?f = Inr tax"
      "v (m_amount tax) = Some (sum_list ts * (of_int bp / 10000))" "m_currency tax = c"
    using money_of_fixed[OF mul_exact[OF sub(2) _ assms(8)]] sub(3) assms(2)
    by (fastforce simp: money_multiply_def)
  obtain g where g: "money_add D sub tax = Inr g"
      "v (m_amount g) = Some (sum_list ts + sum_list ts * (of_int bp / 10000))" "m_currency g = c"
    using money_add_exact[OF sub(2) tax(2) assms(9)] sub(3) tax(3) assms(2) by auto
  have "calculateTotal D inp = Inr \<lparr>tr_subtotal = sub, tr_taxTotal = tax, tr_grandTotal = g,
      tr_currency = c, tr_taxRate = js_div_by (taxRateBP inp) 10000\<rparr>"
    using zero(1) sub(1) tax(1) g(1) by (simp add: calculateTotal_def items ci)
  then show ?thesis using sub tax g by simp
qed

end

section \<open>Properties\<close>

text \<open>C5: totals are exact. For a cart in one currency whose amounts stay within the 28 digits and a
  rate of whole basis points below one, the subtotal is the sum of price times quantity, the tax
  is that sum times the rate, the grand total is their sum, and all three carry the cart's
  currency: no rounding takes place on the way through the double that holds the rate.\<close>

theorem calculateTotal_correct:
  fixes inp :: "'d total_input"
  assumes "decimal_arith D v" and "ti_items inp \<noteq> []" and "to_upper c = c"
    and "cart_lines v c (ti_items inp) ts" and "\<forall>n. fits28 (sum_list (take n ts))"
    and "taxRateBP inp = Fin (of_int bp)" and "0 \<le> bp" and "bp < 10000"
    and "fits28 (sum_list ts * (of_int bp / 10000))"
    and "fits28 (sum_list ts + sum_list ts * (of_int bp / 10000))"
  shows "\<exists>r. calculateTotal D inp = Inr r \<and>
           v (m_amount (tr_subtotal r)) = Some (sum_list ts) \<and>
           v (m_amount (tr_taxTotal r)) = Some (sum_list ts * (of_int bp / 10000)) \<and>
           v (m_amount (tr_grandTotal r)) = Some (sum_list ts + sum_list ts * (of_int bp / 10000)) \<and>
           m_currency (tr_subtotal r) = c \<and> m_currency (tr_taxTotal r) = c \<and>
           m_currency (tr_grandTotal r) = c \<and> tr_currency r = c"
  using decimal_arith.calculateTotal_value[OF assms] .

text \<open>The witness: two items at 10 and one at 5.50 shipped to Germany.\<close>

theorem calculateTotal_correct_witness:
  "\<exists>r. calculateTotal ref_decimal
        \<lparr>ti_items = [\<lparr>li_price = \<lparr>m_amount = Dec 10 0, m_currency = ''EUR''\<rparr>, li_quantity = Fin 2\<rparr>,
                     \<lparr>li_price = \<lparr>m_amount = Dec 55 (-1), m_currency = ''EUR''\<rparr>, li_quantity = Fin 1\<rparr>],
         ti_taxRate = None,
         ti_destination = Some \<lparr>td_country = ''de'', td_state = None, td_vatId = None\<rparr>\<rparr> = Inr r \<and>
     ref_val (m_amount (tr_subtotal r)) = Some (51 / 2) \<and>
     ref_val (m_amount (tr_taxTotal r)) = Some (969 / 200) \<and>
     ref_val (m_amount (tr_grandTotal r)) = Some (6069 / 200)"
proof -
  let ?a = "\<lparr>li_price = \<lparr>m_amount = Dec 10 0, m_currency = ''EUR''\<rparr>, li_quantity = Fin 2\<rparr>"
  let ?b = "\<lparr>li_price = \<lparr>m_amount = Dec 55 (-1), m_currency = ''EUR''\<rparr>, li_quantity = Fin 1\<rparr>"
  let ?inp = "\<lparr>ti_items = [?a, ?b], ti_taxRate = None,
     ti_destination = Some \<lparr>td_country = ''de'', td_state = None, td_vatId = None\<rparr>\<rparr>"
  have f: "fits28 20" "fits28 (11 / 2)" "fits28 0" "fits28 (51 / 2)" "fits28 (969 / 200)" "fits28 (6069 / 200)"
    by (rule fits28I[of _ 20 0] fits28I[of _ 55 1] fits28I[of _ 0 0] fits28I[of _ 255 1]
        fits28I[of _ 4845 3] fits28I[of _ 30345 3]; simp add: dec_limit_def)+
  have up: "to_upper ''EUR'' = ''EUR''" by code_simp
  have a: "cart_lines ref_val ''EUR'' [?a, ?b] [20, 11 / 2]"
    using f(1,2) by (auto simp: cart_lines_def power_int_minus intro: exI[of _ 2] exI[of _ 1])
  have t: "\<forall>n. fits28 (sum_list (take n [20, 11 / 2]))"
    using f by (auto simp: take_Cons split: nat.splits)
  have bp: "taxRateBP ?inp = Fin (of_int 1900)" by code_simp
  show ?thesis
    using calculateTotal_correct[OF ref.decimal_arith_axioms _ up _ t bp] a f by auto
qed

text \<open>A result is only returned for a cart that is one currency throughout, and the rate it
  used is the one of the resolution order: an explicit rate wins, a business customer inside the
  EU (a VAT number and a member country) pays none, a country without a table entry pays none.\<close>

theorem calculateTotal_safe:
  assumes "calculateTotal D inp = Inr r"
  shows "(\<forall>i \<in> set (ti_items inp). to_upper (m_currency (li_price i)) = to_upper (tr_currency r)) \<and>
         m_currency (tr_subtotal r) = m_currency (tr_taxTotal r) \<and>
         (\<forall>d. ti_taxRate inp = None \<longrightarrow> ti_destination inp = Some d \<longrightarrow>
            truthy (td_vatId d) \<and> to_upper (td_country d) \<in> set EU_MEMBERS \<or>
            to_upper (td_country d) \<notin> set (jm_keys EU_VAT_BP @ jm_keys OTHER_RATES_BP) \<longrightarrow>
            tr_taxRate r = Fin 0)"
proof -
  obtain i items where items: "ti_items inp = i # items" using assms by (cases "ti_items inp") (auto simp: calculateTotal_def)
  obtain zero sub tax where *: "money D (StrArg ''0'') (m_currency (li_price i)) = Inr zero"
      "foldl_result (add_item D) zero (ti_items inp) = Inr sub"
      "money_add D sub tax = Inr (tr_grandTotal r)" "tr_subtotal r = sub" "tr_taxTotal r = tax"
      "tr_currency r = m_currency (li_price i)" "tr_taxRate r = js_div_by (taxRateBP inp) 10000"
    using assms by (auto simp: calculateTotal_def items and_then_Inr_iff Let_def)
  have "\<forall>i \<in> set (ti_items inp). to_upper (m_currency (li_price i)) = to_upper (tr_currency r)"
    using fold_items_currency[OF *(2) money_currency[OF *(1)]] *(6) by simp
  moreover have "m_currency (tr_subtotal r) = m_currency (tr_taxTotal r)"
    using money_add_currency[OF *(3)] *(4,5) by simp
  moreover have "tr_taxRate r = Fin 0"
    if "truthy (td_vatId d) \<and> to_upper (td_country d) \<in> set EU_MEMBERS \<or>
        to_upper (td_country d) \<notin> set (jm_keys EU_VAT_BP @ jm_keys OTHER_RATES_BP)"
      "ti_taxRate inp = None" "ti_destination inp = Some d" for d
    using *(7) resolveRateBP_zero[OF that(1)] that(2,3) by (simp add: taxRateBP_def to_double_def)
  ultimately show ?thesis by blast
qed

theorem calculateTotal_safe_witness:
  "\<exists>r. calculateTotal ref_decimal
        \<lparr>ti_items = [\<lparr>li_price = \<lparr>m_amount = Dec 10 0, m_currency = ''EUR''\<rparr>, li_quantity = Fin 2\<rparr>],
         ti_taxRate = None,
         ti_destination = Some \<lparr>td_country = ''de'', td_state = None, td_vatId = Some ''DE123''\<rparr>\<rparr> = Inr r \<and>
     tr_taxRate r = Fin 0"
proof -
  let ?d = "\<lparr>td_country = ''de'', td_state = None, td_vatId = Some ''DE123''\<rparr>"
  let ?inp = "\<lparr>ti_items = [\<lparr>li_price = \<lparr>m_amount = Dec 10 0, m_currency = ''EUR''\<rparr>, li_quantity = Fin 2\<rparr>],
     ti_taxRate = None, ti_destination = Some ?d\<rparr>"
  have f: "fits28 20" "fits28 0"
    by (rule fits28I[of _ 20 0] fits28I[of _ 0 0]; simp add: dec_limit_def)+
  have up: "to_upper ''EUR'' = ''EUR''" by code_simp
  have bp: "taxRateBP ?inp = Fin (of_int 0)" by code_simp
  have cl: "cart_lines ref_val ''EUR'' (ti_items ?inp) [20]"
    using f(1) by (auto simp: cart_lines_def intro: exI[of _ 2])
  have t: "\<forall>n. fits28 (sum_list (take n [20]))"
    using f by (auto simp: take_Cons split: nat.splits)
  have "\<exists>r. calculateTotal ref_decimal ?inp = Inr r"
    using ref.calculateTotal_value[OF _ up cl t bp] f by auto
  then obtain r where r: "calculateTotal ref_decimal ?inp = Inr r" by blast
  have "truthy (td_vatId ?d)" "to_upper (td_country ?d) \<in> set EU_MEMBERS" by code_simp+
  then show ?thesis using calculateTotal_safe[OF r] r by simp
qed

end
