(* ===== verification/Subscribe.thy ===== *)
theory Subscribe
  imports App Tax Transaction
begin

text \<open>
  The subscription checkout (examples/ecommerce/src/actions/subscribe.ts): catalogue price, tax by
  destination, charge and license in one transaction, the journal query, the event. The state is that
  of the payment provider and the list of emitted events. \<open>now\<close> is the clock reading of the order
  identifier, \<open>isoDate\<close> the platform's formatting of a date.
\<close>

section \<open>The action\<close>

datatype plan = Starter | Pro | Enterprise

datatype billing_cycle = Monthly | Annual

fun plan_name :: "plan \<Rightarrow> string" where
  "plan_name Starter = ''starter''"
| "plan_name Pro = ''pro''"
| "plan_name Enterprise = ''enterprise''"

fun cycle_name :: "billing_cycle \<Rightarrow> string" where
  "cycle_name Monthly = ''monthly''"
| "cycle_name Annual = ''annual''"

fun PLAN_PRICES :: "plan \<Rightarrow> billing_cycle \<Rightarrow> string" where
  "PLAN_PRICES Starter Monthly = ''29.00''"
| "PLAN_PRICES Starter Annual = ''290.00''"
| "PLAN_PRICES Pro Monthly = ''79.00''"
| "PLAN_PRICES Pro Annual = ''790.00''"
| "PLAN_PRICES Enterprise Monthly = ''299.00''"
| "PLAN_PRICES Enterprise Annual = ''2990.00''"

record subscribe_input =
  sb_plan :: plan
  sb_billingCycle :: billing_cycle
  sb_customerEmail :: string
  sb_country :: string

record 'p subscription_world =
  sw_pay :: 'p
  sw_events :: "(string \<times> json) list"

definition subscription_totals :: "'d decimal_lib \<Rightarrow> subscribe_input \<Rightarrow> 'd total_result result" where
  "subscription_totals D data = and_then (money D (StrArg (PLAN_PRICES (sb_plan data) (sb_billingCycle data))) ''USD'') (\<lambda>price.
     calculateTotal D \<lparr>ti_items = [\<lparr>li_price = price, li_quantity = Fin 1\<rparr>], ti_taxRate = None,
       ti_destination = Some \<lparr>td_country = sb_country data, td_state = None, td_vatId = None\<rparr>\<rparr>)"

definition subscription_charge :: "'d total_result \<Rightarrow> subscribe_input \<Rightarrow> int \<Rightarrow> 'd money charge_params" where
  "subscription_charge totals data now =
     \<lparr>cp_amount = tr_grandTotal totals, cp_orderId = ''sub_'' @ nat_to_base 36 (nat now),
      cp_customerEmail = sb_customerEmail data, cp_paymentMethodId = None\<rparr>"

definition subscription_license :: "subscribe_input \<Rightarrow> license_params" where
  "subscription_license data = \<lparr>lp_plan = plan_name (sb_plan data),
     lp_duration = Some (if sb_billingCycle data = Annual then ''365d'' else ''30d'')\<rparr>"

definition subscription_strings :: "string list" where
  "subscription_strings =
     (let line = [CHR 0x0A] @ replicate 4 (CHR 0x09)
      in [line @ ''INSERT INTO subscriptions (id, email, plan, amount, currency)'' @ line @ ''VALUES ('',
          '', '', '', '', '', '', '', '', '')'' @ [CHR 0x0A] @ replicate 3 (CHR 0x09)])"

definition subscription_journal :: "'d decimal_lib \<Rightarrow> als \<Rightarrow> 'd total_result \<Rightarrow> subscribe_input \<Rightarrow> charge_result \<Rightarrow> sql_query result" where
  "subscription_journal D s totals data payment = sql_tag s subscription_strings
     [JStr (cr_id payment), JStr (sb_customerEmail data), JStr (plan_name (sb_plan data)),
      JStr (amount D (tr_grandTotal totals)), JStr (tr_currency totals)]"

record subscription_receipt =
  sr_subscriptionId :: string
  sr_plan :: plan
  sr_billingCycle :: billing_cycle
  sr_currency :: string
  sr_subtotal :: string
  sr_tax :: string
  sr_total :: string
  sr_taxRate :: number
  sr_licenseKey :: string
  sr_expiresAt :: string
  sr_journalSql :: string

definition subscription_prog :: "'d decimal_lib \<Rightarrow> als \<Rightarrow> (int \<Rightarrow> string) \<Rightarrow> int \<Rightarrow> subscribe_input \<Rightarrow> 'd total_result
    \<Rightarrow> (subscription_receipt, 'd money) tx_prog" where
  "subscription_prog D s isoDate now data totals =
     Charge (subscription_charge totals data now) (\<lambda>r. case r of
        Inl e \<Rightarrow> Throw e
      | Inr payment \<Rightarrow> Issue (subscription_license data) (\<lambda>license.
          (case subscription_journal D s totals data payment of
             Inl e \<Rightarrow> Throw e
           | Inr journal \<Rightarrow> Done
               \<lparr>sr_subscriptionId = cr_id payment, sr_plan = sb_plan data, sr_billingCycle = sb_billingCycle data,
                sr_currency = tr_currency totals, sr_subtotal = amount D (tr_subtotal totals),
                sr_tax = amount D (tr_taxTotal totals), sr_total = amount D (tr_grandTotal totals),
                sr_taxRate = tr_taxRate totals, sr_licenseKey = lr_key license,
                sr_expiresAt = isoDate (lr_expiresAt license), sr_journalSql = sq_text journal\<rparr>)))"

definition subscription_created :: "subscription_receipt \<Rightarrow> string \<times> json" where
  "subscription_created receipt = (''subscription.created'', JObj
     [(''subscriptionId'', JStr (sr_subscriptionId receipt)), (''plan'', JStr (plan_name (sr_plan receipt))),
      (''total'', JStr (sr_total receipt))])"

definition subscribe :: "'d decimal_lib \<Rightarrow> ('p, 'd money) provider \<Rightarrow> (int \<Rightarrow> string) \<Rightarrow> int \<Rightarrow> subscribe_input
    \<Rightarrow> als \<Rightarrow> 'p subscription_world \<Rightarrow> subscription_receipt result \<times> 'p subscription_world" where
  "subscribe D p isoDate now data s w =
     (case subscription_totals D data of
        Inl e \<Rightarrow> (Inl e, w)
      | Inr totals \<Rightarrow>
          (case transaction s p (subscription_prog D s isoDate now data totals) (sw_pay w) of
             Inl e \<Rightarrow> (Inl e, w)
           | Inr out \<Rightarrow>
               (case to_result out of
                  Inl e \<Rightarrow> (Inl e, w\<lparr>sw_pay := to_world out\<rparr>)
                | Inr receipt \<Rightarrow>
                    (Inr receipt, w\<lparr>sw_pay := to_world out, sw_events := sw_events w @ [subscription_created receipt]\<rparr>))))"

text \<open>The action: the validated input, and the context's store.\<close>

definition subscribe_action :: "'s factories \<Rightarrow> string \<Rightarrow> subscribe_input validator \<Rightarrow> 'd decimal_lib \<Rightarrow> ('p, 'd money) provider
    \<Rightarrow> (int \<Rightarrow> string) \<Rightarrow> int \<Rightarrow> json option \<Rightarrow> als \<Rightarrow> 'p subscription_world
    \<Rightarrow> subscription_receipt result \<times> 'p subscription_world" where
  "subscribe_action fs level SubscribeInput D p isoDate now =
     state_action fs level SubscribeInput (with_data (\<lambda>data _ s w. subscribe D p isoDate now data s w))"

section \<open>What a subscription costs\<close>

fun plan_price :: "plan \<Rightarrow> billing_cycle \<Rightarrow> int" where
  "plan_price Starter Monthly = 29"
| "plan_price Starter Annual = 290"
| "plan_price Pro Monthly = 79"
| "plan_price Pro Annual = 790"
| "plan_price Enterprise Monthly = 299"
| "plan_price Enterprise Annual = 2990"

lemma catalogue_prices: "decimal_literal (PLAN_PRICES p c) = Some (of_int (plan_price p c))"
  by (cases p; cases c; simp only: PLAN_PRICES.simps plan_price.simps; code_simp)

lemma plan_price_bounds: "0 < plan_price p c" "plan_price p c \<le> 2990"
  by (cases p; cases c; simp)+

text \<open>The three amounts of a subscription, and the rate it reports.\<close>

lemma subscription_totals_exact:
  fixes data :: subscribe_input and price rate :: rat
  assumes "decimal_arith D v"
  defines "dest \<equiv> \<lparr>td_country = sb_country data, td_state = None, td_vatId = None\<rparr>"
  defines "price \<equiv> of_int (plan_price (sb_plan data) (sb_billingCycle data))" and "rate \<equiv> of_int (resolveRateBP dest) / 10000"
  shows "\<exists>r. subscription_totals D data = Inr r \<and> v (m_amount (tr_subtotal r)) = Some price \<and>
    v (m_amount (tr_taxTotal r)) = Some (price * rate) \<and> v (m_amount (tr_grandTotal r)) = Some (price + price * rate) \<and>
    m_currency (tr_subtotal r) = ''USD'' \<and> m_currency (tr_taxTotal r) = ''USD'' \<and> m_currency (tr_grandTotal r) = ''USD'' \<and>
    tr_currency r = ''USD'' \<and> tr_taxRate r = js_div_by (Fin (of_int (resolveRateBP dest))) 10000"
proof -
  let ?p = "plan_price (sb_plan data) (sb_billingCycle data)"
  let ?bp = "resolveRateBP dest"
  have up: "to_upper ''USD'' = ''USD''" by code_simp
  have b: "0 < ?p" "?p \<le> 2990" "0 \<le> ?bp" "?bp < 10000" using plan_price_bounds resolveRateBP_bounds by auto
  then have "?p * ?bp \<le> 2990 * 10000" by (intro mult_mono) auto
  then have small: "\<bar>?p * ?bp\<bar> < 10 ^ 28" "\<bar>?p * 10000 + ?p * ?bp\<bar> < 10 ^ 28" using b by auto
  obtain p where price: "money D (StrArg (PLAN_PRICES (sb_plan data) (sb_billingCycle data))) ''USD'' = Inr p"
      "v (m_amount p) = Some (of_int ?p)" "m_currency p = ''USD''"
    using decimal_arith.money_of_arg[OF assms(1), of "StrArg (PLAN_PRICES (sb_plan data) (sb_billingCycle data))" _ "''USD''"]
      catalogue_prices up by auto
  let ?inp = "\<lparr>ti_items = [\<lparr>li_price = p, li_quantity = Fin 1\<rparr>], ti_taxRate = None, ti_destination = Some dest\<rparr>"
  have lines: "cart_lines v ''USD'' (ti_items ?inp) [of_int ?p]"
    using price b by (auto simp: cart_lines_def intro!: exI[of _ 1] fits28_of_int)
  have sums: "\<forall>n. fits28 (sum_list (take n [of_int ?p]))"
    using b fits28_of_int[of 0] by (auto simp: take_Cons' intro!: fits28_of_int)
  have tax: "fits28 (sum_list [of_int ?p] * (of_int ?bp / 10000))"
    by (rule fits28I[of _ "?p * ?bp" 4]) (use small in \<open>simp_all add: dec_limit_def\<close>)
  have gross: "fits28 (sum_list [of_int ?p] + sum_list [of_int ?p] * (of_int ?bp / 10000))"
    by (rule fits28I[of _ "?p * 10000 + ?p * ?bp" 4]) (use small in \<open>simp_all add: dec_limit_def add_divide_distrib\<close>)
  have bp: "taxRateBP ?inp = Fin (of_int ?bp)" by (simp add: taxRateBP_def)
  have taxRate: "tr_taxRate r = js_div_by (taxRateBP ?inp) 10000" if "calculateTotal D ?inp = Inr r" for r
    using that by (auto simp: calculateTotal_def and_then_Inr_iff Let_def)
  have totals: "subscription_totals D data = calculateTotal D ?inp" by (simp add: subscription_totals_def price(1) dest_def)
  from decimal_arith.calculateTotal_value[OF assms(1) _ up lines sums bp b(3,4) tax gross] taxRate bp show ?thesis
    unfolding totals price_def rate_def by auto
qed

text \<open>The amount charged for a subscription is exactly the catalogue price and the tax of its
  destination, whatever the plan and the country.\<close>

theorem subscription_price:
  assumes "decimal_arith D v"
  shows "\<exists>r. subscription_totals D data = Inr r \<and> tr_currency r = ''USD'' \<and>
    v (m_amount (cp_amount (subscription_charge r data now))) = Some (of_int (plan_price (sb_plan data) (sb_billingCycle data)) *
      (1 + of_int (resolveRateBP \<lparr>td_country = sb_country data, td_state = None, td_vatId = None\<rparr>) / 10000))"
  using subscription_totals_exact[OF assms, of data]
  by (auto simp: subscription_charge_def algebra_simps)

text \<open>A subscription that returns a receipt has been charged what the receipt says, its license lasts as
  long as the billing cycle, and one event announces it; one that throws announces nothing.\<close>

lemma subscribe_receipt:
  assumes "subscribe D p isoDate now data s w = (Inr receipt, w')"
  obtains totals payment pay where "subscription_totals D data = Inr totals"
    "pv_charge p (subscription_charge totals data now) (sw_pay w) = (Inr payment, pay)"
    "sr_subscriptionId receipt = cr_id payment" "sr_total receipt = amount D (cp_amount (subscription_charge totals data now))"
    "\<exists>issued. sr_expiresAt receipt = isoDate (issued + (if sb_billingCycle data = Annual then 365 else 30) * 86400000)"
    "sw_events w' = sw_events w @ [subscription_created receipt]"
proof -
  obtain totals out where t: "subscription_totals D data = Inr totals"
      "transaction s p (subscription_prog D s isoDate now data totals) (sw_pay w) = Inr out" "to_result out = Inr receipt"
      "sw_events w' = sw_events w @ [subscription_created receipt]"
    using assms by (auto simp: subscribe_def split: sum.splits)
  then obtain jid where "to_result (transaction_in p jid (subscription_prog D s isoDate now data totals) (sw_pay w)) = Inr receipt"
    by (auto simp: transaction_def and_then_Inr_iff)
  then obtain payment pay journal where c: "pv_charge p (subscription_charge totals data now) (sw_pay w) = (Inr payment, pay)"
      "subscription_journal D s totals data payment = Inr journal"
      "receipt = \<lparr>sr_subscriptionId = cr_id payment, sr_plan = sb_plan data, sr_billingCycle = sb_billingCycle data,
         sr_currency = tr_currency totals, sr_subtotal = amount D (tr_subtotal totals),
         sr_tax = amount D (tr_taxTotal totals), sr_total = amount D (tr_grandTotal totals), sr_taxRate = tr_taxRate totals,
         sr_licenseKey = lr_key (issue_license jid (pv_now p pay) (subscription_license data)),
         sr_expiresAt = isoDate (lr_expiresAt (issue_license jid (pv_now p pay) (subscription_license data))),
         sr_journalSql = sq_text journal\<rparr>"
    by (auto simp: transaction_in_def subscription_prog_def tx_charge_def tx_issue_def Let_def
        split: prod.splits sum.splits)
  have "resolveLicenseExpiry n (Some ''365d'') = n + 365 * 86400000" "resolveLicenseExpiry n (Some ''30d'') = n + 30 * 86400000" for n
    by (simp_all add: resolveLicenseExpiry_def truthy_def is_digit_char_def less_eq_char_def parse_digits_def digit_val_def unit_ms_def)
  then have "\<exists>issued. sr_expiresAt receipt = isoDate (issued + (if sb_billingCycle data = Annual then 365 else 30) * 86400000)"
    unfolding c(3) by (auto simp: issue_license_def subscription_license_def)
  with t c that show ?thesis by (simp add: subscription_charge_def)
qed

lemma subscribe_failed: "subscribe D p isoDate now data s w = (Inl e, w') \<Longrightarrow> sw_events w' = sw_events w"
  by (auto simp: subscribe_def split: sum.splits)

end
