(* ===== verification/Accounting.thy ===== *)
theory Accounting
  imports Tax Signature
begin

text \<open>
  The accounting example (examples/accounting/src/index.ts) and the formatting of an amount
  (\<open>Money.format\<close>, packages/finance/src/money/index.ts). A month's sales are totalled, taxed for
  three destinations, and the operating profit is split over cost centres. \<open>intl\<close> is the platform's
  number formatter: for a locale and a currency it fails or gives a function on numbers. The report holds the
  amounts the program prints.
\<close>

section \<open>Formatting\<close>

definition money_format :: "(string \<Rightarrow> string \<Rightarrow> (number \<Rightarrow> string) result) \<Rightarrow> 'd decimal_lib \<Rightarrow> 'd money \<Rightarrow> string \<Rightarrow> string result" where
  "money_format intl D m locale = and_then (intl locale (m_currency m)) (\<lambda>fmt. Inr (fmt (js_Number (amount D m))))"

section \<open>The month\<close>

record sale_line =
  sl_sku :: string
  sl_unitPrice :: string
  sl_quantity :: number

definition SALES :: "sale_line list" where
  "SALES = [\<lparr>sl_sku = ''WIDGET-PRO'', sl_unitPrice = ''149.99'', sl_quantity = Fin 240\<rparr>,
     \<lparr>sl_sku = ''WIDGET-LITE'', sl_unitPrice = ''49.50'', sl_quantity = Fin 610\<rparr>,
     \<lparr>sl_sku = ''SUPPORT-ANNUAL'', sl_unitPrice = ''1200.00'', sl_quantity = Fin 18\<rparr>]"

definition COST_CENTRES :: "(string \<times> int) list" where
  "COST_CENTRES = [(''cost-of-goods'', 45), (''operations'', 25), (''sales & marketing'', 20), (''reserve'', 10)]"

definition CURRENCY :: string where "CURRENCY = ''USD''"

definition lineTotal :: "'d decimal_lib \<Rightarrow> sale_line \<Rightarrow> 'd money result" where
  "lineTotal D line =
     and_then (money D (StrArg (sl_unitPrice line)) CURRENCY) (\<lambda>m. money_multiply D m (NumArg (sl_quantity line)))"

text \<open>The functions of the program read the constant \<open>SALES\<close>; here the sales are an argument.\<close>

definition grossRevenue :: "'d decimal_lib \<Rightarrow> sale_line list \<Rightarrow> 'd money result" where
  "grossRevenue D sales = and_then (money D (StrArg ''0'') CURRENCY)
     (\<lambda>zero. foldl_result (\<lambda>acc line. and_then (lineTotal D line) (money_add D acc)) zero sales)"

definition sales_cart :: "'d decimal_lib \<Rightarrow> sale_line list \<Rightarrow> 'd line_item list result" where
  "sales_cart D sales = map_result (\<lambda>line. and_then (money D (StrArg (sl_unitPrice line)) CURRENCY)
     (\<lambda>price. Inr \<lparr>li_price = price, li_quantity = sl_quantity line\<rparr>)) sales"

definition cart_total :: "'d decimal_lib \<Rightarrow> 'd line_item list \<Rightarrow> string \<Rightarrow> string option \<Rightarrow> 'd total_result result" where
  "cart_total D cart country vatId = calculateTotal D
     \<lparr>ti_items = cart, ti_taxRate = None,
       ti_destination = Some \<lparr>td_country = country, td_state = None, td_vatId = vatId\<rparr>\<rparr>"

record 'd allocation =
  ac_profit :: "'d money"
  ac_shares :: "'d money list"
  ac_allocated :: "'d money"
  ac_reconciles :: bool

text \<open>The allocation of the profit, and the check in minor units. A number that is not a number
  equals nothing.\<close>

definition number_equals :: "number \<Rightarrow> number \<Rightarrow> bool" where
  "number_equals x y \<longleftrightarrow> x = y \<and> x \<noteq> NaN"

definition allocate_profit :: "'d decimal_lib \<Rightarrow> (string \<times> int) list \<Rightarrow> 'd money \<Rightarrow> 'd allocation result" where
  "allocate_profit D centres revenue =
     and_then (money_multiply D revenue (StrArg ''0.32'')) (\<lambda>profit.
     and_then (allocate D profit (map (\<lambda>c. Fin (of_int (snd c))) centres)) (\<lambda>shares.
     and_then (money D (StrArg ''0'') CURRENCY) (\<lambda>zero.
     and_then (foldl_result (money_add D) zero shares) (\<lambda>allocated.
       Inr \<lparr>ac_profit = profit, ac_shares = shares, ac_allocated = allocated,
            ac_reconciles = number_equals (toMinorUnits D allocated) (toMinorUnits D profit)\<rparr>))))"

record 'd month_report =
  mr_revenue :: "'d money"
  mr_consumer :: "'d total_result"
  mr_business :: "'d total_result"
  mr_domestic :: "'d total_result"
  mr_allocation :: "'d allocation"

definition accounting_main :: "'d decimal_lib \<Rightarrow> sale_line list \<Rightarrow> 'd month_report result" where
  "accounting_main D sales =
     and_then (grossRevenue D sales) (\<lambda>revenue.
     and_then (sales_cart D sales) (\<lambda>cart.
     and_then (cart_total D cart ''DE'' None) (\<lambda>germanConsumer.
     and_then (cart_total D cart ''DE'' (Some ''DE123456789'')) (\<lambda>germanBusiness.
     and_then (cart_total D cart ''ZA'' None) (\<lambda>southAfricanConsumer.
     and_then (allocate_profit D COST_CENTRES revenue) (\<lambda>allocation.
       Inr \<lparr>mr_revenue = revenue, mr_consumer = germanConsumer, mr_business = germanBusiness,
            mr_domestic = southAfricanConsumer, mr_allocation = allocation\<rparr>))))))"

section \<open>The amounts are exact\<close>

text \<open>The sales: plain literals for prices and whole quantities, with line totals \<open>ts\<close>.\<close>

definition sales_lines :: "sale_line list \<Rightarrow> rat list \<Rightarrow> bool" where
  "sales_lines sales ts \<longleftrightarrow> list_all2 (\<lambda>l t. \<exists>a q. decimal_literal (sl_unitPrice l) = Some a \<and>
     sl_quantity l = Fin (of_int q) \<and> \<bar>q\<bar> < 2 ^ 53 \<and> t = a * of_int q \<and> fits28 t) sales ts"

lemma to_upper_CURRENCY [simp]: "to_upper CURRENCY = CURRENCY" and decimals_CURRENCY [simp]: "getCurrencyDecimals CURRENCY = 2"
  by code_simp+

lemma decimal_literal_zero: "decimal_literal ''0'' = Some 0"
  by code_simp

text \<open>The revenue is the running sum of the cart's items.\<close>

lemma revenue_of_cart:
  "sales_cart D sales = Inr cart \<Longrightarrow>
    foldl_result (\<lambda>acc line. and_then (lineTotal D line) (money_add D acc)) acc sales = foldl_result (add_item D) acc cart"
proof (induction sales arbitrary: acc cart)
  case (Cons l sales)
  then obtain p items where p: "money D (StrArg (sl_unitPrice l)) CURRENCY = Inr p"
      "cart = \<lparr>li_price = p, li_quantity = sl_quantity l\<rparr> # items" "sales_cart D sales = Inr items"
    by (auto simp: sales_cart_def and_then_Inr_iff)
  have "and_then (lineTotal D l) (money_add D acc) = add_item D acc \<lparr>li_price = p, li_quantity = sl_quantity l\<rparr>"
    by (simp add: lineTotal_def add_item_def p(1))
  then show ?case using Cons.IH[OF p(3)] by (simp add: p(2))
qed (simp add: sales_cart_def)

context decimal_arith
begin

lemma sales_cart_lines:
  "sales_lines sales ts \<Longrightarrow> \<exists>cart. sales_cart D sales = Inr cart \<and> cart_lines v CURRENCY cart ts"
proof (induction sales arbitrary: ts)
  case (Cons l sales)
  then obtain t ts' a q where ts: "ts = t # ts'" "sales_lines sales ts'" "decimal_literal (sl_unitPrice l) = Some a"
      "sl_quantity l = Fin (of_int q)" "\<bar>q\<bar> < 2 ^ 53" "t = a * of_int q" "fits28 t"
    unfolding sales_lines_def list_all2_Cons1 by blast
  obtain p where "money D (StrArg (sl_unitPrice l)) CURRENCY = Inr p" "v (m_amount p) = Some a" "m_currency p = CURRENCY"
    using money_of_arg[of "StrArg (sl_unitPrice l)" a CURRENCY] ts(3) by auto
  with Cons.IH[OF ts(2)] ts(1,4-7) show ?case by (auto simp: sales_cart_def cart_lines_def)
qed (simp add: sales_lines_def sales_cart_def cart_lines_def)

lemma revenue_exact:
  assumes "sales_lines sales ts" "\<forall>n. fits28 (sum_list (take n ts))"
  shows "\<exists>cart m. sales_cart D sales = Inr cart \<and> cart_lines v CURRENCY cart ts \<and>
    grossRevenue D sales = Inr m \<and> v (m_amount m) = Some (sum_list ts) \<and> m_currency m = CURRENCY"
proof -
  obtain cart where cart: "sales_cart D sales = Inr cart" "cart_lines v CURRENCY cart ts"
    using sales_cart_lines[OF assms(1)] by blast
  obtain zero where zero: "money D (StrArg ''0'') CURRENCY = Inr zero" "v (m_amount zero) = Some 0" "m_currency zero = CURRENCY"
    using money_of_arg[of "StrArg ''0''" 0 CURRENCY] by (auto simp: decimal_literal_zero)
  obtain m where "foldl_result (add_item D) zero cart = Inr m" "v (m_amount m) = Some (sum_list ts)" "m_currency m = CURRENCY"
    using fold_items_exact[OF cart(2) to_upper_CURRENCY _ zero(2,3)] assms(2) by auto
  with cart zero(1) show ?thesis by (auto simp: grossRevenue_def revenue_of_cart[OF cart(1)])
qed

lemma fold_shares_exact:
  "list_all2 (\<lambda>m x. v (m_amount m) = Some (of_int x / 100) \<and> m_currency m = CURRENCY) ms xs \<Longrightarrow>
   list_all (\<lambda>x. 0 \<le> x) xs \<Longrightarrow> 0 \<le> s \<Longrightarrow> s + sum_list xs < 10 ^ 28 \<Longrightarrow>
   v (m_amount acc) = Some (of_int s / 100) \<Longrightarrow> m_currency acc = CURRENCY \<Longrightarrow>
   \<exists>tot. foldl_result (money_add D) acc ms = Inr tot \<and> v (m_amount tot) = Some (of_int (s + sum_list xs) / 100) \<and>
     m_currency tot = CURRENCY"
proof (induction ms arbitrary: xs s acc)
  case (Cons m ms)
  then obtain x xs' where xs: "xs = x # xs'" "v (m_amount m) = Some (of_int x / 100)" "m_currency m = CURRENCY"
      "list_all2 (\<lambda>m x. v (m_amount m) = Some (of_int x / 100) \<and> m_currency m = CURRENCY) ms xs'"
    unfolding list_all2_Cons1 by blast
  have nn: "0 \<le> x" "list_all (\<lambda>x. 0 \<le> x) xs'" using Cons.prems(2) xs(1) by simp_all
  then have "0 \<le> sum_list xs'" by (intro sum_list_nonneg) (simp add: list_all_iff)
  then have b: "s + x < 10 ^ 28" "0 \<le> s + x" using Cons.prems(3,4) xs(1) nn(1) by simp_all
  have eq: "of_int s / 100 + of_int x / 100 = (of_int (s + x) / 100 :: rat)" by (simp add: add_divide_distrib)
  have "fits28 (of_int s / 100 + of_int x / 100)"
    unfolding eq by (rule fits28I[of _ "s + x" 2]) (use b in \<open>auto simp: dec_limit_def\<close>)
  then obtain acc' where acc': "money_add D acc m = Inr acc'" "v (m_amount acc') = Some (of_int (s + x) / 100)" "m_currency acc' = CURRENCY"
    using money_add_exact[OF Cons.prems(5) xs(2)] Cons.prems(6) xs(3) unfolding eq by auto
  from Cons.IH[OF xs(4) nn(2) b(2) _ acc'(2,3)] Cons.prems(4) show ?case
    by (simp add: xs(1) acc'(1) add.assoc)
qed simp

end

lemma alloc_spec_nonneg:
  assumes "0 \<le> tot" "list_all (\<lambda>r. 0 \<le> r) rs" "0 < sum_list rs"
  shows "list_all (\<lambda>x. 0 \<le> x) (alloc_spec tot rs)"
proof -
  let ?shares = "map (\<lambda>r. tot * r div sum_list rs) rs"
  have nn: "list_all (\<lambda>x. 0 \<le> x) ?shares"
    using assms by (auto simp: list_all_iff intro!: pos_imp_zdiv_nonneg_iff[THEN iffD2])
  have "sum_list rs * sum_list ?shares \<le> sum_list rs * tot"
    using floor_shares_le[OF assms(3), of tot rs] by (simp add: mult.commute)
  then have "sum_list ?shares \<le> tot" using assms(3) by simp
  with nn show ?thesis by (cases rs) (auto simp: alloc_spec_def Let_def)
qed

context decimal_arith
begin

text \<open>The shares add up to the profit rounded down to the cent; the check compares that with the profit
  rounded to the nearest cent.\<close>

lemma allocate_profit_exact:
  assumes "v (m_amount revenue) = Some r" "m_currency revenue = CURRENCY" "0 \<le> r"
    and "fits28 (r * (32 / 100))" "fits28 (r * (32 / 100) * 100)" "r * 32 < 2 ^ 53 - 2"
  shows "\<exists>al. allocate_profit D COST_CENTRES revenue = Inr al \<and> v (m_amount (ac_profit al)) = Some (r * (32 / 100)) \<and>
    v (m_amount (ac_allocated al)) = Some (of_int \<lfloor>r * 32\<rfloor> / 100) \<and>
    list_all2 (\<lambda>m x. v (m_amount m) = Some (of_int x / 100) \<and> m_currency m = CURRENCY)
      (ac_shares al) (alloc_spec \<lfloor>r * 32\<rfloor> [45, 25, 20, 10]) \<and>
    (ac_reconciles al \<longleftrightarrow> round_half_even (r * 32) = \<lfloor>r * 32\<rfloor>)"
proof -
  let ?M = "\<lfloor>r * 32\<rfloor>"
  have M: "0 \<le> ?M" "?M < 2 ^ 53 - 2" using assms(3,6) by (simp_all add: floor_less_iff)
  have lit: "decimal_literal ''0.32'' = Some (32 / 100)" by code_simp
  obtain p where p: "money_multiply D revenue (StrArg ''0.32'') = Inr p" "v (m_amount p) = Some (r * (32 / 100))" "m_currency p = CURRENCY"
    using money_multiply_exact[OF assms(1), of "StrArg ''0.32''" "32 / 100"] assms(2,4) by (auto simp: lit)
  have cents: "r * (32 / 100) * 10 ^ getCurrencyDecimals (m_currency p) = r * 32" "r * (32 / 100) * 100 = r * 32" by (simp_all add: p(3))
  have "alloc_bounds ?M [45, 25, 20, 10]" using M by (simp add: alloc_bounds_def)
  then obtain ms where ms: "allocate D p (map (\<lambda>x. Fin (of_int x)) [45, 25, 20, 10]) = Inr ms"
      "list_all2 (\<lambda>m x. v (m_amount m) = Some (of_int x / 100) \<and> m_currency m = CURRENCY) ms (alloc_spec ?M [45, 25, 20, 10])"
    using allocate_refines[OF p(2), of "[45, 25, 20, 10]", unfolded cents(1)] assms(5)[unfolded cents(2)] p(3) by auto
  obtain zero where zero: "money D (StrArg ''0'') CURRENCY = Inr zero" "v (m_amount zero) = Some (of_int 0 / 100)" "m_currency zero = CURRENCY"
    using money_of_arg[of "StrArg ''0''" 0 CURRENCY] by (auto simp: decimal_literal_zero)
  have sum: "sum_list (alloc_spec ?M [45, 25, 20, 10]) = ?M" by (simp add: alloc_spec_sum)
  obtain tot where tot: "foldl_result (money_add D) zero ms = Inr tot" "v (m_amount tot) = Some (of_int ?M / 100)" "m_currency tot = CURRENCY"
    using fold_shares_exact[OF ms(2) alloc_spec_nonneg _ _ zero(2,3)] M by (auto simp: sum)
  have units: "toMinorUnits D tot = Fin (of_int ?M)"
  proof -
    have "fits28 (of_int ?M)" using M by (intro fits28_of_int) auto
    then show ?thesis using toMinorUnits_val[OF tot(2)] tot(3) M by (simp add: to_double_of_int)
  qed
  have "\<bar>round_half_even (r * 32)\<bar> < 2 ^ 53" using round_half_even_floor[of "r * 32"] M by auto
  from to_double_of_int[OF this] have "toMinorUnits D p = Fin (of_int (round_half_even (r * 32)))"
    using toMinorUnits_val[OF p(2), unfolded cents(1), OF assms(5)[unfolded cents(2)]] by simp
  with units have "number_equals (toMinorUnits D tot) (toMinorUnits D p) \<longleftrightarrow> round_half_even (r * 32) = ?M"
    by (auto simp: number_equals_def)
  then show ?thesis
    using p ms tot zero(1) by (auto simp: allocate_profit_def COST_CENTRES_def)
qed

end

section \<open>The report\<close>

lemma cart_rates:
  "resolveRateBP \<lparr>td_country = ''DE'', td_state = None, td_vatId = None\<rparr> = 1900"
  "resolveRateBP \<lparr>td_country = ''DE'', td_state = None, td_vatId = Some ''DE123456789''\<rparr> = 0"
  "resolveRateBP \<lparr>td_country = ''ZA'', td_state = None, td_vatId = None\<rparr> = 1500"
  by code_simp+

context decimal_arith
begin

lemma cart_total_exact:
  assumes "cart_lines v CURRENCY cart ts" "cart \<noteq> []" "\<forall>n. fits28 (sum_list (take n ts))" "r = sum_list ts"
    and "resolveRateBP \<lparr>td_country = country, td_state = None, td_vatId = vatId\<rparr> = bp"
    and "fits28 (r * (of_int bp / 10000))" "fits28 (r + r * (of_int bp / 10000))"
  shows "\<exists>t. cart_total D cart country vatId = Inr t \<and> v (m_amount (tr_taxTotal t)) = Some (r * (of_int bp / 10000))"
  unfolding cart_total_def
  by (rule exE[OF calculateTotal_value[of "\<lparr>ti_items = cart, ti_taxRate = None,
      ti_destination = Some \<lparr>td_country = country, td_state = None, td_vatId = vatId\<rparr>\<rparr>" CURRENCY ts bp]])
    (use assms resolveRateBP_bounds[of "\<lparr>td_country = country, td_state = None, td_vatId = vatId\<rparr>"]
      in \<open>auto simp: taxRateBP_def\<close>)

lemma accounting_value:
  assumes "sales_lines sales ts" "sales \<noteq> []" "\<forall>n. fits28 (sum_list (take n ts))"
    and "r = sum_list ts" "0 \<le> r" "r * 32 < 2 ^ 53 - 2" "fits28 (r * (32 / 100))" "fits28 (r * (32 / 100) * 100)"
    and "\<forall>bp \<in> {0, 1500, 1900}. fits28 (r * (of_int bp / 10000)) \<and> fits28 (r + r * (of_int bp / 10000))"
  shows "\<exists>rep. accounting_main D sales = Inr rep \<and> v (m_amount (mr_revenue rep)) = Some r \<and>
    v (m_amount (tr_taxTotal (mr_consumer rep))) = Some (r * (19 / 100)) \<and>
    v (m_amount (tr_taxTotal (mr_business rep))) = Some 0 \<and>
    v (m_amount (tr_taxTotal (mr_domestic rep))) = Some (r * (15 / 100)) \<and>
    v (m_amount (ac_allocated (mr_allocation rep))) = Some (of_int \<lfloor>r * 32\<rfloor> / 100) \<and>
    (ac_reconciles (mr_allocation rep) \<longleftrightarrow> round_half_even (r * 32) = \<lfloor>r * 32\<rfloor>)"
proof -
  obtain cart m where cart: "sales_cart D sales = Inr cart" "cart_lines v CURRENCY cart ts"
    and m: "grossRevenue D sales = Inr m" "v (m_amount m) = Some r" "m_currency m = CURRENCY"
    using revenue_exact[OF assms(1,3)] assms(4) by blast
  have "length cart = length sales"
    using list_all2_lengthD[OF assms(1)[unfolded sales_lines_def]] list_all2_lengthD[OF cart(2)[unfolded cart_lines_def]] by simp
  then have ne: "cart \<noteq> []" using assms(2) by auto
  have fit: "fits28 (r * (of_int bp / 10000))" "fits28 (r + r * (of_int bp / 10000))" if "bp \<in> {0, 1500, 1900}" for bp
    using assms(9) that by blast+
  have total: "\<exists>t. cart_total D cart country vatId = Inr t \<and> v (m_amount (tr_taxTotal t)) = Some (r * (of_int bp / 10000))"
    if "resolveRateBP \<lparr>td_country = country, td_state = None, td_vatId = vatId\<rparr> = bp" "bp \<in> {0, 1500, 1900}" for country vatId bp
    by (rule cart_total_exact[OF cart(2) ne assms(3,4) that(1) fit[OF that(2)]])
  obtain t1 where t1: "cart_total D cart ''DE'' None = Inr t1" "v (m_amount (tr_taxTotal t1)) = Some (r * (19 / 100))"
    using total[OF cart_rates(1)] by auto
  obtain t2 where t2: "cart_total D cart ''DE'' (Some ''DE123456789'') = Inr t2" "v (m_amount (tr_taxTotal t2)) = Some 0"
    using total[OF cart_rates(2)] by auto
  obtain t3 where t3: "cart_total D cart ''ZA'' None = Inr t3" "v (m_amount (tr_taxTotal t3)) = Some (r * (15 / 100))"
    using total[OF cart_rates(3)] by auto
  obtain al where "allocate_profit D COST_CENTRES m = Inr al" "v (m_amount (ac_allocated al)) = Some (of_int \<lfloor>r * 32\<rfloor> / 100)"
      "ac_reconciles al \<longleftrightarrow> round_half_even (r * 32) = \<lfloor>r * 32\<rfloor>"
    using allocate_profit_exact[OF m(2,3) assms(5,7,8,6)] by blast
  with cart(1) m(1,2) t1 t2 t3 show ?thesis by (simp add: accounting_main_def)
qed

end

text \<open>The program's figures: the revenue is the sum of the lines, the three taxes are 19%, nothing and 15% of
  it, and the shares of the profit add up to its whole cents. The reconciliation the program prints as
  proof succeeds exactly when the profit, rounded to the nearest cent, was rounded down.\<close>

theorem accounting_exact:
  assumes "decimal_arith D v" and "sales_lines sales ts" "sales \<noteq> []" "\<forall>n. fits28 (sum_list (take n ts))"
    and "r = sum_list ts" "0 \<le> r" "r * 32 < 2 ^ 53 - 2" "fits28 (r * (32 / 100))" "fits28 (r * (32 / 100) * 100)"
    and "\<forall>bp \<in> {0, 1500, 1900}. fits28 (r * (of_int bp / 10000)) \<and> fits28 (r + r * (of_int bp / 10000))"
  shows "\<exists>rep. accounting_main D sales = Inr rep \<and> v (m_amount (mr_revenue rep)) = Some r \<and>
    v (m_amount (tr_taxTotal (mr_consumer rep))) = Some (r * (19 / 100)) \<and>
    v (m_amount (tr_taxTotal (mr_business rep))) = Some 0 \<and>
    v (m_amount (tr_taxTotal (mr_domestic rep))) = Some (r * (15 / 100)) \<and>
    v (m_amount (ac_allocated (mr_allocation rep))) = Some (of_int \<lfloor>r * 32\<rfloor> / 100) \<and>
    (ac_reconciles (mr_allocation rep) \<longleftrightarrow> round_half_even (r * 32) = \<lfloor>r * 32\<rfloor>)"
  by (rule decimal_arith.accounting_value[OF assms])

text \<open>The month in the source: 87792.60 of revenue, 28093.632 of profit, of which 28093.63 are allocated.\<close>

lemma fits28_sums: "list_all fits28 (map (\<lambda>n. sum_list (take n ts)) [0..<length ts + 1]) \<Longrightarrow> \<forall>n. fits28 (sum_list (take n ts))"
proof
  fix n assume a: "list_all fits28 (map (\<lambda>n. sum_list (take n ts)) [0..<length ts + 1])"
  have "sum_list (take n ts) = sum_list (take (min n (length ts)) ts)" by (simp add: min_def)
  moreover have "min n (length ts) \<in> set [0..<length ts + 1]" by auto
  ultimately show "fits28 (sum_list (take n ts))" using a unfolding list_all_iff set_map by (metis imageI)
qed

lemma fits28_cents: "\<bar>k\<bar> < 10 ^ 28 \<Longrightarrow> n \<le> 28 \<Longrightarrow> fits28 (of_int k / 10 ^ n)"
  by (rule fits28I[of _ k n]) (auto simp: dec_limit_def)

lemma sales_lines_Cons:
  assumes "decimal_literal p = Some a" "\<bar>q\<bar> < 2 ^ 53" "fits28 (a * of_int q)" "sales_lines sales ts"
  shows "sales_lines (\<lparr>sl_sku = sku, sl_unitPrice = p, sl_quantity = Fin (of_int q)\<rparr> # sales) (a * of_int q # ts)"
  using assms unfolding sales_lines_def list_all2_Cons by auto

lemma sales_lines_Nil: "sales_lines [] []"
  by (simp add: sales_lines_def)

theorem accounting_exact_witness:
  "\<exists>rep. accounting_main ref_decimal SALES = Inr rep \<and> ref_val (m_amount (mr_revenue rep)) = Some (8779260 / 100) \<and>
    ref_val (m_amount (ac_allocated (mr_allocation rep))) = Some (2809363 / 100) \<and> ac_reconciles (mr_allocation rep)"
proof -
  let ?ts = "[3599760 / 100, 30195, 21600 :: rat]"
  have f: "fits28 (of_int k / 10 ^ n)" if "\<bar>k\<bar> < 10 ^ 28" "n \<le> 28" for k n using that by (rule fits28_cents)
  have lits: "decimal_literal ''149.99'' = Some (14999 / 100)" "decimal_literal ''49.50'' = Some (4950 / 100)"
    "decimal_literal ''1200.00'' = Some 1200" by code_simp+
  have "sales_lines SALES [14999 / 100 * of_int 240, 4950 / 100 * of_int 610, 1200 * of_int 18]"
    using f[of 3599760 2] f[of 30195 0] f[of 21600 0]
      sales_lines_Cons[OF lits(1) _ _ sales_lines_Cons[OF lits(2) _ _ sales_lines_Cons[OF lits(3) _ _ sales_lines_Nil]], of 240 610 18]
    by (simp add: SALES_def)
  then have lines: "sales_lines SALES ?ts" by simp
  have sums: "\<forall>n. fits28 (sum_list (take n ?ts))"
    using f[of 0 0] f[of 3599760 2] f[of 6619260 2] f[of 8779260 2] by (intro fits28_sums) (simp add: upt_rec)
  have n: "\<lfloor>14046816 / 5 :: rat\<rfloor> = 2809363" "round_half_even (14046816 / 5) = 2809363"
    by (simp_all add: floor_eq_iff round_half_even_eqI)
  show ?thesis
    using accounting_exact[OF ref.decimal_arith_axioms lines _ sums refl]
      f[of 0 0] f[of 8779260 2] f[of 28093632 3] f[of 28093632 1] f[of 16680594 3] f[of 104473194 3] f[of 1316889 2] f[of 10096149 2]
    by (auto simp: SALES_def n)
qed

text \<open>A month with a single sale of five cents: the shares are right, and the program reports a bug.\<close>

lemma reconciliation_false_alarm:
  "\<exists>rep. accounting_main ref_decimal [\<lparr>sl_sku = ''PIN'', sl_unitPrice = ''0.05'', sl_quantity = Fin 1\<rparr>] = Inr rep \<and>
    \<not> ac_reconciles (mr_allocation rep)"
proof -
  have f: "fits28 (of_int k / 10 ^ n)" if "\<bar>k\<bar> < 10 ^ 28" "n \<le> 28" for k n using that by (rule fits28_cents)
  have lit: "decimal_literal ''0.05'' = Some (5 / 100)" by code_simp
  have lines: "sales_lines [\<lparr>sl_sku = ''PIN'', sl_unitPrice = ''0.05'', sl_quantity = Fin 1\<rparr>] [5 / 100]"
    using sales_lines_Cons[OF lit _ _ sales_lines_Nil, of 1] f[of 5 2] by simp
  have sums: "\<forall>n. fits28 (sum_list (take n [5 / 100]))"
    using f[of 0 0] f[of 5 2] by (intro fits28_sums) (simp add: upt_rec)
  have n: "\<lfloor>8 / 5 :: rat\<rfloor> = 1" "round_half_even (8 / 5) = 2"
    by (simp_all add: floor_eq_iff round_half_even_eqI)
  show ?thesis
    using ref.accounting_value[OF lines _ sums refl]
      f[of 0 0] f[of 5 2] f[of 16 3] f[of 16 1] f[of 95 4] f[of 595 4] f[of 75 4] f[of 575 4]
    by (auto simp: n)
qed

end
