(* ===== verification/Storefront.thy ===== *)
theory Storefront
  imports Subscribe Testing Accounting Printing
begin

text \<open>
  The program of the subscription example (examples/ecommerce/src/index.ts): the mock gateway, one
  subscription in a test context, and the receipt printed from it and from the gateway's records. \<open>intl\<close> is
  the platform's number formatter, \<open>SubscribeInput\<close> the validation library's parser of the order. The report holds the
  texts the program prints; the listener of the event only logs.
\<close>

section \<open>The program\<close>

definition pro_order :: subscribe_input where
  "pro_order = \<lparr>sb_plan = Pro, sb_billingCycle = Monthly, sb_customerEmail = ''ada@acme.test'', sb_country = ''DE''\<rparr>"

definition subscribe_json :: "subscribe_input \<Rightarrow> json" where
  "subscribe_json data = JObj [(''plan'', JStr (plan_name (sb_plan data))), (''billingCycle'', JStr (cycle_name (sb_billingCycle data))),
     (''customerEmail'', JStr (sb_customerEmail data)), (''country'', JStr (sb_country data))]"

record storefront_report =
  sf_receipt :: subscription_receipt
  sf_subtotal :: string
  sf_rate :: string
  sf_tax :: string
  sf_total :: string
  sf_charges :: nat
  sf_charged :: "string option"
  sf_refunds :: nat

definition print_money :: "(string \<Rightarrow> string \<Rightarrow> (number \<Rightarrow> string) result) \<Rightarrow> 'd decimal_lib \<Rightarrow> string \<Rightarrow> string \<Rightarrow> string result" where
  "print_money intl D a currency = and_then (money D (StrArg a) currency) (\<lambda>m. money_format intl D m ''en-US'')"

definition storefront_print :: "(string \<Rightarrow> string \<Rightarrow> (number \<Rightarrow> string) result) \<Rightarrow> 'd decimal_lib \<Rightarrow> subscription_receipt
    \<Rightarrow> 'd money mock \<Rightarrow> storefront_report result" where
  "storefront_print intl D receipt gateway =
     and_then (print_money intl D (sr_subtotal receipt) (sr_currency receipt)) (\<lambda>subtotal.
     and_then (print_money intl D (sr_tax receipt) (sr_currency receipt)) (\<lambda>tax.
     and_then (print_money intl D (sr_total receipt) (sr_currency receipt)) (\<lambda>total.
     and_then (case getLastCharge gateway of None \<Rightarrow> Inr None
               | Some charge \<Rightarrow> and_then (money_format intl D (cp_amount charge) ''en-US'') (\<lambda>t. Inr (Some t))) (\<lambda>charged.
       Inr \<lparr>sf_receipt = receipt, sf_subtotal = subtotal, sf_rate = to_fixed 0 (js_mul (sr_taxRate receipt) (Fin 100)),
         sf_tax = tax, sf_total = total, sf_charges = getChargeCount gateway, sf_charged = charged,
         sf_refunds = getRefundCount gateway\<rparr>))))"

definition storefront_main :: "(string \<Rightarrow> string \<Rightarrow> (number \<Rightarrow> string) result) \<Rightarrow> 'd decimal_lib \<Rightarrow> 's factories \<Rightarrow> string
    \<Rightarrow> subscribe_input validator \<Rightarrow> (int \<Rightarrow> string) \<Rightarrow> string \<Rightarrow> int \<Rightarrow> int \<Rightarrow> int
    \<Rightarrow> storefront_report result \<times> 'd money mock subscription_world" where
  "storefront_main intl D fs level SubscribeInput isoDate fresh hr created now =
     (let (gateway, g) = createStripeMock created;
          (r, w) = withContext fresh hr
            \<lparr>tc_tenantId = ''org_acme'', tc_userId = Some ''usr_ada'', tc_role = Some ''billing'', tc_traceId = None\<rparr>
            (\<lambda>s. subscribe_action fs level SubscribeInput D gateway isoDate now (Some (subscribe_json pro_order)) s
               \<lparr>sw_pay = g, sw_events = []\<rparr>)
      in (and_then r (\<lambda>receipt. storefront_print intl D receipt (sw_pay w)), w))"

section \<open>Its journal\<close>

text \<open>The insertion of the journal carries its values as parameters and no tenant filter.\<close>

definition journal_text :: string where
  "journal_text = ''INSERT INTO subscriptions (id, email, plan, amount, currency)'' @ [CHR 0x0A] @ replicate 4 (CHR 0x09) @
     ''VALUES ($1, $2, $3, $4, $5)''"

lemma journal_template:
  "template_loop subscription_strings [JStr a, JStr b, JStr c, JStr d, JStr e] ([], []) =
     Inr (hd subscription_strings @ ''$1, $2, $3, $4, $5)'' @ [CHR 0x0A] @ replicate 3 (CHR 0x09), [JStr a, JStr b, JStr c, JStr d, JStr e])"
proof -
  have "nat_to_string (Suc 0) = ''1''" "nat_to_string (Suc (Suc 0)) = ''2''" "nat_to_string (Suc (Suc (Suc 0))) = ''3''"
    "nat_to_string (Suc (Suc (Suc (Suc 0)))) = ''4''" "nat_to_string (Suc (Suc (Suc (Suc (Suc 0))))) = ''5''" by code_simp+
  then show ?thesis by (simp add: subscription_strings_def isFragment_def add_value_def Let_def)
qed

lemma subscription_journal:
  "subscription_journal D (Some st) totals data payment = Inr
     \<lparr>sq_text = journal_text, sq_params = [JStr (cr_id payment), JStr (sb_customerEmail data), JStr (plan_name (sb_plan data)),
        JStr (amount D (tr_grandTotal totals)), JStr (tr_currency totals)], sq_tenantId = st_tenantId st\<rparr>"
proof -
  have t: "trim (hd subscription_strings @ ''$1, $2, $3, $4, $5)'' @ [CHR 0x0A] @ replicate 3 (CHR 0x09)) = journal_text" by code_simp
  have i: "\<not> starts_with (to_upper (trim journal_text)) ''SELECT''" by code_simp
  show ?thesis
    by (simp add: subscription_journal_def sql_tag_def getTenantId_def getContext_def journal_template t injectFilters_def i
        del: append.simps)
qed

section \<open>What it prints\<close>

text \<open>A subscription on a new mock gateway succeeds, charges once and refunds nothing.\<close>

lemma subscribe_on_mock:
  assumes "subscription_totals D data = Inr totals"
  shows "\<exists>receipt g. subscribe D (mock_provider name) isoDate now data (Some st) \<lparr>sw_pay = createMockGateway created, sw_events = []\<rparr> =
      (Inr receipt, \<lparr>sw_pay = g, sw_events = [subscription_created receipt]\<rparr>) \<and>
    sr_plan receipt = sb_plan data \<and> sr_currency receipt = tr_currency totals \<and> sr_subtotal receipt = amount D (tr_subtotal totals) \<and>
    sr_tax receipt = amount D (tr_taxTotal totals) \<and> sr_total receipt = amount D (tr_grandTotal totals) \<and>
    sr_taxRate receipt = tr_taxRate totals \<and> sr_journalSql receipt = journal_text \<and>
    getLastCharge g = Some (subscription_charge totals data now) \<and> getChargeCount g = 1 \<and> getRefundCount g = 0"
  using assms
  by (simp add: subscribe_def transaction_def getTenantId_def getTraceId_def getContext_def transaction_in_def subscription_prog_def
      tx_charge_def tx_issue_def mock_provider_def mock_charge_def createMockGateway_def mock_record_def subscription_journal
      getLastCharge_def getChargeCount_def getRefundCount_def map_filter_def Let_def)

text \<open>The rate of 19% is not a double; a hundred times it is 19 again.\<close>

lemma expo_eqI:
  assumes "2 powi e \<le> \<bar>r\<bar>" "\<bar>r\<bar> < 2 powi (e + 1)"
  shows "expo 2 r = e"
proof -
  have "0 < \<bar>r\<bar>" using assms(1) by (rule less_le_trans[rotated]) simp
  then have b: "2 powi expo 2 r \<le> \<bar>r\<bar>" "\<bar>r\<bar> < 2 powi (expo 2 r + 1)" using expo_bounds[of 2 r] by simp_all
  from assms(1) b(2) have "e < expo 2 r + 1" by (intro powi_less_imp[of 2]) auto
  moreover from b(1) assms(2) have "expo 2 r < e + 1" by (intro powi_less_imp[of 2]) auto
  ultimately show ?thesis by simp
qed

lemma percentage: "to_fixed 0 (js_mul (js_div_by (Fin 1900) 10000) (Fin 100)) = ''19''"
proof -
  let ?w = "3422735716801577 / 18014398509481984 :: rat" and ?x = "85568392920039425 / 4503599627370496 :: rat"
  have e: "expo 2 (19 / 100) = - 3" "expo 2 ?w = - 3" "expo 2 ?x = 4" "expo 2 19 = 4"
    by (rule expo_eqI; simp add: power_int_def abs_if power_divide)+
  have u: "(2 :: rat) powi (- 55) = 1 / 36028797018963968" "(2 :: rat) powi (- 48) = 1 / 281474976710656" by (simp_all add: power_int_def power_divide)
  have r: "round_half_even (171136785840078848 / 25) = 6845471433603154" "round_half_even (85568392920039425 / 16) = 5348024557502464"
    by (rule round_half_even_eqI; simp)+
  have "to_double (19 / 100) = Fin ?w"
    unfolding to_double_def Let_def e(1) using e(2) u(1) r(1) by simp
  moreover have "to_double ?x = Fin 19"
    unfolding to_double_def Let_def e(3) using e(4) u(2) r(2) by simp
  ultimately have "js_mul (js_div_by (Fin 1900) 10000) (Fin 100) = Fin 19" by simp
  moreover have "to_fixed 0 (Fin 19) = ''19''" by code_simp
  ultimately show ?thesis by simp
qed

text \<open>An amount of whole cents that was printed and read again is formatted as it was.\<close>

lemma print_money_cents:
  assumes "decimal_arith D v" "v (m_amount m) = Some (of_int k / 100)" "m_currency m = ''USD''" "intl ''en-US'' ''USD'' = Inr fmt"
    and "decimal_literal (fixed_str k 2) = Some (of_int k / 100)"
  shows "amount D m = fixed_str k 2" "money_format intl D m ''en-US'' = Inr (fmt (js_Number (fixed_str k 2)))"
    "print_money intl D (amount D m) ''USD'' = Inr (fmt (js_Number (fixed_str k 2)))"
proof -
  have dec: "getCurrencyDecimals ''USD'' = 2" "to_upper ''USD'' = ''USD''" by code_simp+
  show a: "amount D m = fixed_str k 2"
    using decimal_arith.amount_rounded[OF assms(1,2)] assms(3) dec by simp
  then show f: "money_format intl D m ''en-US'' = Inr (fmt (js_Number (fixed_str k 2)))"
    by (simp add: money_format_def assms(3,4))
  obtain m' where m': "money D (StrArg (fixed_str k 2)) ''USD'' = Inr m'" "v (m_amount m') = Some (of_int k / 100)" "m_currency m' = ''USD''"
    using decimal_arith.money_of_arg[OF assms(1), of "StrArg (fixed_str k 2)" "of_int k / 100" "''USD''", unfolded arg_value.simps dec(2),
        OF assms(5)] by blast
  have "amount D m' = fixed_str k 2"
    using decimal_arith.amount_rounded[OF assms(1) m'(2)] m'(3) dec by simp
  then show "print_money intl D (amount D m) ''USD'' = Inr (fmt (js_Number (fixed_str k 2)))"
    by (simp add: print_money_def a m'(1,3) money_format_def assms(4))
qed

text \<open>With any number formatter the receipt shows 79.00, 19% and 15.01 of tax, and 94.01 in total; that is
  what the gateway was charged, once, and nothing was refunded; one event was emitted.\<close>

lemma storefront_receipt:
  assumes "decimal_arith D v" "jm_wf fs" "intl ''en-US'' ''USD'' = Inr fmt"
    and "SubscribeInput (Some (subscribe_json pro_order)) = Inr pro_order"
  shows "\<exists>rep w. storefront_main intl D fs level SubscribeInput isoDate fresh hr created now = (Inr rep, w) \<and>
    sf_subtotal rep = fmt (js_Number ''79.00'') \<and> sf_rate rep = ''19'' \<and> sf_tax rep = fmt (js_Number ''15.01'') \<and>
    sf_total rep = fmt (js_Number ''94.01'') \<and> sf_charges rep = 1 \<and> sf_charged rep = Some (sf_total rep) \<and> sf_refunds rep = 0 \<and>
    sr_journalSql (sf_receipt rep) = journal_text \<and>
    sw_events w = [(''subscription.created'', JObj [(''subscriptionId'', JStr (sr_subscriptionId (sf_receipt rep))),
      (''plan'', JStr ''pro''), (''total'', JStr ''94.01'')])]"
proof -
  have rate: "resolveRateBP \<lparr>td_country = sb_country pro_order, td_state = None, td_vatId = None\<rparr> = 1900" by code_simp
  have price: "plan_price (sb_plan pro_order) (sb_billingCycle pro_order) = 79" by (simp add: pro_order_def)
  obtain t where t: "subscription_totals D pro_order = Inr t" "v (m_amount (tr_subtotal t)) = Some (of_int 7900 / 100)"
      "v (m_amount (tr_taxTotal t)) = Some (of_int 1501 / 100)" "v (m_amount (tr_grandTotal t)) = Some (of_int 9401 / 100)"
      "m_currency (tr_subtotal t) = ''USD''" "m_currency (tr_taxTotal t) = ''USD''" "m_currency (tr_grandTotal t) = ''USD''"
      "tr_currency t = ''USD''" "tr_taxRate t = js_div_by (Fin (of_int 1900)) 10000"
    using subscription_totals_exact[OF assms(1), of pro_order] unfolding rate price by auto
  have str: "fixed_str 7900 2 = ''79.00''" "fixed_str 1501 2 = ''15.01''" "fixed_str 9401 2 = ''94.01''" by code_simp+
  have lits: "decimal_literal (fixed_str 7900 2) = Some (of_int 7900 / 100)" "decimal_literal (fixed_str 1501 2) = Some (of_int 1501 / 100)"
    "decimal_literal (fixed_str 9401 2) = Some (of_int 9401 / 100)" by code_simp+
  note print = print_money_cents[where intl = intl and k = 7900, OF assms(1) t(2,5) assms(3) lits(1)] print_money_cents[where intl = intl and k = 1501, OF assms(1) t(3,6) assms(3) lits(2)]
    print_money_cents[where intl = intl and k = 9401, OF assms(1) t(4,7) assms(3) lits(3)]
  note print = print[unfolded str]
  define st where "st = \<lparr>st_traceId = fresh, st_tenantId = ''org_acme'', st_userId = Some ''usr_ada'', st_role = ''billing'',
    st_startTime = hr, st_origin = OriginHttp\<rparr>"
  obtain receipt g where r: "subscribe D (mock_provider ''stripe'') isoDate now pro_order (Some st)
        \<lparr>sw_pay = createMockGateway created, sw_events = []\<rparr> = (Inr receipt, \<lparr>sw_pay = g, sw_events = [subscription_created receipt]\<rparr>)"
      "sr_plan receipt = sb_plan pro_order" "sr_currency receipt = tr_currency t" "sr_subtotal receipt = amount D (tr_subtotal t)"
      "sr_tax receipt = amount D (tr_taxTotal t)" "sr_total receipt = amount D (tr_grandTotal t)" "sr_taxRate receipt = tr_taxRate t"
      "sr_journalSql receipt = journal_text" "getLastCharge g = Some (subscription_charge t pro_order now)"
      "getChargeCount g = 1" "getRefundCount g = 0"
    using subscribe_on_mock[OF t(1)] by blast
  have action: "subscribe_action fs level SubscribeInput D (mock_provider ''stripe'') isoDate now (Some (subscribe_json pro_order)) (Some st) w
      = subscribe D (mock_provider ''stripe'') isoDate now pro_order (Some st) w" for w
    unfolding subscribe_action_def using assms(2,4) by (simp only: state_action_accepted)
  have p: "sb_plan pro_order = Pro" by (simp add: pro_order_def)
  show ?thesis
    using r p print t(8,9) percentage
    by (simp add: storefront_main_def createStripeMock_def withContext_def runWithContext_def st_def[symmetric] action
        storefront_print_def subscription_charge_def subscription_created_def)
qed

end
