(* ===== verification/Chat.thy ===== *)
theory Chat
  imports Context
begin

text \<open>
  The chat application (examples/websocket-chat/src/index.ts): the in-memory driver behind the socket
  contexts of packages/core, and the message handler. Several sockets share one driver; a step is one
  operation of one socket. The \<open>Set\<close> of a room is a list without repetitions in the order of insertion.
\<close>

section \<open>The driver\<close>

datatype envelope_kind = EnvSend | EnvBroadcast

record envelope =
  ev_connectionId :: string
  ev_kind :: envelope_kind
  ev_event :: string
  ev_payload :: json

record driver =
  dr_members :: "(string, string list) jsmap"
  dr_connections :: "string list"
  dr_log :: "envelope list"

definition new_driver :: driver where
  "new_driver = \<lparr>dr_members = [], dr_connections = [], dr_log = []\<rparr>"

definition set_add :: "'a \<Rightarrow> 'a list \<Rightarrow> 'a list" where
  "set_add x xs = (if x \<in> set xs then xs else xs @ [x])"

definition set_delete :: "'a \<Rightarrow> 'a list \<Rightarrow> 'a list" where
  "set_delete x xs = filter (\<lambda>y. y \<noteq> x) xs"

definition roomMembers :: "string \<Rightarrow> driver \<Rightarrow> string list" where
  "roomMembers room d = (case jm_get (dr_members d) room of Some xs \<Rightarrow> xs | None \<Rightarrow> [])"

fun drive :: "json driver_call \<Rightarrow> driver \<Rightarrow> driver" where
  "drive (DrvSend conn event payload) d =
     d\<lparr>dr_log := dr_log d @ [\<lparr>ev_connectionId = conn, ev_kind = EnvSend, ev_event = event, ev_payload = payload\<rparr>]\<rparr>"
| "drive (DrvBroadcast room event payload) d =
     d\<lparr>dr_log := dr_log d @ map (\<lambda>conn. \<lparr>ev_connectionId = conn, ev_kind = EnvBroadcast, ev_event = event, ev_payload = payload\<rparr>)
        (roomMembers room d)\<rparr>"
| "drive (DrvJoin conn room) d =
     d\<lparr>dr_connections := set_add conn (dr_connections d),
       dr_members := jm_set room (set_add conn (roomMembers room d)) (dr_members d)\<rparr>"
| "drive (DrvLeave conn room) d =
     (case jm_get (dr_members d) room of
        Some xs \<Rightarrow> d\<lparr>dr_members := jm_set room (set_delete conn xs) (dr_members d)\<rparr>
      | None \<Rightarrow> d)"
| "drive (DrvDisconnect conn) d =
     d\<lparr>dr_connections := set_delete conn (dr_connections d),
       dr_members := map (\<lambda>(room, xs). (room, set_delete conn xs)) (dr_members d)\<rparr>"

section \<open>Sockets on one driver\<close>

text \<open>An operation of a socket context reaches the driver through the calls it makes.\<close>

definition on_socket :: "json socket_op \<Rightarrow> json socket_state \<times> driver \<Rightarrow> unit result \<times> json socket_state \<times> driver" where
  "on_socket op sd = (case sd of (s, d) \<Rightarrow>
     let (r, s') = socket_step op s
     in (r, s', foldl (\<lambda>d c. drive c d) d (drop (length (sk_calls s)) (sk_calls s'))))"

record chat_data =
  cd_room :: string
  cd_text :: string

definition chat_payload :: "string option \<Rightarrow> chat_data \<Rightarrow> json" where
  "chat_payload userId data = JObj
     [(''room'', JStr (cd_room data)),
      (''from'', JStr (case userId of Some u \<Rightarrow> u | None \<Rightarrow> ''anonymous'')),
      (''text'', JStr (cd_text data))]"

text \<open>The handler's result and the event it emits.\<close>

definition handleMessage :: "string option \<Rightarrow> chat_data \<Rightarrow> json socket_state \<times> driver
    \<Rightarrow> unit result \<times> (json socket_state \<times> driver) \<times> (string \<times> json) list" where
  "handleMessage userId data sd =
     (case on_socket (SockBroadcast ''chat.message'' (chat_payload userId data)) sd of
        (Inl e, sd') \<Rightarrow> (Inl e, sd', [])
      | (Inr _, sd') \<Rightarrow> (Inr (), sd', [(''chat.message'', chat_payload userId data)]))"

record chat =
  ch_sockets :: "(string, json socket_state) jsmap"
  ch_driver :: driver

datatype chat_op = Connect string | Operation string "json socket_op"

fun chat_step :: "chat_op \<Rightarrow> chat \<Rightarrow> chat" where
  "chat_step (Connect conn) w = w\<lparr>ch_sockets := jm_set conn (buildSocketContext conn None) (ch_sockets w)\<rparr>"
| "chat_step (Operation conn op) w =
     (case jm_get (ch_sockets w) conn of
        None \<Rightarrow> w
      | Some s \<Rightarrow> (let (r, s', d') = on_socket op (s, ch_driver w)
          in w\<lparr>ch_sockets := jm_set conn s' (ch_sockets w), ch_driver := d'\<rparr>))"

definition new_chat :: chat where
  "new_chat = \<lparr>ch_sockets = [], ch_driver = new_driver\<rparr>"

definition chat_run :: "chat_op list \<Rightarrow> chat" where
  "chat_run ops = foldl (\<lambda>w op. chat_step op w) new_chat ops"

section \<open>The driver and the sockets agree\<close>

text \<open>The invariant: rooms have no repeated members, members are connected, and a connected socket is
  a member of the room it is in.\<close>

definition driver_ok :: "driver \<Rightarrow> bool" where
  "driver_ok d \<longleftrightarrow> jm_wf (dr_members d) \<and> (\<forall>room. distinct (roomMembers room d) \<and> set (roomMembers room d) \<subseteq> set (dr_connections d))"

definition chat_ok :: "chat \<Rightarrow> bool" where
  "chat_ok w \<longleftrightarrow> driver_ok (ch_driver w) \<and> (\<forall>conn s. jm_get (ch_sockets w) conn = Some s \<longrightarrow> sk_connectionId s = conn \<and>
     (\<forall>room. sk_room s = Some room \<longrightarrow> conn \<in> set (dr_connections (ch_driver w)) \<longrightarrow> conn \<in> set (roomMembers room (ch_driver w))))"

lemma set_add_props [simp]: "set (set_add x xs) = insert x (set xs)" "distinct (set_add x xs) \<longleftrightarrow> distinct xs"
  by (auto simp: set_add_def)

lemma set_delete_props [simp]: "set (set_delete x xs) = set xs - {x}" "distinct xs \<Longrightarrow> distinct (set_delete x xs)"
  by (auto simp: set_delete_def)

lemma drive_members:
  assumes "jm_wf (dr_members d)"
  shows "roomMembers room (drive c d) = (case c of
      DrvJoin conn r \<Rightarrow> if r = room then set_add conn (roomMembers room d) else roomMembers room d
    | DrvLeave conn r \<Rightarrow> if r = room then set_delete conn (roomMembers room d) else roomMembers room d
    | DrvDisconnect conn \<Rightarrow> set_delete conn (roomMembers room d)
    | _ \<Rightarrow> roomMembers room d)"
proof (cases c)
  case (DrvDisconnect conn)
  have "jm_get (map (\<lambda>(room, xs). (room, set_delete conn xs)) m) room = map_option (set_delete conn) (jm_get m room)" for m
    by (induction m) auto
  then show ?thesis by (simp add: DrvDisconnect roomMembers_def set_delete_def split: option.splits)
next
  case (DrvLeave conn r)
  then show ?thesis using assms by (auto simp: roomMembers_def set_delete_def split: option.splits)
qed (use assms in \<open>auto simp: roomMembers_def set_add_def\<close>)

lemma drive_connections:
  "dr_connections (drive c d) = (case c of DrvJoin conn r \<Rightarrow> set_add conn (dr_connections d)
    | DrvDisconnect conn \<Rightarrow> set_delete conn (dr_connections d) | _ \<Rightarrow> dr_connections d)"
  by (cases c) (auto split: option.splits)

lemma drive_wf: "jm_wf (dr_members d) \<Longrightarrow> jm_wf (dr_members (drive c d))"
proof (cases c)
  case (DrvDisconnect conn)
  moreover assume "jm_wf (dr_members d)"
  ultimately show ?thesis by (simp add: jm_wf_def jm_keys_def comp_def case_prod_beta)
qed (auto split: option.splits)

lemma drive_ok: "driver_ok d \<Longrightarrow> driver_ok (drive c d)"
  unfolding driver_ok_def
  by (intro conjI allI; (elim conjE, erule drive_wf)?)
    (auto simp: drive_members drive_connections split: driver_call.splits)

lemma on_socket_eq:
  "on_socket op (s, d) = (fst (socket_step op s), snd (socket_step op s),
    (case op of
       SockSend event payload \<Rightarrow> drive (DrvSend (sk_connectionId s) event payload) d
     | SockBroadcast event payload \<Rightarrow> (case sk_room s of None \<Rightarrow> d | Some room \<Rightarrow> drive (DrvBroadcast room event payload) d)
     | SockJoin room \<Rightarrow> drive (DrvJoin (sk_connectionId s) room) d
     | SockLeave room \<Rightarrow> drive (DrvLeave (sk_connectionId s) room) d
     | SockDisconnect \<Rightarrow> drive (DrvDisconnect (sk_connectionId s)) d))"
  by (cases op) (auto simp: on_socket_def sk_call_def Let_def split: option.splits)

declare drive.simps [simp del]

lemma socket_step_id: "sk_connectionId (snd (socket_step op s)) = sk_connectionId s"
  by (cases op) (auto simp: sk_call_def Let_def split: option.splits)

lemma socket_step_room:
  "sk_room (snd (socket_step op s)) = (case op of SockJoin room \<Rightarrow> Some room
    | SockLeave room \<Rightarrow> if sk_room s = Some room then None else sk_room s | _ \<Rightarrow> sk_room s)"
  by (cases op) (auto simp: sk_call_def Let_def split: option.splits)

lemma chat_step_ok:
  assumes "chat_ok w"
  shows "chat_ok (chat_step op w)"
proof (cases op)
  case (Connect conn)
  with assms show ?thesis by (auto simp: chat_ok_def buildSocketContext_def)
next
  case (Operation conn sop)
  show ?thesis
  proof (cases "jm_get (ch_sockets w) conn")
    case None
    with assms Operation show ?thesis by simp
  next
    case (Some s)
    define d where "d = ch_driver w"
    obtain d' where d': "on_socket sop (s, d) = (fst (socket_step sop s), snd (socket_step sop s), d')"
      by (simp add: on_socket_eq)
    have id: "sk_connectionId s = conn" and ok: "driver_ok d" using assms Some by (simp_all add: chat_ok_def d_def)
    have wf: "jm_wf (dr_members d)" using ok by (simp add: driver_ok_def)
    have "driver_ok d'" using d' ok drive_ok by (auto simp: on_socket_eq split: socket_op.splits option.splits)
    moreover have "x \<in> set (roomMembers room d')"
      if "jm_get (jm_set conn (snd (socket_step sop s)) (ch_sockets w)) x = Some t" "sk_room t = Some room"
        "x \<in> set (dr_connections d')" for x t room
    proof -
      have old: "x \<in> set (dr_connections d) \<Longrightarrow> jm_get (ch_sockets w) x = Some u \<Longrightarrow> sk_room u = Some room \<Longrightarrow>
          x \<in> set (roomMembers room d)" for u
        using assms by (auto simp: chat_ok_def d_def)
      from that old[of s] old[of t] d' id Some show ?thesis
        by (cases sop) (auto simp: on_socket_eq drive_members[OF wf] drive_connections socket_step_room simp del: socket_step.simps
            split: if_splits option.splits)
    qed
    moreover have "sk_connectionId t = x"
      if "jm_get (jm_set conn (snd (socket_step sop s)) (ch_sockets w)) x = Some t" for x t
      using that assms id socket_step_id[of sop s] by (auto simp: chat_ok_def split: if_splits)
    ultimately have "chat_ok (w\<lparr>ch_sockets := jm_set conn (snd (socket_step sop s)) (ch_sockets w), ch_driver := d'\<rparr>)"
      by (auto simp: chat_ok_def)
    with d' Operation Some show ?thesis by (simp add: d_def)
  qed
qed

lemma chat_run_ok: "chat_ok (chat_run ops)"
proof -
  have "chat_ok (foldl (\<lambda>w op. chat_step op w) w ops)" if "chat_ok w" for w
    using that chat_step_ok by (induction ops arbitrary: w) auto
  moreover have "chat_ok new_chat"
    by (simp add: chat_ok_def new_chat_def driver_ok_def new_driver_def roomMembers_def jm_wf_def jm_keys_def)
  ultimately show ?thesis by (simp add: chat_run_def)
qed

text \<open>A message reaches everyone in the room, once. After any operations of any sockets, a message of a
  connected socket that is in a room is logged once for every member of the room, the sender
  among them, and for nobody who is not connected; without a room nothing is sent and no event emitted.\<close>

theorem message_reaches_room:
  assumes "w = chat_run ops" and "jm_get (ch_sockets w) conn = Some s" and "conn \<in> set (dr_connections (ch_driver w))"
    and "handleMessage userId data (s, ch_driver w) = (r, (s', d'), events)"
  shows "case sk_room s of
      None \<Rightarrow> (\<exists>e. r = Inl e) \<and> d' = ch_driver w \<and> events = []
    | Some room \<Rightarrow> r = Inr () \<and> events = [(''chat.message'', chat_payload userId data)] \<and>
        (\<exists>conns. distinct conns \<and> conn \<in> set conns \<and> set conns \<subseteq> set (dr_connections (ch_driver w)) \<and>
          set conns = set (roomMembers room (ch_driver w)) \<and>
          dr_log d' = dr_log (ch_driver w) @ map (\<lambda>c. \<lparr>ev_connectionId = c, ev_kind = EnvBroadcast, ev_event = ''chat.message'',
            ev_payload = chat_payload userId data\<rparr>) conns)"
proof -
  have ok: "chat_ok w" using assms(1) chat_run_ok by simp
  show ?thesis
  proof (cases "sk_room s")
    case None
    with assms(4) show ?thesis by (auto simp: handleMessage_def on_socket_eq)
  next
    case (Some room)
    let ?m = "roomMembers room (ch_driver w)"
    have "distinct ?m" "set ?m \<subseteq> set (dr_connections (ch_driver w))" "conn \<in> set ?m"
      using ok assms(2,3) Some by (auto simp: chat_ok_def driver_ok_def)
    with assms(4) Some show ?thesis
      by (auto simp: handleMessage_def on_socket_eq drive.simps intro!: exI[of _ ?m])
  qed
qed

text \<open>A socket that has disconnected keeps its room, so its messages still reach it.\<close>

lemma disconnected_still_broadcasts:
  "let w = chat_run [Connect ''a'', Connect ''b'', Operation ''a'' (SockJoin ''r''), Operation ''b'' (SockJoin ''r''), Operation ''b'' SockDisconnect];
       (r, (s', d'), events) = handleMessage None \<lparr>cd_room = ''r'', cd_text = ''x''\<rparr> (the (jm_get (ch_sockets w) ''b''), ch_driver w)
   in r = Inr () \<and> map ev_connectionId (dr_log d') = [''a'']"
  by code_simp

end
