(* ===== verification/Flagship.thy ===== *)
theory Flagship
  imports App Tax Signature Dedup
begin

text \<open>
  The reference application (examples/flagship-store): the checkout action (actions/checkout.ts) and
  the routes (index.ts), with the Stripe webhook route whose signature is verified over the raw body
  before the event enters the deduplication pipeline. The state is that of the webhook pipeline, of
  the payment provider and the list of emitted events, whose listener only logs. The clock readings,
  random bytes and date formatting a request uses come with it (\<open>platform\<close>). The schema of the
  checkout is the validation library's.
\<close>

section \<open>Checkout\<close>

record cart_item =
  ca_productId :: string
  ca_quantity :: number
  ca_unitPrice :: string

record shipping_address =
  sa_line1 :: string
  sa_city :: string
  sa_postalCode :: string
  sa_country :: string

record checkout_input =
  ch_cartItems :: "cart_item list"
  ch_shippingAddress :: shipping_address

record ('p, 'w) shop =
  sh_pay :: 'p
  sh_events :: "(string \<times> json) list"
  sh_webhooks :: "'w webhooks"

record platform =
  pl_now :: int
  pl_random :: "nat list"
  pl_readings :: readings
  pl_iso :: "int \<Rightarrow> string"

definition cart_lines_of :: "'d decimal_lib \<Rightarrow> cart_item list \<Rightarrow> 'd line_item list result" where
  "cart_lines_of D items = map_result (\<lambda>item. and_then (money D (StrArg (ca_unitPrice item)) ''USD'')
     (\<lambda>price. Inr \<lparr>li_price = price, li_quantity = ca_quantity item\<rparr>)) items"

definition checkout_totals :: "'d decimal_lib \<Rightarrow> checkout_input \<Rightarrow> 'd total_result result" where
  "checkout_totals D data = and_then (cart_lines_of D (ch_cartItems data)) (\<lambda>items.
     calculateTotal D \<lparr>ti_items = items, ti_taxRate = None,
       ti_destination = Some \<lparr>td_country = sa_country (ch_shippingAddress data), td_state = None, td_vatId = None\<rparr>\<rparr>)"

definition checkout_params :: "'d total_result \<Rightarrow> business_user \<Rightarrow> int \<Rightarrow> 'd money charge_params" where
  "checkout_params totals user now =
     \<lparr>cp_amount = tr_grandTotal totals, cp_orderId = ''ord_'' @ nat_to_base 36 (nat now),
      cp_customerEmail = (case bu_email user of Some e \<Rightarrow> e | None \<Rightarrow> bu_id user @ ''@example.test''),
      cp_paymentMethodId = None\<rparr>"

definition journal_strings :: "string list" where
  "journal_strings =
     (let line = [CHR 0x0A] @ replicate 4 (CHR 0x09)
      in [line @ ''INSERT INTO orders (id, user_id, store_id, total_amount, currency, status)'' @ line @ ''VALUES ('',
          '', '', '', '', '', '', '', '', '', '', '')'' @ [CHR 0x0A] @ replicate 3 (CHR 0x09)])"

definition checkout_journal :: "'d decimal_lib \<Rightarrow> als \<Rightarrow> 'd total_result \<Rightarrow> business_user \<Rightarrow> charge_result \<Rightarrow> sql_query result" where
  "checkout_journal D s totals user payment = sql_tag s journal_strings
     [JStr (cr_id payment), JStr (bu_id user), JStr (bu_tenantId user), JStr (amount D (tr_grandTotal totals)),
      JStr (tr_currency totals), JStr ''paid'']"

definition five_days :: int where "five_days = 5 * 24 * 60 * 60 * 1000"

definition order_receipt :: "'d decimal_lib \<Rightarrow> checkout_input \<Rightarrow> 'd total_result \<Rightarrow> charge_result \<Rightarrow> string \<Rightarrow> string \<Rightarrow> json" where
  "order_receipt D data totals payment delivery traceId = JObj
     [(''orderId'', JStr (cr_id payment)),
      (''subtotal'', JStr (amount D (tr_subtotal totals))), (''tax'', JStr (amount D (tr_taxTotal totals))),
      (''total'', JStr (amount D (tr_grandTotal totals))), (''currency'', JStr (tr_currency totals)),
      (''taxRate'', number_json (tr_taxRate totals)),
      (''itemCount'', number_json (foldl (\<lambda>n i. js_add n (ca_quantity i)) (Fin 0) (ch_cartItems data))),
      (''estimatedDelivery'', JStr delivery), (''traceId'', JStr traceId)]"

definition order_placed :: "'d decimal_lib \<Rightarrow> 'd total_result \<Rightarrow> business_user \<Rightarrow> charge_result \<Rightarrow> string \<times> json" where
  "order_placed D totals user payment = (''order.placed'', JObj [(''orderId'', JStr (cr_id payment)),
     (''total'', JStr (amount D (tr_grandTotal totals))), (''userId'', JStr (bu_id user))])"

text \<open>The callback of the transaction gives the receipt and the event it emitted.\<close>

definition checkout_prog :: "'d decimal_lib \<Rightarrow> platform \<Rightarrow> checkout_input \<Rightarrow> string \<Rightarrow> als \<Rightarrow> 'd total_result
    \<Rightarrow> business_user \<Rightarrow> (json \<times> string \<times> json, 'd money) tx_prog" where
  "checkout_prog D pl data traceId s totals user =
     Charge (checkout_params totals user (pl_now pl)) (\<lambda>r. case r of
        Inl e \<Rightarrow> Throw e
      | Inr payment \<Rightarrow>
          (case checkout_journal D s totals user payment of
             Inl e \<Rightarrow> Throw e
           | Inr journal \<Rightarrow> Done (order_receipt D data totals payment (take 10 (pl_iso pl (pl_now pl + five_days))) traceId,
                order_placed D totals user payment)))"

definition processOrder :: "'d decimal_lib \<Rightarrow> ('p, 'd money) provider \<Rightarrow> platform \<Rightarrow> checkout_input
    \<Rightarrow> ('s, checkout_input) ctx_object \<Rightarrow> als \<Rightarrow> ('p, 'w) shop \<Rightarrow> json option result \<times> ('p, 'w) shop" where
  "processOrder D p pl data action s w =
     (case getActiveUser s of
        Inl e \<Rightarrow> (Inl e, w)
      | Inr user \<Rightarrow>
          (case checkout_totals D data of
             Inl e \<Rightarrow> (Inl e, w)
           | Inr totals \<Rightarrow>
               (let traceId = (case ctx_str action ''traceId'' of Some t \<Rightarrow> t | None \<Rightarrow> [])
                in case transaction s p (checkout_prog D pl data traceId s totals user) (sh_pay w) of
                     Inl e \<Rightarrow> (Inl e, w)
                   | Inr out \<Rightarrow>
                       (case to_result out of
                          Inl e \<Rightarrow> (Inl e, w\<lparr>sh_pay := to_world out\<rparr>)
                        | Inr (receipt, event) \<Rightarrow>
                            (Inr (Some receipt), w\<lparr>sh_pay := to_world out, sh_events := sh_events w @ [event]\<rparr>)))))"

text \<open>An order is announced exactly when the checkout returns its receipt.\<close>

lemma checkout_effects:
  "case processOrder D p pl data action s w of
     (Inl _, w') \<Rightarrow> sh_events w' = sh_events w
   | (Inr receipt, w') \<Rightarrow> receipt \<noteq> None \<and> (\<exists>event. sh_events w' = sh_events w @ [event])"
  by (auto simp: processOrder_def Let_def split: sum.splits)

text \<open>A declined charge, which the gateways report in the status and do not throw, is not looked at: the
  customer gets a receipt and the order is announced.\<close>

lemma declined_checkout_is_announced:
  assumes "getActiveUser (Some st) = Inr user" "checkout_totals D data = Inr totals"
    and "pv_charge p (checkout_params totals user (pl_now pl)) (sh_pay w) = (Inr payment, pay)" "cr_status payment = FAILED"
    and "checkout_journal D (Some st) totals user payment = Inr journal"
  shows "\<exists>receipt. processOrder D p pl data action (Some st) w =
      (Inr (Some receipt), w\<lparr>sh_pay := pay, sh_events := sh_events w @ [order_placed D totals user payment]\<rparr>)"
  using assms
  by (simp add: processOrder_def transaction_def transaction_in_def checkout_prog_def tx_charge_def getTenantId_def getTraceId_def
      getContext_def Let_def)

section \<open>Routes\<close>

definition health_route :: "platform \<Rightarrow> 's request_context \<Rightarrow> als \<Rightarrow> ('p, 'w) shop \<Rightarrow> handler_outcome \<times> ('p, 'w) shop" where
  "health_route pl req s w =
     (respond (Inr (Some (JObj [(''status'', JStr ''operational''), (''tenantId'', JStr (ctx_tenant (rc_context req))),
        (''traceId'', case ctx_str (rc_context req) ''traceId'' of Some t \<Rightarrow> JStr t | None \<Rightarrow> JNull),
        (''timestamp'', JStr (pl_iso pl (pl_now pl)))]))), w)"

text \<open>A missing parameter is \<open>undefined\<close>, which JSON leaves out.\<close>

definition order_route :: "'s request_context \<Rightarrow> als \<Rightarrow> ('p, 'w) shop \<Rightarrow> handler_outcome \<times> ('p, 'w) shop" where
  "order_route req s w =
     (respond (Inr (Some (JObj ((case jm_get (rc_params req) ''id'' of Some i \<Rightarrow> [(''orderId'', JStr i)] | None \<Rightarrow> []) @
        [(''tenantId'', JStr (ctx_tenant (rc_context req))), (''status'', JStr ''paid'')])))), w)"

text \<open>The conversion of a value to a string in a template. An object with a property \<open>toString\<close> of
  its own, which JSON can only make something that is not callable, has no primitive value.\<close>

fun json_String :: "json \<Rightarrow> string result" where
  "json_String JNull = Inr ''null''"
| "json_String (JBool b) = Inr (if b then ''true'' else ''false'')"
| "json_String (JNum r) = Inr (number_to_string (Fin r))"
| "json_String (JStr s) = Inr s"
| "json_String (JArr xs) = and_then (map_result (\<lambda>x. if x = JNull then Inr [] else json_String x) xs) (\<lambda>ss. Inr (join '','' ss))"
| "json_String (JObj fs) = (if jm_get fs ''toString'' \<noteq> None
     then Inl (Err (plain_error ''TypeError'' ''Cannot convert object to primitive value'')) else Inr ''[object Object]'')"

definition outcome_name :: "webhook_result \<Rightarrow> string" where
  "outcome_name r = (case r of Processed \<Rightarrow> ''processed'' | Duplicate \<Rightarrow> ''duplicate'' | NoHandler \<Rightarrow> ''no-handler'')"

text \<open>The event as the pipeline takes it: the identifier as its key shows it, and type and payload, which
  only the handler reads, at their declared types.\<close>

definition pipeline_event :: "provider_event \<Rightarrow> webhook_event result" where
  "pipeline_event e = and_then (json_String (pe_eventId e)) (\<lambda>i.
     Inr \<lparr>we_type = (case json_String (pe_type e) of Inr ty \<Rightarrow> ty | Inl _ \<Rightarrow> []), we_payload = (case pe_payload e of JObj fs \<Rightarrow> fs | _ \<Rightarrow> []), we_eventId = i, we_provider = pe_provider e\<rparr>)"

definition webhook_route :: "(string \<Rightarrow> string \<Rightarrow> string) \<Rightarrow> (string \<Rightarrow> json result) \<Rightarrow> stripe_config \<Rightarrow> platform
    \<Rightarrow> 's request_context \<Rightarrow> als \<Rightarrow> ('p, 'w) shop \<Rightarrow> handler_outcome \<times> ('p, 'w) shop" where
  "webhook_route hmac_sha256 parse config pl req s w =
     (let signature = jm_get (rc_headers req) ''stripe-signature''
      in if \<not> truthy signature
         then (respond (Inl (Err (coded_error ''Missing Stripe-Signature header.'' ''MISSING_SIGNATURE'' 400))), w)
         else if \<not> stripe_verifyWebhookSignature hmac_sha256 (pl_now pl) config (rc_rawBody req) (the signature)
         then (respond (Inl (Err (coded_error ''Invalid webhook signature.'' ''INVALID_SIGNATURE'' 400))), w)
         else (case and_then (parse (rc_rawBody req)) (stripe_parseWebhookEvent (pl_random pl) (pl_now pl)) of
                 Inl e \<Rightarrow> (respond (Inl e), w)
               | Inr event \<Rightarrow>
                   (case pipeline_event event of
                      Inl e \<Rightarrow> (respond (Inl e), w)
                    | Inr we \<Rightarrow>
                        (case processWebhook (pl_readings pl) we (sh_webhooks w) of
                           (Inl e, st) \<Rightarrow> (respond (Inl e), w\<lparr>sh_webhooks := st\<rparr>)
                         | (Inr outcome, st) \<Rightarrow>
                             (respond (Inr (Some (JObj [(''received'', JBool True),
                                (''outcome'', JStr (outcome_name outcome)), (''eventId'', pe_eventId event)]))),
                              w\<lparr>sh_webhooks := st\<rparr>)))))"

definition shop_routes :: "'d decimal_lib \<Rightarrow> ('p, 'd money) provider \<Rightarrow> (string \<Rightarrow> string \<Rightarrow> string) \<Rightarrow> (string \<Rightarrow> json result)
    \<Rightarrow> stripe_config \<Rightarrow> checkout_input validator \<Rightarrow> string \<Rightarrow> platform \<Rightarrow> (('p, 'w) shop, context_db) app_routes" where
  "shop_routes D p hmac_sha256 parse config CheckoutInput level pl =
     [(''GET'', ''/api/v1/health'', AppPlain (health_route pl)),
      (''POST'', ''/api/v1/checkout'', AppAction (state_action (register_db []) level CheckoutInput
         (with_data (processOrder D p pl)))),
      (''GET'', ''/api/v1/orders/:id'', AppPlain order_route),
      (''POST'', ''/webhooks/stripe'', AppPlain (webhook_route hmac_sha256 parse config pl))]"

section \<open>A signature ages\<close>

text \<open>Rounding to a double changes a value of at least one by less than a part in 2^52.\<close>

lemma to_double_relative:
  assumes "to_double r = Fin w" "1 \<le> \<bar>r\<bar>"
  shows "\<bar>w - r\<bar> \<le> \<bar>r\<bar> / 2 ^ 52"
proof -
  have r0: "r \<noteq> 0" using assms(2) by auto
  define E where "E = expo 2 r"
  have E: "2 powi E \<le> \<bar>r\<bar>" "\<bar>r\<bar> < 2 powi (E + 1)" using expo_bounds[of 2 r] r0 by (simp_all add: E_def)
  have "(2 :: rat) powi 0 < 2 powi (E + 1)" using assms(2) E(2) by simp
  then have "0 < E + 1" using powi_less_imp[of 2 0 "E + 1"] by (simp del: power_int_0_right)
  then have E0: "max (E - 52) (- 1074) = E - 52" by simp
  define u where "u = (2 :: rat) powi (E - 52)"
  have u: "0 < u" "u = 2 powi E / 2 ^ 52" by (simp_all add: u_def power_int_diff)
  have w: "w = of_int (round_half_even (r / u)) * u"
    using assms(1) r0 E0 by (auto simp: to_double_def Let_def E_def[symmetric] u_def split: if_splits)
  have "\<bar>of_int (round_half_even (r / u)) - r / u\<bar> * u \<le> 1 / 2 * u"
    using round_half_even_error u(1) by (intro mult_right_mono) auto
  moreover have "\<bar>of_int (round_half_even (r / u)) - r / u\<bar> * u = \<bar>w - r\<bar>"
  proof -
    have "(of_int (round_half_even (r / u)) - r / u) * u = w - r" using u(1) by (simp add: w left_diff_distrib)
    then show ?thesis using u(1) by (metis abs_mult abs_of_pos)
  qed
  ultimately have "\<bar>w - r\<bar> \<le> u" using u(1) by simp
  also have "u \<le> \<bar>r\<bar> / 2 ^ 52" using E(1) u(2) by (simp add: divide_right_mono)
  finally show ?thesis .
qed

lemma age_small:
  assumes "\<not> js_less (Fin 300) (js_abs (to_double d))"
  shows "\<bar>d\<bar> < 301"
proof (rule ccontr)
  assume big: "\<not> \<bar>d\<bar> < 301"
  show False
  proof (cases "to_double d")
    case (Fin w)
    have "\<bar>w - d\<bar> \<le> \<bar>d\<bar> / 2 ^ 52" using to_double_relative[OF Fin] big by simp
    moreover have "\<bar>d\<bar> / 2 ^ 52 \<le> \<bar>d\<bar> / 1000" by (intro divide_left_mono) auto
    moreover have "\<bar>w\<bar> \<le> 300" using assms Fin by (auto simp: js_abs_def split: if_splits)
    ultimately show False using big by (auto simp: abs_if split: if_splits)
  qed (use assms in \<open>auto simp: js_abs_def to_double_def Let_def split: if_splits\<close>)
qed

text \<open>A header that verifies at two times verifies them within about ten minutes of each other.\<close>

lemma verified_age:
  assumes "stripe_verifyWebhookSignature hmac now config body sig" "sc_webhookToleranceSeconds config = None"
    and "0 \<le> now" "now < 2 ^ 52"
  shows "\<exists>ts x. ss_timestamp (parseStripeSignatureHeader sig) = Some ts \<and> js_Number ts = Fin x \<and> \<bar>of_int (now div 1000) - x\<bar> < 301"
proof -
  obtain ts where ts: "ss_timestamp (parseStripeSignatureHeader sig) = Some ts" "is_finite (js_Number ts)"
      "\<not> js_less (Fin 300) (stripe_age now (js_Number ts))"
    using assms(1,2) by (auto simp: stripe_verifyWebhookSignature_def Let_def split: if_splits option.splits)
  obtain x where x: "js_Number ts = Fin x" using ts(2) by (auto simp: is_finite_def split: number.splits)
  have f: "js_floor (js_div (num_of_int now) (Fin 1000)) = Fin (of_int (now div 1000))"
    using floor_div_double[of now 1000] assms(3,4) by simp
  have "stripe_age now (Fin x) = js_abs (to_double (of_int (now div 1000) - x))"
    unfolding stripe_age_def f by (simp add: js_sub_def)
  with ts x age_small show ?thesis by metis
qed

lemma verified_twice:
  assumes "stripe_verifyWebhookSignature hmac now config body sig" "stripe_verifyWebhookSignature hmac' now' config body' sig"
    and "sc_webhookToleranceSeconds config = None" "0 \<le> now" "now < 2 ^ 52" "0 \<le> now'" "now' < 2 ^ 52"
  shows "now' < now + 603000"
proof -
  from verified_age[OF assms(1,3-5)] verified_age[OF assms(2,3,6,7)]
  obtain x :: rat where "\<bar>of_int (now div 1000) - x\<bar> < 301" "\<bar>of_int (now' div 1000) - x\<bar> < 301" by fastforce
  then have "(of_int (now' div 1000) :: rat) < of_int (now div 1000 + 602)" by linarith
  then have "now' div 1000 < now div 1000 + 602" by (simp only: of_int_less_iff)
  then show ?thesis by linarith
qed

section \<open>A processed event stays known\<close>

text \<open>The identifier is in the cache until \<open>deadline\<close> at least.\<close>

definition known_until :: "string \<Rightarrow> int \<Rightarrow> 'w webhooks \<Rightarrow> bool" where
  "known_until i deadline st \<longleftrightarrow> jm_wf (wh_cache st) \<and>
     (\<exists>en. jm_get (wh_cache st) (dedup_key i) = Some en \<and> deadline \<le> ce_expiresAt en)"

definition read_before :: "int \<Rightarrow> readings \<Rightarrow> bool" where
  "read_before deadline t \<longleftrightarrow> t_evict t \<le> deadline \<and> t_check t < deadline"

lemma evict_keeps:
  "jm_wf c \<Longrightarrow> jm_get c k = Some en \<Longrightarrow> now \<le> ce_expiresAt en \<Longrightarrow> jm_get (evictExpired now c) k = Some en"
  by (simp add: evictExpired_def jm_get_filter)

lemma evict_wf: "jm_wf c \<Longrightarrow> jm_wf (evictExpired now c)"
  by (simp add: evictExpired_def)

lemma known_is_duplicate:
  assumes "known_until i deadline st" "read_before deadline t" "we_eventId event = i"
  shows "\<exists>st'. processWebhook t event st = (Inr Duplicate, st') \<and> wh_world st' = wh_world st"
proof -
  obtain en where en: "jm_get (wh_cache st) (dedup_key i) = Some en" "deadline \<le> ce_expiresAt en" "jm_wf (wh_cache st)"
    using assms(1) by (auto simp: known_until_def)
  then have "jm_get (evictExpired (t_evict t) (wh_cache st)) (dedup_key i) = Some en" "t_check t < ce_expiresAt en"
    using assms(2) by (auto simp: read_before_def intro!: evict_keeps)
  then show ?thesis using assms(3) by (simp add: processWebhook_def isDuplicate_def Let_def)
qed

lemma known_stays:
  assumes "known_until i deadline st" "read_before deadline t"
  shows "known_until i deadline (snd (processWebhook t event st))"
proof -
  obtain en where en: "jm_get (wh_cache st) (dedup_key i) = Some en" "deadline \<le> ce_expiresAt en" "jm_wf (wh_cache st)"
    using assms(1) by (auto simp: known_until_def)
  then have "jm_get (evictExpired (t_evict t) (wh_cache st)) (dedup_key i) = Some en"
    using assms(2) by (auto simp: read_before_def intro!: evict_keeps)
  then have c: "known_until i deadline (st'\<lparr>wh_cache := evictExpired (t_evict t) (wh_cache st)\<rparr>)" for st' :: "'a webhooks"
    using en evict_wf by (auto simp: known_until_def)
  show ?thesis
  proof (cases "we_eventId event = i")
    case True
    from known_is_duplicate[OF assms True] obtain st' where st': "processWebhook t event st = (Inr Duplicate, st')" by blast
    then have "st' = st\<lparr>wh_cache := evictExpired (t_evict t) (wh_cache st)\<rparr>"
      by (auto simp: processWebhook_def isDuplicate_def Let_def split: if_splits option.splits prod.splits sum.splits)
    with c st' show ?thesis by simp
  next
    case False
    with c[of st] show ?thesis
      by (auto simp: processWebhook_def isDuplicate_def Let_def known_until_def markProcessed_def evict_wf
          split: option.splits prod.splits sum.splits)
  qed
qed

lemma processed_is_known:
  assumes "processWebhook t event st = (Inr Processed, st')" "jm_wf (wh_cache st)"
  shows "known_until (we_eventId event) (t_mark t + DEFAULT_TTL_MS) st'"
  using assms
  by (auto simp: processWebhook_def isDuplicate_def Let_def known_until_def markProcessed_def evict_wf
      split: if_splits option.splits prod.splits sum.splits)

lemma process_wf: "jm_wf (wh_cache st) \<Longrightarrow> jm_wf (wh_cache (snd (processWebhook t event st)))"
  by (auto simp: processWebhook_def isDuplicate_def Let_def markProcessed_def evict_wf
      split: if_splits option.splits prod.splits sum.splits)

section \<open>Requests to the shop\<close>

definition shop_fetch :: "'d decimal_lib \<Rightarrow> ('p, 'd money) provider \<Rightarrow> (string \<Rightarrow> string \<Rightarrow> string) \<Rightarrow> (string \<Rightarrow> json result)
    \<Rightarrow> stripe_config \<Rightarrow> checkout_input validator \<Rightarrow> context_db app_env \<Rightarrow> platform request \<Rightarrow> ('p, 'w) shop
    \<Rightarrow> response \<times> ('p, 'w) shop" where
  "shop_fetch D p hmac_sha256 parse config CheckoutInput e =
     app_fetch (e\<lparr>ae_factories := register_db []\<rparr>) (shop_routes D p hmac_sha256 parse config CheckoutInput (ae_level e))"

lemma webhook_route_state:
  "sh_webhooks (snd (webhook_route hmac parse config pl req s w)) = sh_webhooks w \<or>
   (\<exists>event. sh_webhooks (snd (webhook_route hmac parse config pl req s w)) = snd (processWebhook (pl_readings pl) event (sh_webhooks w)))"
proof (cases "\<exists>we. sh_webhooks (snd (webhook_route hmac parse config pl req s w)) = snd (processWebhook (pl_readings pl) we (sh_webhooks w))")
  case False
  have "sh_webhooks w' = snd (processWebhook (pl_readings pl) we (sh_webhooks w))"
    if "(case processWebhook (pl_readings pl) we (sh_webhooks w) of
      (Inl e, st) \<Rightarrow> (f e, w\<lparr>sh_webhooks := st\<rparr>) | (Inr outcome, st) \<Rightarrow> (g outcome, w\<lparr>sh_webhooks := st\<rparr>)) = (r, w')"
    for we w' r and f g :: "_ \<Rightarrow> handler_outcome"
    using that by (auto split: prod.splits sum.splits)
  with False show ?thesis
    by (cases "webhook_route hmac parse config pl req s w")
      (auto simp: webhook_route_def Let_def split: sum.splits if_splits)
qed simp

lemma processOrder_webhooks: "sh_webhooks (snd (processOrder D p pl data action s w)) = sh_webhooks w"
  by (auto simp: processOrder_def Let_def split: sum.splits prod.splits)

lemma shop_step_webhooks:
  "sh_webhooks (snd (shop_fetch D p hmac parse config CheckoutInput e q w)) = sh_webhooks w \<or>
   (\<exists>event. sh_webhooks (snd (shop_fetch D p hmac parse config CheckoutInput e q w))
     = snd (processWebhook (pl_readings (aq_random q)) event (sh_webhooks w)))"
proof -
  have fs: "jm_wf (register_db [])" by (simp add: register_db_def registerContextService_def jm_wf_def jm_keys_def)
  have checkout: "sh_webhooks (snd (state_action (register_db []) level CheckoutInput (with_data (processOrder D p pl)) data (Some st) w))
      = sh_webhooks w" for level pl data st
  proof (cases "CheckoutInput data")
    case (Inl f)
    then obtain t where "state_action (register_db []) level CheckoutInput (with_data (processOrder D p pl)) data (Some st) w = (Inl t, w)"
      using state_action_rejected by metis
    then show ?thesis by simp
  qed (simp add: state_action_accepted fs processOrder_webhooks)
  have h: "sh_webhooks (state_after h ctx st w) = sh_webhooks w \<or>
      (\<exists>event. sh_webhooks (state_after h ctx st w) = snd (processWebhook (pl_readings (aq_random q)) event (sh_webhooks w)))"
    if "(m, path, h) \<in> set (shop_routes D p hmac parse config CheckoutInput level (aq_random q))" for m path h level ctx st
    using that checkout webhook_route_state[of hmac parse config "aq_random q" ctx "Some st" w]
    by (auto simp: shop_routes_def handler_runs health_route_def order_route_def)
  show ?thesis
    using app_fetch_state[of "e\<lparr>ae_factories := register_db []\<rparr>" "shop_routes D p hmac parse config CheckoutInput (ae_level e)" q w] h
    unfolding shop_fetch_def by metis
qed

text \<open>The \<open>outcome\<close> field of an answer; errors have none.\<close>

definition outcome_of :: "response \<Rightarrow> json option" where
  "outcome_of r = (case rs_body r of JsonBody (Some j) \<Rightarrow> jget j ''outcome'' | _ \<Rightarrow> None)"

lemma errors_have_no_outcome:
  "outcome_of \<lparr>rs_status = n, rs_body = snd (error_response t), rs_headers = hs\<rparr> = None"
  "outcome_of \<lparr>rs_status = n, rs_body = snd (onError t), rs_headers = hs\<rparr> = None"
  by (auto simp: outcome_of_def error_response_def onError_def internal_error_def toJSON_def opt_field_def
      split: thrown.splits option.splits)

text \<open>A request that reaches the webhook route with a given header and body.\<close>

definition stripe_delivery :: "context_db app_env \<Rightarrow> platform request \<Rightarrow> string \<Rightarrow> string \<Rightarrow> bool" where
  "stripe_delivery e q sig body \<longleftrightarrow> aq_method q = ''POST'' \<and> ae_path_match e ''/webhooks/stripe'' (aq_path q) \<noteq> None \<and>
     ae_path_match e ''/api/v1/checkout'' (aq_path q) = None \<and>
     jm_get (rq_header (aq_request q)) ''stripe-signature'' = Some sig \<and> fq_text (aq_request q) = Inr body"

lemma webhook_route_cases:
  assumes "jm_get (rc_headers req) ''stripe-signature'' = Some sig" "parse (rc_rawBody req) = Inr parsed"
    and "jget parsed ''id'' = Some (JStr i)"
  shows "(\<exists>t. webhook_route hmac parse config pl req s w = (respond (Inl t), w)) \<and>
      (sig \<noteq> [] \<longrightarrow> \<not> stripe_verifyWebhookSignature hmac (pl_now pl) config (rc_rawBody req) sig) \<or>
    (stripe_verifyWebhookSignature hmac (pl_now pl) config (rc_rawBody req) sig \<and>
     (\<exists>event r st. we_eventId event = i \<and> we_provider event = ''stripe'' \<and> processWebhook (pl_readings pl) event (sh_webhooks w) = (r, st) \<and>
        webhook_route hmac parse config pl req s w = (respond (and_then r (\<lambda>o'. Inr (Some (JObj [(''received'', JBool True),
          (''outcome'', JStr (outcome_name o')), (''eventId'', JStr i)])))), w\<lparr>sh_webhooks := st\<rparr>)))"
proof (cases "truthy (Some sig) \<and> stripe_verifyWebhookSignature hmac (pl_now pl) config (rc_rawBody req) sig")
  case False
  then show ?thesis using assms(1) by (auto simp: webhook_route_def truthy_def Let_def)
next
  case True
  obtain event where event: "stripe_parseWebhookEvent (pl_random pl) (pl_now pl) parsed = Inr event" "pe_eventId event = JStr i"
      "pe_provider event = ''stripe''"
    using assms(3) by (cases parsed) (auto simp: stripe_parseWebhookEvent_def read_body_field_def nullish_def)
  then obtain we where we: "pipeline_event event = Inr we" "we_eventId we = i" "we_provider we = ''stripe''" by (simp add: pipeline_event_def)
  obtain r st where r: "processWebhook (pl_readings pl) we (sh_webhooks w) = (r, st)" by fastforce
  have "webhook_route hmac parse config pl req s w = (respond (and_then r (\<lambda>o'. Inr (Some (JObj [(''received'', JBool True),
          (''outcome'', JStr (outcome_name o')), (''eventId'', JStr i)])))), w\<lparr>sh_webhooks := st\<rparr>)"
    using assms True event we r by (cases r) (simp_all add: webhook_route_def Let_def)
  with True we r show ?thesis by blast
qed

lemma delivery_cases:
  fixes w :: "('p, 'w) shop"
  assumes d: "stripe_delivery e q sig body" and "parse body = Inr parsed" "jget parsed ''id'' = Some (JStr i)"
    and f: "shop_fetch D p hmac parse config CheckoutInput e q w = (r, w')"
  shows "(outcome_of r = None \<and> w' = w \<and>
       (sig = [] \<or> \<not> stripe_verifyWebhookSignature hmac (pl_now (aq_random q)) config body sig \<or> isl (request_store e q))) \<or>
    (stripe_verifyWebhookSignature hmac (pl_now (aq_random q)) config body sig \<and>
     (\<exists>event res st. we_eventId event = i \<and> we_provider event = ''stripe'' \<and>
        processWebhook (pl_readings (aq_random q)) event (sh_webhooks w) = (res, st) \<and>
        w' = w\<lparr>sh_webhooks := st\<rparr> \<and> outcome_of r = (case res of Inl _ \<Rightarrow> None | Inr o' \<Rightarrow> Some (JStr (outcome_name o')))))"
proof -
  let ?e = "e\<lparr>ae_factories := register_db []\<rparr>" and ?pl = "aq_random q"
  let ?h = "AppPlain (webhook_route hmac parse config ?pl) :: (('p, 'w) shop, context_db) app_handler"
  obtain params where h: "find_handler (ae_path_match ?e) (aq_method q) (aq_path q)
      (shop_routes D p hmac parse config CheckoutInput (ae_level e) ?pl) = Some (?h, params)"
    using d by (auto simp: stripe_delivery_def find_handler_app shop_routes_def)
  show ?thesis
  proof (cases "request_store ?e q")
    case (Inl t)
    then have "isl (request_store e q)" by (simp add: request_store_def)
    with f Inl show ?thesis by (auto simp: shop_fetch_def app_fetch_eq errors_have_no_outcome)
  next
    case (Inr st)
    define ctx where "ctx = handler_context ?e q params st"
    have ctx: "jm_get (rc_headers ctx) ''stripe-signature'' = Some sig" "rc_rawBody ctx = body"
      using d by (simp_all add: ctx_def handler_context_def request_ctx_def stripe_delivery_def read_body_def Let_def)
    let ?out = "webhook_route hmac parse config ?pl ctx (Some st) w"
    have w': "w' = snd ?out" and r: "r = wrapHandler (ae_factories ?e) (ae_level ?e) (ae_json_parse ?e) (at_state w ?h) (aq_method q)
        ((aq_request q)\<lparr>fq_params := params\<rparr>) (Some st) [(''X-Trace-Id'', aq_traceId q)]"
      using f by (auto simp: shop_fetch_def app_fetch_eq Inr handler_runs ctx_def h[simplified])
    have run: "run_handler (at_state w ?h) (request_ctx (ae_factories ?e) (ae_level ?e) (ae_json_parse ?e) (aq_method q)
        ((aq_request q)\<lparr>fq_params := params\<rparr>) st) st = fst ?out"
      by (simp add: handler_runs ctx_def handler_context_def)
    have err: "outcome_of r = None" if "fst ?out = respond (Inl t)" for t
      unfolding r wrapHandler_def option.case Let_def run that
      by (simp add: respond_def case_prod_beta errors_have_no_outcome)
    have ok: "outcome_of r = jget j ''outcome''" if "fst ?out = respond (Inr (Some j))" "j = JObj fs" for j fs
      unfolding r wrapHandler_def option.case Let_def run that
      by (simp add: respond_def buildResponse_def outcome_of_def)
    have parsed: "parse (rc_rawBody ctx) = Inr parsed" using assms(2) ctx(2) by simp
    from webhook_route_cases[where parse = parse, OF ctx(1) parsed assms(3), of hmac config ?pl "Some st" w] show ?thesis
    proof (elim disjE exE conjE)
      fix t assume out: "webhook_route hmac parse config ?pl ctx (Some st) w = (respond (Inl t), w)"
        "sig \<noteq> [] \<longrightarrow> \<not> stripe_verifyWebhookSignature hmac (pl_now ?pl) config (rc_rawBody ctx) sig"
      with w' err ctx(2) show ?thesis by auto
    next
      fix event res st'
      assume *: "stripe_verifyWebhookSignature hmac (pl_now ?pl) config (rc_rawBody ctx) sig" "we_eventId event = i" "we_provider event = ''stripe''"
        "processWebhook (pl_readings ?pl) event (sh_webhooks w) = (res, st')"
        "webhook_route hmac parse config ?pl ctx (Some st) w = (respond (and_then res (\<lambda>o'. Inr (Some (JObj [(''received'', JBool True),
          (''outcome'', JStr (outcome_name o')), (''eventId'', JStr i)])))), w\<lparr>sh_webhooks := st'\<rparr>)"
      have "outcome_of r = (case res of Inl _ \<Rightarrow> None | Inr o' \<Rightarrow> Some (JStr (outcome_name o')))"
      proof (cases res)
        case (Inl t)
        with *(5) err show ?thesis by simp
      next
        case (Inr o')
        with *(5) ok show ?thesis by simp
      qed
      with * w' ctx(2) show ?thesis by auto
    qed
  qed
qed

section \<open>Replays\<close>

definition shop_run :: "'d decimal_lib \<Rightarrow> ('p, 'd money) provider \<Rightarrow> (string \<Rightarrow> string \<Rightarrow> string) \<Rightarrow> (string \<Rightarrow> json result)
    \<Rightarrow> stripe_config \<Rightarrow> checkout_input validator \<Rightarrow> context_db app_env \<Rightarrow> platform request list \<Rightarrow> ('p, 'w) shop \<Rightarrow> ('p, 'w) shop" where
  "shop_run D p hmac_sha256 parse config CheckoutInput e qs w =
     foldl (\<lambda>w q. snd (shop_fetch D p hmac_sha256 parse config CheckoutInput e q w)) w qs"

text \<open>The clock readings of one request, and requests that are handled one after the other, each within an hour.\<close>

definition clock_ok :: "platform \<Rightarrow> bool" where
  "clock_ok pl \<longleftrightarrow> 0 \<le> pl_now pl \<and> pl_now pl < 2 ^ 52 \<and> pl_now pl \<le> t_evict (pl_readings pl) \<and>
     t_evict (pl_readings pl) \<le> t_check (pl_readings pl) \<and> t_check (pl_readings pl) \<le> t_mark (pl_readings pl) \<and>
     t_mark (pl_readings pl) < pl_now pl + 3600000"

definition handled_in_order :: "platform request list \<Rightarrow> bool" where
  "handled_in_order qs \<longleftrightarrow> list_all (\<lambda>q. clock_ok (aq_random q)) qs \<and>
     sorted_wrt (\<lambda>p q. t_mark (pl_readings (aq_random p)) \<le> pl_now (aq_random q)) qs"

lemma known_through_run:
  assumes "known_until i deadline (sh_webhooks w)" "\<forall>q \<in> set qs. read_before deadline (pl_readings (aq_random q))"
  shows "known_until i deadline (sh_webhooks (shop_run D p hmac parse config CheckoutInput e qs w))"
  using assms
proof (induction qs arbitrary: w)
  case (Cons q qs)
  let ?w = "snd (shop_fetch D p hmac parse config CheckoutInput e q w)"
  have "known_until i deadline (sh_webhooks ?w)"
    using shop_step_webhooks[of D p hmac parse config CheckoutInput e q w] Cons.prems
      known_stays[of i deadline "sh_webhooks w" "pl_readings (aq_random q)"] by auto
  with Cons show ?case by (simp add: shop_run_def)
qed (simp add: shop_run_def)

lemma outcome_processed:
  "(case res of Inl _ \<Rightarrow> None | Inr o' \<Rightarrow> Some (JStr (outcome_name o'))) = Some (JStr ''processed'') \<longleftrightarrow> res = Inr Processed"
  "Some (JStr ''processed'') = (case res of Inl _ \<Rightarrow> None | Inr o' \<Rightarrow> Some (JStr (outcome_name o'))) \<longleftrightarrow> res = Inr Processed"
  by (auto simp: outcome_name_def split: sum.splits webhook_result.splits)

text \<open>C9: a webhook event is handled once for as long as its signature can be accepted. When a Stripe
  delivery has been answered \<open>processed\<close>, then after any further requests to the application (other
  webhooks, checkouts, forgeries), every delivery of the same event identifier with that signature
  leaves the state its handlers act on as it is: its signature is refused as too old, or its
  identifier is still in the cache and the answer is \<open>duplicate\<close>. Requests are handled one after the
  other, each within an hour.\<close>

theorem stripe_replay_handled_once:
  assumes "stripe_delivery e a sig body" and "parse body = Inr parsed" and "jget parsed ''id'' = Some (JStr i)"
    and "stripe_delivery e b sig body'" and "parse body' = Inr parsed'" and "jget parsed' ''id'' = Some (JStr i)"
    and "sc_webhookToleranceSeconds config = None" and "handled_in_order (a # ys @ [b])" and "jm_wf (wh_cache (sh_webhooks w))"
    and "shop_fetch D p hmac_sha256 parse config CheckoutInput e a w = (ra, w1)" and "outcome_of ra = Some (JStr ''processed'')"
    and "shop_run D p hmac_sha256 parse config CheckoutInput e ys w1 = w2"
    and "shop_fetch D p hmac_sha256 parse config CheckoutInput e b w2 = (rb, w3)"
  shows "wh_world (sh_webhooks w3) = wh_world (sh_webhooks w2) \<and> outcome_of rb \<in> {None, Some (JStr ''duplicate'')}"
proof -
  let ?a = "aq_random a" and ?b = "aq_random b"
  obtain ev st where a: "stripe_verifyWebhookSignature hmac_sha256 (pl_now ?a) config body sig" "we_eventId ev = i"
      "processWebhook (pl_readings ?a) ev (sh_webhooks w) = (Inr Processed, st)" "w1 = w\<lparr>sh_webhooks := st\<rparr>"
    using delivery_cases[OF assms(1,2,3,10)] assms(11) by (auto simp: outcome_processed)
  from delivery_cases[OF assms(4,5,6,13)] show ?thesis
  proof (elim disjE conjE exE)
    fix ev' res st'
    assume b: "stripe_verifyWebhookSignature hmac_sha256 (pl_now ?b) config body' sig" "we_eventId ev' = i" "we_provider ev' = ''stripe''"
      "processWebhook (pl_readings ?b) ev' (sh_webhooks w2) = (res, st')" "w3 = w2\<lparr>sh_webhooks := st'\<rparr>"
      "outcome_of rb = (case res of Inl _ \<Rightarrow> None | Inr o' \<Rightarrow> Some (JStr (outcome_name o')))"
    define deadline where "deadline = t_mark (pl_readings ?a) + DEFAULT_TTL_MS"
    have order: "clock_ok ?a" "clock_ok ?b" "\<forall>q \<in> set ys. clock_ok (aq_random q) \<and> t_mark (pl_readings (aq_random q)) \<le> pl_now ?b"
      using assms(8) by (auto simp: handled_in_order_def sorted_wrt_append list_all_iff)
    have "pl_now ?b < pl_now ?a + 603000"
      using verified_twice[OF a(1) b(1) assms(7)] order(1,2) by (simp add: clock_ok_def)
    then have before: "pl_now ?b + 3600000 < deadline" using order(1) by (simp add: deadline_def clock_ok_def DEFAULT_TTL_MS_def)
    have "known_until i deadline (sh_webhooks w1)"
      using processed_is_known[OF a(3) assms(9)] a(2,4) by (simp add: deadline_def)
    moreover have "\<forall>q \<in> set ys. read_before deadline (pl_readings (aq_random q))"
      using order(3) before by (fastforce simp: read_before_def clock_ok_def)
    ultimately have "known_until i deadline (sh_webhooks w2)" using known_through_run assms(12) by blast
    moreover have "read_before deadline (pl_readings ?b)" using order(2) before by (auto simp: read_before_def clock_ok_def)
    ultimately show ?thesis using known_is_duplicate b by (fastforce simp: outcome_name_def)
  qed simp_all
qed

text \<open>The witness: the same delivery twice, ten seconds apart, between two checks of the health route.\<close>

definition sample_env :: "context_db app_env" where
  "sample_env = \<lparr>ae_jwtVerify = (\<lambda>_ _ _. Inl (ThrownValue JNull)), ae_url_host = (\<lambda>_. None), ae_json_parse = (\<lambda>_. None),
     ae_path_match = (\<lambda>pattern path. if pattern = path then Some [] else None), ae_not_found = (404, NoBody),
     ae_factories = [], ae_level = ''info'', ae_options = \<lparr>mo_jwtSecret = None, mo_jwtAlgorithm = None, mo_strictTenancy = False\<rparr>\<rparr>"

definition sample_platform :: "int \<Rightarrow> platform" where
  "sample_platform now = \<lparr>pl_now = now, pl_random = [], pl_readings = \<lparr>t_evict = now, t_check = now, t_mark = now\<rparr>, pl_iso = (\<lambda>_. [])\<rparr>"

definition sample_request :: "string \<Rightarrow> string \<Rightarrow> int \<Rightarrow> platform request" where
  "sample_request method path now = \<lparr>aq_traceId = ''t'', aq_startTime = now, aq_method = method, aq_path = path,
     aq_request = \<lparr>rq_header = [(''stripe-signature'', ''t=1000,v1=0aff'')], rq_url = path, fq_text = Inr ''{}'', fq_params = [], fq_query = [],
       fq_remoteAddr = None\<rparr>, aq_random = sample_platform now\<rparr>"

definition sample_shop :: "(unit, nat) shop" where
  "sample_shop = \<lparr>sh_pay = (), sh_events = [], sh_webhooks = \<lparr>wh_cache = [], wh_handlers = [(''stripe'', \<lambda>_ n. (Inr (), Suc n))],
     wh_world = 0\<rparr>\<rparr>"

definition sample_provider :: "(unit, refdec money) provider" where
  "sample_provider = \<lparr>pv_name = ''mock'', pv_charge = (\<lambda>_ w. (Inl (ThrownValue JNull), w)), pv_refund = None, pv_now = (\<lambda>_. 0)\<rparr>"

definition sample_parse :: "string \<Rightarrow> json result" where
  "sample_parse body = Inr (JObj [(''id'', JStr ''evt'')])"

definition sample_fetch :: "platform request \<Rightarrow> (unit, nat) shop \<Rightarrow> response \<times> (unit, nat) shop" where
  "sample_fetch = shop_fetch ref_decimal sample_provider (\<lambda>_ _. ''0aff'') sample_parse sample_stripe (\<lambda>_. Inl NoIssues) sample_env"

lemma sample_processed:
  "outcome_of (fst (sample_fetch (sample_request ''POST'' ''/webhooks/stripe'' 1000000) sample_shop)) = Some (JStr ''processed'')"
  by code_simp

lemma sample_handled: "wh_world (sh_webhooks (snd (sample_fetch (sample_request ''POST'' ''/webhooks/stripe'' 1000000) sample_shop))) = 1"
  by code_simp

theorem stripe_replay_handled_once_witness:
  "let request = sample_request ''POST'' ''/webhooks/stripe''; health = sample_request ''GET'' ''/api/v1/health'' 1005000;
       w1 = snd (sample_fetch (request 1000000) sample_shop); w2 = snd (sample_fetch health w1)
   in wh_world (sh_webhooks w1) = 1 \<and> wh_world (sh_webhooks (snd (sample_fetch (request 1010000) w2))) = wh_world (sh_webhooks w2)"
proof -
  let ?q = "sample_request ''POST'' ''/webhooks/stripe''" and ?h = "sample_request ''GET'' ''/api/v1/health'' 1005000"
  obtain ra w1 where a: "sample_fetch (?q 1000000) sample_shop = (ra, w1)" by fastforce
  obtain rb w3 where b: "sample_fetch (?q 1010000) (snd (sample_fetch ?h w1)) = (rb, w3)" by fastforce
  have d: "stripe_delivery sample_env (?q now) ''t=1000,v1=0aff'' ''{}''" for now
    by (simp add: stripe_delivery_def sample_request_def sample_env_def)
  have i: "sample_parse body = Inr (JObj [(''id'', JStr ''evt'')])" "jget (JObj [(''id'', JStr ''evt'')]) ''id'' = Some (JStr ''evt'')"
    for body by (simp_all add: sample_parse_def)
  have order: "handled_in_order (?q 1000000 # [?h] @ [?q 1010000])"
    by (simp add: handled_in_order_def clock_ok_def sample_request_def sample_platform_def)
  have "sc_webhookToleranceSeconds sample_stripe = None" "jm_wf (wh_cache (sh_webhooks sample_shop))"
    by (simp_all add: sample_stripe_def sample_shop_def jm_wf_def jm_keys_def)
  note t = this
  have run: "shop_run ref_decimal sample_provider (\<lambda>_ _. ''0aff'') sample_parse sample_stripe (\<lambda>_. Inl NoIssues) sample_env [?h] w1
      = snd (sample_fetch ?h w1)"
    by (simp add: shop_run_def sample_fetch_def)
  have "outcome_of ra = Some (JStr ''processed'')" using sample_processed a by simp
  from stripe_replay_handled_once[OF d i d i t(1) order t(2) a[unfolded sample_fetch_def] this run
      b[unfolded fun_cong[OF fun_cong[OF sample_fetch_def], of "?q 1010000"]]]
  show ?thesis using a b sample_handled by (simp add: Let_def)
qed

end
