(* ===== verification/BankRetry.thy ===== *)
theory BankRetry
  imports Transaction
begin

text \<open>
  The bank retry state machine (packages/commerce/src/state-machine/bank-retry.ts). Entries are
  objects: they live in a list and are referred to by their index, because a timer or a status
  request in flight keeps its entry after the entry left the map of active retries. A state holds
  the armed timers, the status requests in flight, and two logs: the status requests made and the
  calls of \<open>onResolved\<close>. The bank and the application act through \<open>br_op\<close>: they start, force and
  cancel retries, a timer fires, a status request returns. Operations that name a timer that is not
  armed or a request that is not in flight do nothing.
\<close>

section \<open>State\<close>

definition POLL_INTERVAL_MS :: int where "POLL_INTERVAL_MS = 60000"
definition MAX_POLL_DURATION_MS :: int where "MAX_POLL_DURATION_MS = 24 * 60 * 60 * 1000"
definition MAX_POLL_ATTEMPTS :: nat where
  "MAX_POLL_ATTEMPTS = nat \<lceil>of_int MAX_POLL_DURATION_MS / of_int POLL_INTERVAL_MS :: rat\<rceil>"

datatype bank_status = BankSucceeded | BankFailed | BankPending | BankUnknown

text \<open>\<open>PollThrew\<close>: the status request rejected, or \<open>onPoll\<close> threw.\<close>

datatype poll_answer = Status bank_status | PollThrew

record retry_entry =
  re_paymentId :: string
  re_startTime :: int
  re_attempt :: nat
  re_timer :: "nat option"
  re_resolved :: bool

record bank_retry =
  br_entries :: "retry_entry list"
  br_active :: "(string, nat) jsmap"
  br_timers :: "(nat \<times> nat) list"
  br_fresh :: nat
  br_polls :: "nat list"
  br_checks :: "nat list"
  br_resolutions :: "(nat \<times> transaction_state) list"

definition br_empty :: bank_retry where
  "br_empty = \<lparr>br_entries = [], br_active = [], br_timers = [], br_fresh = 0, br_polls = [],
     br_checks = [], br_resolutions = []\<rparr>"

definition entry_of :: "bank_retry \<Rightarrow> nat \<Rightarrow> retry_entry" where
  "entry_of s e = br_entries s ! e"

definition update_entry :: "nat \<Rightarrow> (retry_entry \<Rightarrow> retry_entry) \<Rightarrow> bank_retry \<Rightarrow> bank_retry" where
  "update_entry e f s = s\<lparr>br_entries := (br_entries s)[e := f (br_entries s ! e)]\<rparr>"

text \<open>The three statements every resolution consists of.\<close>

definition resolve_entry :: "nat \<Rightarrow> transaction_state \<Rightarrow> bank_retry \<Rightarrow> bank_retry" where
  "resolve_entry e final s =
     (let s1 = update_entry e (\<lambda>r. r\<lparr>re_resolved := True\<rparr>) s
      in s1\<lparr>br_active := jm_delete (re_paymentId (entry_of s e)) (br_active s1),
            br_resolutions := br_resolutions s1 @ [(e, final)]\<rparr>)"

definition clear_timer :: "nat option \<Rightarrow> bank_retry \<Rightarrow> bank_retry" where
  "clear_timer t s = (case t of None \<Rightarrow> s | Some tid \<Rightarrow> s\<lparr>br_timers := filter (\<lambda>(t, _). t \<noteq> tid) (br_timers s)\<rparr>)"

section \<open>Operations\<close>

definition schedulePoll :: "int \<Rightarrow> nat \<Rightarrow> bank_retry \<Rightarrow> bank_retry" where
  "schedulePoll now e s =
     (let r = entry_of s e
      in if re_resolved r then s
         else if MAX_POLL_DURATION_MS \<le> now - re_startTime r \<or> MAX_POLL_ATTEMPTS \<le> re_attempt r
         then resolve_entry e MANUAL_REVIEW s
         else (let s1 = update_entry e (\<lambda>r. r\<lparr>re_attempt := Suc (re_attempt r), re_timer := Some (br_fresh s)\<rparr>) s
               in s1\<lparr>br_timers := br_timers s1 @ [(br_fresh s, e)], br_fresh := Suc (br_fresh s)\<rparr>))"

definition startBankRetry :: "int \<Rightarrow> int \<Rightarrow> string \<Rightarrow> bank_retry \<Rightarrow> bank_retry" where
  "startBankRetry now now' paymentId s =
     (if jm_has (br_active s) paymentId then s
      else let e = length (br_entries s);
               entry = \<lparr>re_paymentId = paymentId, re_startTime = now, re_attempt = 0, re_timer = None, re_resolved = False\<rparr>
           in schedulePoll now' e (s\<lparr>br_entries := br_entries s @ [entry], br_active := jm_set paymentId e (br_active s)\<rparr>))"

definition isRetrying :: "string \<Rightarrow> bank_retry \<Rightarrow> bool" where
  "isRetrying paymentId s = jm_has (br_active s) paymentId"

definition getRetryAttempt :: "string \<Rightarrow> bank_retry \<Rightarrow> nat" where
  "getRetryAttempt paymentId s =
     (case jm_get (br_active s) paymentId of None \<Rightarrow> 0 | Some e \<Rightarrow> re_attempt (entry_of s e))"

definition forceResolve :: "string \<Rightarrow> transaction_state \<Rightarrow> bank_retry \<Rightarrow> bank_retry" where
  "forceResolve paymentId final s =
     (case jm_get (br_active s) paymentId of
        None \<Rightarrow> s
      | Some e \<Rightarrow> resolve_entry e final (clear_timer (re_timer (entry_of s e)) s))"

definition cancelAllRetries :: "bank_retry \<Rightarrow> bank_retry" where
  "cancelAllRetries s =
     (fold (\<lambda>(_, e). clear_timer (re_timer (entry_of s e))) (br_active s) s)\<lparr>br_active := []\<rparr>"

definition getActiveRetries :: "bank_retry \<Rightarrow> string list" where
  "getActiveRetries s = jm_keys (br_active s)"

text \<open>The timer's callback up to its status request, and what follows the answer.\<close>

definition timer_fires :: "nat \<Rightarrow> bank_retry \<Rightarrow> bank_retry" where
  "timer_fires tid s =
     (case map_of (br_timers s) tid of
        None \<Rightarrow> s
      | Some e \<Rightarrow>
          let s1 = s\<lparr>br_timers := filter (\<lambda>(t, _). t \<noteq> tid) (br_timers s)\<rparr>
          in if re_resolved (entry_of s e) then s1
             else s1\<lparr>br_polls := br_polls s1 @ [e], br_checks := br_checks s1 @ [e]\<rparr>)"

definition poll_answers :: "int \<Rightarrow> nat \<Rightarrow> poll_answer \<Rightarrow> bank_retry \<Rightarrow> bank_retry" where
  "poll_answers now e answer s =
     (if e \<notin> set (br_polls s) then s
      else let s1 = s\<lparr>br_polls := remove1 e (br_polls s)\<rparr>
           in case answer of
                Status BankSucceeded \<Rightarrow> resolve_entry e COMMITTED s1
              | Status BankFailed \<Rightarrow> resolve_entry e ROLLED_BACK s1
              | _ \<Rightarrow> schedulePoll now e s1)"

datatype br_op =
    Start int int string
  | Force string transaction_state
  | CancelAll
  | TimerFires nat
  | PollAnswers int nat poll_answer

fun br_apply :: "br_op \<Rightarrow> bank_retry \<Rightarrow> bank_retry" where
  "br_apply (Start now now' paymentId) = startBankRetry now now' paymentId"
| "br_apply (Force paymentId final) = forceResolve paymentId final"
| "br_apply CancelAll = cancelAllRetries"
| "br_apply (TimerFires tid) = timer_fires tid"
| "br_apply (PollAnswers now e answer) = poll_answers now e answer"

definition br_run :: "br_op list \<Rightarrow> bank_retry \<Rightarrow> bank_retry" where
  "br_run ops s = fold br_apply ops s"

lemma MAX_POLL_ATTEMPTS_eq: "MAX_POLL_ATTEMPTS = 1440"
  by (simp add: MAX_POLL_ATTEMPTS_def MAX_POLL_DURATION_MS_def POLL_INTERVAL_MS_def)

section \<open>The invariant\<close>

definition armed :: "bank_retry \<Rightarrow> nat \<Rightarrow> bool" where
  "armed s e \<longleftrightarrow> e \<in> snd ` set (br_timers s)"

definition timers_ok :: "bank_retry \<Rightarrow> bool" where
  "timers_ok s \<longleftrightarrow> distinct (map fst (br_timers s)) \<and>
     (\<forall>t e. (t, e) \<in> set (br_timers s) \<longrightarrow> t < br_fresh s \<and> e < length (br_entries s) \<and>
        re_timer (entry_of s e) = Some t \<and> \<not> re_resolved (entry_of s e) \<and> e \<notin> set (br_polls s))"

definition handles_ok :: "bank_retry \<Rightarrow> bool" where
  "handles_ok s \<longleftrightarrow>
     (\<forall>e t. e < length (br_entries s) \<and> re_timer (entry_of s e) = Some t \<longrightarrow> t < br_fresh s) \<and>
     (\<forall>e e' t. e < length (br_entries s) \<and> e' < length (br_entries s) \<and>
        re_timer (entry_of s e) = Some t \<and> re_timer (entry_of s e') = Some t \<longrightarrow> e' = e)"

lemma handle_lt: "handles_ok s \<Longrightarrow> e < length (br_entries s) \<Longrightarrow> re_timer (entry_of s e) = Some t \<Longrightarrow> t < br_fresh s"
  by (auto simp: handles_ok_def)

lemma handle_inj: "handles_ok s \<Longrightarrow> e < length (br_entries s) \<Longrightarrow> e' < length (br_entries s) \<Longrightarrow>
    re_timer (entry_of s e) = Some t \<Longrightarrow> re_timer (entry_of s e') = Some t \<Longrightarrow> e' = e"
  by (auto simp: handles_ok_def)

definition logs_ok :: "bank_retry \<Rightarrow> bool" where
  "logs_ok s \<longleftrightarrow> distinct (br_polls s) \<and>
     set (br_polls s) \<union> set (br_checks s) \<union> fst ` set (br_resolutions s) \<subseteq> {..<length (br_entries s)}"

definition active_ok :: "nat set \<Rightarrow> bank_retry \<Rightarrow> bool" where
  "active_ok X s \<longleftrightarrow> jm_wf (br_active s) \<and>
     (\<forall>pid e. jm_get (br_active s) pid = Some e \<longrightarrow> e < length (br_entries s) \<and>
        re_paymentId (entry_of s e) = pid \<and> \<not> re_resolved (entry_of s e) \<and>
        (e \<in> X \<or> armed s e \<or> e \<in> set (br_polls s)))"

definition counts_ok :: "bank_retry \<Rightarrow> bool" where
  "counts_ok s \<longleftrightarrow> (\<forall>e < length (br_entries s).
     re_attempt (entry_of s e) \<le> MAX_POLL_ATTEMPTS \<and>
     count_list (br_checks s) e + (if armed s e then 1 else 0) \<le> re_attempt (entry_of s e) \<and>
     (\<not> re_resolved (entry_of s e) \<longrightarrow> e \<notin> fst ` set (br_resolutions s)))"

text \<open>\<open>X\<close> holds entries that an operation in progress has taken the token from.\<close>

definition br_inv :: "nat set \<Rightarrow> bank_retry \<Rightarrow> bool" where
  "br_inv X s \<longleftrightarrow> timers_ok s \<and> handles_ok s \<and> logs_ok s \<and> active_ok X s \<and> counts_ok s"

lemmas br_inv_defs = br_inv_def timers_ok_def handles_ok_def logs_ok_def active_ok_def counts_ok_def

lemma entries_update [simp]: "length (br_entries (update_entry e f s)) = length (br_entries s)"
  by (simp add: update_entry_def)

lemma entry_of_update:
  "e < length (br_entries s) \<Longrightarrow> entry_of (update_entry e f s) e' = (if e' = e then f (entry_of s e) else entry_of s e')"
  by (simp add: update_entry_def entry_of_def)

lemma entry_of_upd [simp]:
  "entry_of (s\<lparr>br_active := a\<rparr>) e = entry_of s e"
  "entry_of (s\<lparr>br_timers := b\<rparr>) e = entry_of s e"
  "entry_of (s\<lparr>br_polls := c\<rparr>) e = entry_of s e"
  "entry_of (s\<lparr>br_checks := c\<rparr>) e = entry_of s e"
  "entry_of (s\<lparr>br_fresh := n\<rparr>) e = entry_of s e"
  "entry_of (s\<lparr>br_resolutions := r\<rparr>) e = entry_of s e"
  by (simp_all add: entry_of_def)

lemma update_entry_fields [simp]:
  "br_active (update_entry e f s) = br_active s" "br_timers (update_entry e f s) = br_timers s"
  "br_polls (update_entry e f s) = br_polls s" "br_checks (update_entry e f s) = br_checks s"
  "br_fresh (update_entry e f s) = br_fresh s" "br_resolutions (update_entry e f s) = br_resolutions s"
  by (simp_all add: update_entry_def)

lemma resolve_entry_inv:
  assumes i: "br_inv {e} s" and e: "e < length (br_entries s)" and a: "\<not> armed s e"
  shows "br_inv {} (resolve_entry e final s)"
proof -
  let ?s = "resolve_entry e final s"
  have f: "entry_of ?s e' = (if e' = e then (entry_of s e)\<lparr>re_resolved := True\<rparr> else entry_of s e')" for e'
    using e by (simp add: resolve_entry_def Let_def entry_of_update)
  have g [simp]: "br_timers ?s = br_timers s" "br_polls ?s = br_polls s" "br_checks ?s = br_checks s"
    "br_fresh ?s = br_fresh s" "length (br_entries ?s) = length (br_entries s)"
    "br_active ?s = jm_delete (re_paymentId (entry_of s e)) (br_active s)"
    "br_resolutions ?s = br_resolutions s @ [(e, final)]" "armed ?s = armed s"
    by (auto simp: resolve_entry_def Let_def armed_def)
  have na: "(t, e) \<notin> set (br_timers s)" for t using a by (force simp: armed_def)
  have "timers_ok ?s" using i na by (auto simp: br_inv_def timers_ok_def f)
  moreover have "handles_ok ?s" using i by (auto simp: br_inv_def handles_ok_def f)
  moreover have "logs_ok ?s" using i e by (auto simp: br_inv_def logs_ok_def)
  moreover have "active_ok {} ?s" using i by (auto simp: br_inv_def active_ok_def f split: if_splits)
  moreover have "counts_ok ?s" using i by (auto simp: br_inv_def counts_ok_def f)
  ultimately show ?thesis by (simp add: br_inv_def)
qed

lemma schedulePoll_inv:
  assumes i: "br_inv {e} s" and e: "e < length (br_entries s)" and a: "\<not> armed s e" and p: "e \<notin> set (br_polls s)"
  shows "br_inv {} (schedulePoll now e s)"
proof -
  let ?r = "entry_of s e"
  consider "re_resolved ?r"
    | "\<not> re_resolved ?r" "MAX_POLL_DURATION_MS \<le> now - re_startTime ?r \<or> MAX_POLL_ATTEMPTS \<le> re_attempt ?r"
    | "\<not> re_resolved ?r" "\<not> (MAX_POLL_DURATION_MS \<le> now - re_startTime ?r \<or> MAX_POLL_ATTEMPTS \<le> re_attempt ?r)"
    by blast
  then show ?thesis
  proof cases
    case 1
    then have "active_ok {} s" using i by (auto simp: br_inv_def active_ok_def)
    with 1 i show ?thesis by (simp add: schedulePoll_def br_inv_def)
  next
    case 2
    with resolve_entry_inv[OF i e a] show ?thesis by (simp add: schedulePoll_def Let_def)
  next
    case 3
    let ?s = "schedulePoll now e s"
    have s: "?s = (update_entry e (\<lambda>r. r\<lparr>re_attempt := Suc (re_attempt r), re_timer := Some (br_fresh s)\<rparr>) s)
        \<lparr>br_timers := br_timers s @ [(br_fresh s, e)], br_fresh := Suc (br_fresh s)\<rparr>"
      using 3 by (auto simp: schedulePoll_def Let_def)
    have f: "entry_of ?s e' = (if e' = e then ?r\<lparr>re_attempt := Suc (re_attempt ?r), re_timer := Some (br_fresh s)\<rparr>
        else entry_of s e')" for e'
      using e by (simp add: s entry_of_update)
    have g [simp]: "br_timers ?s = br_timers s @ [(br_fresh s, e)]" "br_polls ?s = br_polls s"
      "br_checks ?s = br_checks s" "br_fresh ?s = Suc (br_fresh s)" "br_active ?s = br_active s"
      "length (br_entries ?s) = length (br_entries s)" "br_resolutions ?s = br_resolutions s"
      unfolding s by simp_all
    have ar: "armed ?s e' \<longleftrightarrow> e' = e \<or> armed s e'" for e' by (auto simp: armed_def)
    have na: "(t, e) \<notin> set (br_timers s)" for t using a by (force simp: armed_def)
    have fresh: "(br_fresh s, e') \<notin> set (br_timers s)" for e'
      using i by (auto simp: br_inv_def timers_ok_def)
    then have "timers_ok ?s" using i na e p 3 by (auto simp: br_inv_def timers_ok_def f intro: less_SucI)
    moreover have "handles_ok ?s"
    proof -
      have h: "handles_ok s" using i by (simp add: br_inv_def)
      have lt: "t < Suc (br_fresh s)" if "e' < length (br_entries s)" "re_timer (entry_of ?s e') = Some t" for e' t
        using that handle_lt[OF h that(1)] by (auto simp: f less_SucI split: if_splits)
      have "e'' = e'" if "e' < length (br_entries s)" "e'' < length (br_entries s)"
          "re_timer (entry_of ?s e') = Some t" "re_timer (entry_of ?s e'') = Some t" for e' e'' t
        using that handle_lt[OF h that(1)] handle_lt[OF h that(2)] handle_inj[OF h that(1,2)]
        by (auto simp: f split: if_splits)
      with lt show ?thesis unfolding handles_ok_def g by blast
    qed
    moreover have "logs_ok ?s" using i e by (auto simp: br_inv_def logs_ok_def)
    moreover have "active_ok {} ?s" using i by (auto simp: br_inv_def active_ok_def f ar)
    moreover have "counts_ok ?s" using i 3 a by (auto simp: br_inv_def counts_ok_def f ar)
    ultimately show ?thesis by (simp add: br_inv_def)
  qed
qed

lemma br_inv_mono: "br_inv X s \<Longrightarrow> X \<subseteq> Y \<Longrightarrow> br_inv Y s"
  by (auto simp: br_inv_def active_ok_def)

lemma entry_of_snoc [simp]:
  "e < length (br_entries s) \<Longrightarrow> entry_of (s\<lparr>br_entries := br_entries s @ [x]\<rparr>) e = entry_of s e"
  "entry_of (s\<lparr>br_entries := br_entries s @ [x]\<rparr>) (length (br_entries s)) = x"
  by (simp_all add: entry_of_def nth_append)

lemma start_inv:
  assumes i: "br_inv {} s"
  shows "br_inv {} (startBankRetry now now' pid s)"
proof (cases "jm_has (br_active s) pid")
  case False
  let ?n = "length (br_entries s)"
  let ?entry = "\<lparr>re_paymentId = pid, re_startTime = now, re_attempt = 0, re_timer = None, re_resolved = False\<rparr>"
  let ?s = "s\<lparr>br_entries := br_entries s @ [?entry], br_active := jm_set pid ?n (br_active s)\<rparr>"
  have ar: "armed ?s = armed s" by (auto simp: armed_def)
  have t: "(t, e) \<in> set (br_timers s) \<Longrightarrow> e < ?n" for t e using i by (auto simp: br_inv_def timers_ok_def)
  have p: "e \<in> set (br_polls s) \<union> set (br_checks s) \<union> fst ` set (br_resolutions s) \<Longrightarrow> e < ?n" for e
    using i by (auto simp: br_inv_def logs_ok_def)
  have na: "\<not> armed ?s ?n" using t by (force simp: ar armed_def)
  have ac: "jm_get (br_active s) q = Some e \<Longrightarrow> e < ?n" for q e using i by (auto simp: br_inv_def active_ok_def)
  have "timers_ok ?s" using i t by (auto simp: br_inv_def timers_ok_def less_SucI)
  moreover have "handles_ok ?s" using i by (auto simp: br_inv_def handles_ok_def less_Suc_eq)
  moreover have "logs_ok ?s" using i p by (auto simp: br_inv_def logs_ok_def less_SucI)
  moreover have "active_ok {?n} ?s" using i ac by (auto simp: br_inv_def active_ok_def ar less_SucI split: if_splits)
  moreover have "counts_ok ?s"
  proof -
    have "count_list (br_checks s) ?n = 0" "?n \<notin> fst ` set (br_resolutions s)"
      using p by (auto simp: count_list_0_iff)
    with i na show ?thesis by (auto simp: br_inv_def counts_ok_def less_Suc_eq ar)
  qed
  ultimately have "br_inv {?n} ?s" by (simp add: br_inv_def)
  then have "br_inv {} (schedulePoll now' ?n ?s)"
    by (rule schedulePoll_inv) (use na p in auto)
  with False show ?thesis by (simp add: startBankRetry_def Let_def)
qed (use i in \<open>simp add: startBankRetry_def\<close>)

lemma drop_timer_inv:
  assumes i: "br_inv X s"
    and Y: "\<And>e. (tid, e) \<in> set (br_timers s) \<Longrightarrow> e \<in> Y" and X: "X \<subseteq> Y"
  shows "br_inv Y (s\<lparr>br_timers := filter (\<lambda>(t, _). t \<noteq> tid) (br_timers s)\<rparr>)"
proof -
  let ?s = "s\<lparr>br_timers := filter (\<lambda>(t, _). t \<noteq> tid) (br_timers s)\<rparr>"
  have sub: "armed ?s e \<Longrightarrow> armed s e" for e by (force simp: armed_def)
  have keep: "armed s e \<Longrightarrow> e \<notin> Y \<Longrightarrow> armed ?s e" for e using Y by (force simp: armed_def)
  have "timers_ok ?s" using i by (auto simp: br_inv_def timers_ok_def distinct_map_filter)
  moreover have "handles_ok ?s" using i by (auto simp: br_inv_def handles_ok_def)
  moreover have "logs_ok ?s" using i by (auto simp: br_inv_def logs_ok_def)
  moreover have "active_ok Y ?s" using i keep X by (fastforce simp: br_inv_def active_ok_def)
  moreover have "counts_ok ?s" using i sub by (fastforce simp: br_inv_def counts_ok_def)
  ultimately show ?thesis by (simp add: br_inv_def)
qed

text \<open>The entry's handle names its own timer, if any.\<close>

lemma clear_own_timer:
  assumes i: "br_inv X s" and e: "e < length (br_entries s)"
  shows "br_inv (insert e X) (clear_timer (re_timer (entry_of s e)) s)"
    and "\<not> armed (clear_timer (re_timer (entry_of s e)) s) e"
proof -
  have t: "re_timer (entry_of s e') = Some t \<and> e' < length (br_entries s)" if "(t, e') \<in> set (br_timers s)" for t e'
    using i that by (auto simp: br_inv_def timers_ok_def)
  have "(br_inv (insert e X) (clear_timer (re_timer (entry_of s e)) s)) \<and>
      \<not> armed (clear_timer (re_timer (entry_of s e)) s) e"
  proof (cases "re_timer (entry_of s e)")
    case None
    then show ?thesis using t br_inv_mono[OF i, of "insert e X"] by (force simp: clear_timer_def armed_def)
  next
    case (Some tid)
    have h: "handles_ok s" using i by (simp add: br_inv_def)
    have "e' = e" if "(tid, e') \<in> set (br_timers s)" for e'
      using handle_inj[OF h e _ Some] t[OF that] by blast
    then have "br_inv (insert e X) (s\<lparr>br_timers := filter (\<lambda>(t, _). t \<noteq> tid) (br_timers s)\<rparr>)"
      by (intro drop_timer_inv[OF i]) auto
    moreover have "\<not> armed (s\<lparr>br_timers := filter (\<lambda>(t, _). t \<noteq> tid) (br_timers s)\<rparr>) e"
      using t Some by (force simp: armed_def)
    ultimately show ?thesis by (simp add: clear_timer_def Some)
  qed
  then show "br_inv (insert e X) (clear_timer (re_timer (entry_of s e)) s)"
    "\<not> armed (clear_timer (re_timer (entry_of s e)) s) e" by blast+
qed

lemma clear_timer_fields [simp]:
  "br_entries (clear_timer t s) = br_entries s" "br_active (clear_timer t s) = br_active s"
  "br_polls (clear_timer t s) = br_polls s" "br_checks (clear_timer t s) = br_checks s"
  "br_fresh (clear_timer t s) = br_fresh s" "br_resolutions (clear_timer t s) = br_resolutions s"
  "entry_of (clear_timer t s) e = entry_of s e"
  by (simp_all add: clear_timer_def entry_of_def split: option.splits)

lemma force_inv:
  assumes i: "br_inv {} s"
  shows "br_inv {} (forceResolve pid final s)"
proof (cases "jm_get (br_active s) pid")
  case (Some e)
  then have e: "e < length (br_entries s)" using i by (auto simp: br_inv_def active_ok_def)
  note c = clear_own_timer[OF i e]
  have "br_inv {} (resolve_entry e final (clear_timer (re_timer (entry_of s e)) s))"
    by (rule resolve_entry_inv) (use c e in simp_all)
  with Some show ?thesis by (simp add: forceResolve_def)
qed (use i in \<open>simp add: forceResolve_def\<close>)

lemma cancel_inv:
  assumes i: "br_inv {} s"
  shows "br_inv {} (cancelAllRetries s)"
proof -
  have clear: "br_inv UNIV (clear_timer t z)" if "br_inv UNIV z" for t z
    using that drop_timer_inv[OF that, of _ UNIV] by (simp add: clear_timer_def split: option.splits)
  have "br_inv UNIV (fold (\<lambda>(_, e). clear_timer (re_timer (entry_of s e))) m z)" if "br_inv UNIV z" for m z
    using that by (induction m arbitrary: z) (auto intro: clear)
  then have "br_inv UNIV (fold (\<lambda>(_, e). clear_timer (re_timer (entry_of s e))) (br_active s) s)"
    using br_inv_mono[OF i] by blast
  then show ?thesis
    by (auto simp: cancelAllRetries_def br_inv_defs armed_def)
qed

lemma fires_inv:
  assumes i: "br_inv {} s"
  shows "br_inv {} (timer_fires tid s)"
proof (cases "map_of (br_timers s) tid")
  case (Some e)
  then have m: "(tid, e) \<in> set (br_timers s)" by (rule map_of_SomeD)
  have to: "timers_ok s" using i by (simp add: br_inv_def)
  have e: "e < length (br_entries s)" "\<not> re_resolved (entry_of s e)" "e \<notin> set (br_polls s)"
      "re_timer (entry_of s e) = Some tid"
    using m to by (auto simp: timers_ok_def)
  let ?s = "s\<lparr>br_timers := filter (\<lambda>(t, _). t \<noteq> tid) (br_timers s)\<rparr>"
  have "e' = e" if "(tid, e') \<in> set (br_timers s)" for e'
    using eq_key_imp_eq_value[OF _ that m] to by (simp add: timers_ok_def)
  then have j: "br_inv {e} ?s" by (intro drop_timer_inv[OF i]) auto
  have "t = tid" if "(t, e) \<in> set (br_timers s)" for t
    using to that e(4) by (auto simp: timers_ok_def)
  then have na: "\<not> armed ?s e" by (force simp: armed_def)
  have arm: "armed s e" using m by (force simp: armed_def)
  let ?t = "?s\<lparr>br_polls := br_polls s @ [e], br_checks := br_checks s @ [e]\<rparr>"
  have ar: "armed ?t = armed ?s" by (auto simp: armed_def)
  have "timers_ok ?t" using j na by (force simp: br_inv_def timers_ok_def armed_def)
  moreover have "handles_ok ?t" using j by (auto simp: br_inv_def handles_ok_def)
  moreover have "logs_ok ?t" using j e by (auto simp: br_inv_def logs_ok_def)
  moreover have "active_ok {} ?t" using j by (auto simp: br_inv_def active_ok_def ar)
  moreover have "counts_ok ?t"
    using j i na arm by (auto simp: br_inv_def counts_ok_def ar)
  ultimately show ?thesis using Some e(2) by (simp add: timer_fires_def Let_def br_inv_def)
qed (use i in \<open>simp add: timer_fires_def\<close>)

lemma answers_inv:
  assumes i: "br_inv {} s"
  shows "br_inv {} (poll_answers now e answer s)"
proof (cases "e \<in> set (br_polls s)")
  case True
  let ?s = "s\<lparr>br_polls := remove1 e (br_polls s)\<rparr>"
  have d: "distinct (br_polls s)" "e < length (br_entries s)" using i True by (auto simp: br_inv_def logs_ok_def)
  have p: "set (br_polls ?s) = set (br_polls s) - {e}" using d by simp
  have na: "\<not> armed ?s e" using i True by (auto simp: br_inv_def timers_ok_def armed_def)
  have ar: "armed ?s = armed s" by (auto simp: armed_def)
  have "br_inv {e} ?s"
    using i d p by (auto simp: br_inv_def timers_ok_def handles_ok_def logs_ok_def active_ok_def counts_ok_def ar)
  then show ?thesis
    using True resolve_entry_inv[OF _ _ na] schedulePoll_inv[OF _ _ na] d p
    by (simp add: poll_answers_def Let_def split: poll_answer.splits bank_status.splits)
qed (use i in \<open>simp add: poll_answers_def\<close>)

lemma br_apply_inv: "br_inv {} s \<Longrightarrow> br_inv {} (br_apply op s)"
  by (cases op) (simp_all add: start_inv force_inv cancel_inv fires_inv answers_inv)

lemma br_run_inv: "br_inv {} s \<Longrightarrow> br_inv {} (br_run ops s)"
  by (induction ops arbitrary: s) (simp_all add: br_run_def br_apply_inv)

lemma br_empty_inv: "br_inv {} br_empty"
  by (simp add: br_empty_def br_inv_defs)

section \<open>Properties\<close>

lemma count_distinct: "distinct xs \<Longrightarrow> count_list xs x = (if x \<in> set xs then 1 else 0)"
  by (induction xs) auto

lemmas run_inv = br_run_inv[OF br_empty_inv]

text \<open>C31: polling is bounded. Whatever the bank, the application and the clock do, and in whatever
  order timers fire and answers arrive, no retry makes more than 1440 status requests.\<close>

theorem bank_retry_bounded:
  "count_list (br_checks (br_run ops br_empty)) e \<le> 1440"
proof (cases "e < length (br_entries (br_run ops br_empty))")
  case True
  then show ?thesis using run_inv[of ops] MAX_POLL_ATTEMPTS_eq by (fastforce simp: br_inv_def counts_ok_def)
next
  case False
  then have "e \<notin> set (br_checks (br_run ops br_empty))" using run_inv[of ops] by (auto simp: br_inv_def logs_ok_def)
  then show ?thesis by (simp add: count_list_0_iff)
qed

text \<open>C32: an active retry is never stuck and never doubled. In every reachable state a payment in the
  map of active retries is unresolved and waits for exactly one thing: its timer or one status
  request.\<close>

theorem active_retry_waits:
  assumes "isRetrying paymentId (br_run ops br_empty)"
  shows "\<exists>e. jm_get (br_active (br_run ops br_empty)) paymentId = Some e \<and>
    \<not> re_resolved (entry_of (br_run ops br_empty) e) \<and>
    count_list (map snd (br_timers (br_run ops br_empty))) e + count_list (br_polls (br_run ops br_empty)) e = 1"
proof -
  let ?s = "br_run ops br_empty"
  note i = run_inv[of ops]
  from assms obtain e where e: "jm_get (br_active ?s) paymentId = Some e"
    by (auto simp: isRetrying_def jm_has_def)
  with i have u: "\<not> re_resolved (entry_of ?s e)" "armed ?s e \<or> e \<in> set (br_polls ?s)"
    by (auto simp: br_inv_def active_ok_def)
  have to: "timers_ok ?s" and lo: "distinct (br_polls ?s)" using i by (auto simp: br_inv_def logs_ok_def)
  have "distinct (map snd (br_timers ?s))"
  proof -
    have own: "re_timer (entry_of ?s b) = Some a" if "(a, b) \<in> set (br_timers ?s)" for a b
      using to that by (simp add: timers_ok_def)
    have "distinct (br_timers ?s)" using to by (simp add: timers_ok_def distinct_map)
    moreover have "inj_on snd (set (br_timers ?s))"
      by (rule inj_onI) (metis own option.inject prod.collapse)
    ultimately show ?thesis by (simp add: distinct_map)
  qed
  then have c: "count_list (map snd (br_timers ?s)) e = (if armed ?s e then 1 else 0)"
    by (simp add: armed_def count_distinct)
  have d: "count_list (br_polls ?s) e = (if e \<in> set (br_polls ?s) then 1 else 0)"
    using lo by (simp add: count_distinct)
  have "armed ?s e \<Longrightarrow> e \<notin> set (br_polls ?s)" using to by (auto simp: timers_ok_def armed_def)
  with e u c d show ?thesis by auto
qed

theorem active_retry_waits_witness:
  "\<exists>e. jm_get (br_active (br_run [Start 0 0 ''p'', TimerFires 0] br_empty)) ''p'' = Some e \<and>
    count_list (br_polls (br_run [Start 0 0 ''p'', TimerFires 0] br_empty)) e = 1"
proof -
  let ?s = "br_run [Start 0 0 ''p'', TimerFires 0] br_empty"
  have "isRetrying ''p'' ?s" "br_timers ?s = []" by code_simp+
  then show ?thesis using active_retry_waits[of "''p''" "[Start 0 0 ''p'', TimerFires 0]"] by auto
qed

text \<open>Runs in which no payment is forced while a status request of it is in flight.\<close>

definition quiet_op :: "br_op \<Rightarrow> bank_retry \<Rightarrow> bool" where
  "quiet_op op s = (case op of
     Force pid _ \<Rightarrow> (case jm_get (br_active s) pid of None \<Rightarrow> True | Some e \<Rightarrow> e \<notin> set (br_polls s))
   | _ \<Rightarrow> True)"

fun quiet :: "br_op list \<Rightarrow> bank_retry \<Rightarrow> bool" where
  "quiet [] s = True"
| "quiet (op # ops) s = (quiet_op op s \<and> quiet ops (br_apply op s))"

definition once :: "bank_retry \<Rightarrow> bool" where
  "once s \<longleftrightarrow> (\<forall>e < length (br_entries s).
     count_list (map fst (br_resolutions s)) e = (if re_resolved (entry_of s e) then 1 else 0) \<and>
     (re_resolved (entry_of s e) \<longrightarrow> e \<notin> set (br_polls s)))"

lemma resolve_once:
  "once s \<Longrightarrow> e < length (br_entries s) \<Longrightarrow> \<not> re_resolved (entry_of s e) \<Longrightarrow> e \<notin> set (br_polls s) \<Longrightarrow>
    once (resolve_entry e final s)"
  by (simp add: once_def resolve_entry_def Let_def entry_of_update)

lemma schedulePoll_once:
  "once s \<Longrightarrow> e < length (br_entries s) \<Longrightarrow> e \<notin> set (br_polls s) \<Longrightarrow> once (schedulePoll now e s)"
  using resolve_once[of s e] by (simp add: schedulePoll_def Let_def) (simp add: once_def entry_of_update)

lemma clear_once: "once s \<Longrightarrow> once (clear_timer t s)"
  by (simp add: once_def)

lemma apply_once:
  assumes i: "br_inv {} s" and o: "once s" and q: "quiet_op op s"
  shows "once (br_apply op s)"
proof (cases op)
  case (Start now now' pid)
  let ?n = "length (br_entries s)"
  let ?s = "s\<lparr>br_entries := br_entries s @ [\<lparr>re_paymentId = pid, re_startTime = now, re_attempt = 0,
     re_timer = None, re_resolved = False\<rparr>], br_active := jm_set pid ?n (br_active s)\<rparr>"
  have l: "?n \<notin> set (br_polls s)" "count_list (map fst (br_resolutions s)) ?n = 0"
    using i by (auto simp: br_inv_def logs_ok_def count_list_0_iff)
  with o have "once ?s" by (auto simp: once_def less_Suc_eq)
  then have "once (schedulePoll now' ?n ?s)" by (rule schedulePoll_once) (use l in simp_all)
  with o show ?thesis by (simp add: Start startBankRetry_def Let_def)
next
  case (Force pid final)
  show ?thesis
  proof (cases "jm_get (br_active s) pid")
    case (Some e)
    then have "e < length (br_entries s)" "\<not> re_resolved (entry_of s e)" "e \<notin> set (br_polls s)"
      using i q Force by (auto simp: br_inv_def active_ok_def quiet_op_def)
    then show ?thesis using resolve_once[OF clear_once[OF o]] by (simp add: Force forceResolve_def Some)
  qed (simp add: Force forceResolve_def o)
next
  case CancelAll
  have "once (fold (\<lambda>(_, e). clear_timer (re_timer (entry_of s e))) m z)" if "once z" for m z
    using that by (induction m arbitrary: z) (auto intro: clear_once)
  from this[OF o, of "br_active s"] show ?thesis by (simp add: CancelAll cancelAllRetries_def once_def)
next
  case (TimerFires tid)
  then show ?thesis
    using o by (auto simp: timer_fires_def once_def Let_def split: option.splits)
next
  case (PollAnswers now e answer)
  show ?thesis
  proof (cases "e \<in> set (br_polls s)")
    case True
    let ?s = "s\<lparr>br_polls := remove1 e (br_polls s)\<rparr>"
    have d: "distinct (br_polls s)" "e < length (br_entries s)" using i True by (auto simp: br_inv_def logs_ok_def)
    have u: "\<not> re_resolved (entry_of s e)" using o d True by (auto simp: once_def)
    have s: "once ?s" using o d by (auto simp: once_def)
    show ?thesis
      using True u d resolve_once[OF s] schedulePoll_once[OF s]
      by (simp add: PollAnswers poll_answers_def Let_def split: poll_answer.splits bank_status.splits)
  qed (simp add: PollAnswers poll_answers_def o)
qed

text \<open>C33: a retry is resolved once. When no payment is forced while its status is being requested,
  every retry calls \<open>onResolved\<close> at most once, and exactly once when it is resolved.\<close>

theorem resolved_once:
  assumes "quiet ops br_empty" and "e < length (br_entries (br_run ops br_empty))"
  shows "count_list (map fst (br_resolutions (br_run ops br_empty))) e
    = (if re_resolved (entry_of (br_run ops br_empty) e) then 1 else 0)"
proof -
  have "quiet ops s \<Longrightarrow> br_inv {} s \<Longrightarrow> once s \<Longrightarrow> once (br_run ops s)" for s
    by (induction ops arbitrary: s) (auto simp: br_run_def intro: apply_once br_apply_inv)
  moreover have "once br_empty" by (simp add: once_def br_empty_def)
  ultimately show ?thesis using assms br_empty_inv by (simp add: once_def)
qed

theorem resolved_once_witness:
  "let ops = [Start 0 0 ''p'', TimerFires 0, PollAnswers 60000 0 (Status BankPending), Force ''p'' COMMITTED, TimerFires 1]
   in count_list (map fst (br_resolutions (br_run ops br_empty))) 0 = 1"
proof -
  let ?ops = "[Start 0 0 ''p'', TimerFires 0, PollAnswers 60000 0 (Status BankPending), Force ''p'' COMMITTED, TimerFires 1]"
  have "quiet ?ops br_empty" "0 < length (br_entries (br_run ?ops br_empty))"
    "re_resolved (entry_of (br_run ?ops br_empty) 0)"
    by code_simp+
  with resolved_once[of ?ops 0] show ?thesis by (simp only: Let_def if_True)
qed

text \<open>Without that restriction a payment forced to one state may then be resolved to another.\<close>

lemma forced_during_poll_resolves_twice:
  "br_resolutions (br_run [Start 0 0 ''p'', TimerFires 0, Force ''p'' ROLLED_BACK,
     PollAnswers 60000 0 (Status BankSucceeded)] br_empty) = [(0, ROLLED_BACK), (0, COMMITTED)]"
  by code_simp

text \<open>A request in flight at a cancellation goes on, and drops a later retry from the map.\<close>

lemma cancelled_poll_unregisters_new_retry:
  "let s = br_run [Start 0 0 ''p'', TimerFires 0, CancelAll, Start 1 1 ''p'',
      PollAnswers 60000 0 (Status BankSucceeded)] br_empty
   in \<not> isRetrying ''p'' s \<and> br_timers s = [(1, 1)]"
  by code_simp

section \<open>The outcome of a retry\<close>

text \<open>The contract: the first definite answer decides; \<open>n\<close> is the number of the request.\<close>

fun retry_spec :: "nat \<Rightarrow> poll_answer list \<Rightarrow> transaction_state option" where
  "retry_spec n [] = None"
| "retry_spec n (a # as) =
     (if a = Status BankSucceeded then Some COMMITTED
      else if a = Status BankFailed then Some ROLLED_BACK
      else if MAX_POLL_ATTEMPTS \<le> n then Some MANUAL_REVIEW
      else retry_spec (Suc n) as)"

text \<open>One round of the only retry: its timer fires and the status request is answered at \<open>now\<close>.\<close>

definition poll_round :: "int \<times> poll_answer \<Rightarrow> bank_retry \<Rightarrow> bank_retry" where
  "poll_round r s = (case re_timer (entry_of s 0) of
     None \<Rightarrow> s | Some tid \<Rightarrow> br_run [TimerFires tid, PollAnswers (fst r) 0 (snd r)] s)"

definition waiting :: "string \<Rightarrow> int \<Rightarrow> nat \<Rightarrow> bank_retry" where
  "waiting pid t0 n = \<lparr>br_entries = [\<lparr>re_paymentId = pid, re_startTime = t0, re_attempt = Suc n,
       re_timer = Some n, re_resolved = False\<rparr>],
     br_active = [(pid, 0)], br_timers = [(n, 0)], br_fresh = Suc n, br_polls = [],
     br_checks = replicate n 0, br_resolutions = []\<rparr>"

lemma start_waiting: "0 \<le> t1 - t0 \<Longrightarrow> t1 - t0 < MAX_POLL_DURATION_MS \<Longrightarrow>
    br_run [Start t0 t1 pid] br_empty = waiting pid t0 0"
  by (simp add: br_run_def startBankRetry_def br_empty_def jm_has_def schedulePoll_def entry_of_def
      update_entry_def waiting_def Let_def MAX_POLL_ATTEMPTS_eq)

lemma round_waiting:
  assumes "fst r - t0 < MAX_POLL_DURATION_MS"
  shows "poll_round r (waiting pid t0 n) =
    (if snd r = Status BankSucceeded then resolve_entry 0 COMMITTED ((waiting pid t0 n)\<lparr>br_timers := [], br_checks := replicate (Suc n) 0\<rparr>)
     else if snd r = Status BankFailed then resolve_entry 0 ROLLED_BACK ((waiting pid t0 n)\<lparr>br_timers := [], br_checks := replicate (Suc n) 0\<rparr>)
     else if MAX_POLL_ATTEMPTS \<le> Suc n then resolve_entry 0 MANUAL_REVIEW ((waiting pid t0 n)\<lparr>br_timers := [], br_checks := replicate (Suc n) 0\<rparr>)
     else waiting pid t0 (Suc n))"
  using assms
  by (cases "snd r") (auto simp: poll_round_def waiting_def br_run_def timer_fires_def poll_answers_def
      entry_of_def schedulePoll_def update_entry_def Let_def replicate_append_same
      split: bank_status.splits)

lemma round_resolved:
  "re_resolved (entry_of s 0) \<Longrightarrow> br_timers s = [] \<Longrightarrow> br_polls s = [] \<Longrightarrow> poll_round r s = s"
  by (simp add: poll_round_def br_run_def timer_fires_def poll_answers_def split: option.splits)

lemma rounds_resolved:
  "re_resolved (entry_of s 0) \<Longrightarrow> br_timers s = [] \<Longrightarrow> br_polls s = [] \<Longrightarrow> fold poll_round rs s = s"
  by (induction rs) (simp_all add: round_resolved)

lemma rounds_spec:
  "(\<And>r. r \<in> set rs \<Longrightarrow> fst r - t0 < MAX_POLL_DURATION_MS) \<Longrightarrow>
    map snd (br_resolutions (fold poll_round rs (waiting pid t0 n)))
      = (case retry_spec (Suc n) (map snd rs) of None \<Rightarrow> [] | Some f \<Rightarrow> [f])"
proof (induction rs arbitrary: n)
  case (Cons r rs)
  have "fst r - t0 < MAX_POLL_DURATION_MS" using Cons.prems by simp
  note step = round_waiting[OF this, of pid n]
  let ?res = "\<lambda>f. resolve_entry 0 f ((waiting pid t0 n)\<lparr>br_timers := [], br_checks := replicate (Suc n) 0\<rparr>)"
  have "fold poll_round rs (?res f) = ?res f" "map snd (br_resolutions (?res f)) = [f]" for f
    by (rule rounds_resolved; simp add: resolve_entry_def waiting_def update_entry_def entry_of_def Let_def)
      (simp add: resolve_entry_def waiting_def update_entry_def Let_def)
  with Cons step show ?case by simp
qed (simp add: waiting_def)


end
