(* ===== verification/Webhooks.thy ===== *)
theory Webhooks
  imports Flagship BankRetry Names
begin

text \<open>
  The webhook example (examples/webhooks/src/index.ts): a program that signs notifications the way the
  providers do and hands them, genuine and tampered with, to the three verifiers, then delivers one event
  twice and settles a bank retry by hand. The digests are arguments. The signing side is the other half of
  Signature: what is signed is accepted, and it is accepted under no other text, secret or time unless the
  digests collide.
\<close>

section \<open>Signature fixtures\<close>

definition STRIPE_SECRET :: string where "STRIPE_SECRET = ''sk_test_demo''"
definition STRIPE_WEBHOOK_SECRET :: string where "STRIPE_WEBHOOK_SECRET = ''whsec_demo_secret''"
definition PAYFAST_PASSPHRASE :: string where "PAYFAST_PASSPHRASE = ''demo passphrase''"
definition OZOW_API_SECRET :: string where "OZOW_API_SECRET = ''ozow-demo-secret''"

definition stripe :: stripe_config where
  "stripe = \<lparr>sc_secretKey = STRIPE_SECRET, sc_webhookSecret = Some STRIPE_WEBHOOK_SECRET, sc_apiVersion = None,
     sc_webhookToleranceSeconds = Some (Fin 300)\<rparr>"

definition payfast :: payfast_config where
  "payfast = \<lparr>pf_merchantId = ''10000100'', pf_passphrase = PAYFAST_PASSPHRASE, pf_sandbox = None\<rparr>"

definition ozow :: ozow_config where
  "ozow = \<lparr>oz_apiKey = ''ozow-key'', oz_apiSecret = OZOW_API_SECRET, oz_sandbox = None\<rparr>"

definition other_stripe :: stripe_config where
  "other_stripe = \<lparr>sc_secretKey = STRIPE_SECRET, sc_webhookSecret = Some ''whsec_other'', sc_apiVersion = None,
     sc_webhookToleranceSeconds = None\<rparr>"

text \<open>The header of a body signed at a time in seconds.\<close>

definition signed_header :: "(string \<Rightarrow> string \<Rightarrow> string) \<Rightarrow> string \<Rightarrow> string \<Rightarrow> int \<Rightarrow> string" where
  "signed_header hmac_sha256 secret body t =
     (let v1 = hmac_sha256 secret (int_to_string t @ ''.'' @ body)
      in ''t='' @ int_to_string t @ '',v1='' @ v1)"

definition stripeHeader :: "(string \<Rightarrow> string \<Rightarrow> string) \<Rightarrow> string \<Rightarrow> int \<Rightarrow> string" where
  "stripeHeader hmac_sha256 body signedAtSeconds = signed_header hmac_sha256 STRIPE_WEBHOOK_SECRET body signedAtSeconds"

text \<open>\<open>params.toString()\<close>: the serializer of forms.\<close>

definition form_char :: "char \<Rightarrow> string" where
  "form_char c = (if c = CHR '' '' then ''+''
     else if is_word_char c \<or> c \<in> {CHR ''*'', CHR ''-'', CHR ''.''} then [c] else percent_escape c)"

definition form_encode :: "string \<Rightarrow> string" where
  "form_encode s = concat (map form_char s)"

definition params_toString :: "(string \<times> string) list \<Rightarrow> string" where
  "params_toString params = join ''&'' (map (\<lambda>(k, v). form_encode k @ ''='' @ form_encode v) params)"

definition payfast_fields :: "(string \<times> string) list" where
  "payfast_fields = [(''m_payment_id'', ''ord_1001''), (''pf_payment_id'', ''6987541''), (''payment_status'', ''COMPLETE''),
     (''item_name'', ''Widget Pro''), (''amount_gross'', ''149.99''), (''email_address'', ''ada@acme.test'')]"

definition payfast_signing_string :: "(string \<times> string) list \<Rightarrow> string" where
  "payfast_signing_string fvs =
     join ''&'' (map (\<lambda>(k, v). k @ ''='' @ plus_spaces (encodeURIComponent v)) fvs) @
     ''&passphrase='' @ plus_spaces (encodeURIComponent PAYFAST_PASSPHRASE)"

definition payfastBody :: "(string \<Rightarrow> string) \<Rightarrow> string \<times> string" where
  "payfastBody md5 = (params_toString payfast_fields, md5 (payfast_signing_string payfast_fields))"

text \<open>\<open>JSON.stringify\<close> without indentation.\<close>

fun json_compact :: "json \<Rightarrow> string" where
  "json_compact JNull = ''null''"
| "json_compact (JBool b) = (if b then ''true'' else ''false'')"
| "json_compact (JNum r) = number_to_string (Fin r)"
| "json_compact (JStr s) = json_quote s"
| "json_compact (JArr xs) = ''['' @ join '','' (map json_compact xs) @ '']''"
| "json_compact (JObj fs) = ''{'' @ join '','' (map (\<lambda>(k, v). json_quote k @ '':'' @ json_compact v) fs) @ ''}''"

definition stripe_event :: json where
  "stripe_event = JObj [(''id'', JStr ''evt_demo_1''), (''type'', JStr ''payment_intent.succeeded''),
     (''data'', JObj [(''object'', JObj [(''id'', JStr ''pi_demo_1''), (''orderId'', JStr ''ord_1001'')])])]"

definition stripePayload :: string where "stripePayload = json_compact stripe_event"

definition ozowPayload :: string where
  "ozowPayload = json_compact (JObj [(''id'', JStr ''oz_demo_1''), (''status'', JStr ''Complete''), (''amount'', number_json (parse_float ''149.99''))])"

text \<open>\<open>s.replace(old, new)\<close> for a replacement without \<open>$\<close>: the first occurrence.\<close>

fun replace_first :: "string \<Rightarrow> string \<Rightarrow> string \<Rightarrow> string" where
  "replace_first old new [] = (if old = [] then new else [])"
| "replace_first old new (c # s) =
     (if starts_with (c # s) old then new @ drop (length old) (c # s) else c # replace_first old new s)"

section \<open>The program\<close>

text \<open>Each part reads the clock anew; \<open>clock i\<close> is its \<open>i\<close>-th reading. The lists are in the order printed.\<close>

record webhook_report =
  wr_stripe :: "bool list"
  wr_payfast :: "bool list"
  wr_ozow :: "bool list"
  wr_deliveries :: "webhook_result list"
  wr_handled :: nat
  wr_retrying :: "bool \<times> nat"
  wr_resolved :: "transaction_state option \<times> bool"

definition stripe_demo :: "(string \<Rightarrow> string \<Rightarrow> string) \<Rightarrow> (nat \<Rightarrow> int) \<Rightarrow> bool list" where
  "stripe_demo hmac_sha256 clock =
     (let sign = (\<lambda>i. stripeHeader hmac_sha256 stripePayload (clock i div 1000));
          verify = (\<lambda>i. stripe_verifyWebhookSignature hmac_sha256 (clock i))
      in [verify 1 stripe stripePayload (sign 0),
          verify 3 stripe (replace_first ''pi_demo_1'' ''pi_hacked'' stripePayload) (sign 2),
          verify 5 other_stripe stripePayload (sign 4),
          verify 7 stripe stripePayload (stripeHeader hmac_sha256 stripePayload (clock 6 div 1000 - 3600))])"

definition payfast_demo :: "(string \<Rightarrow> string) \<Rightarrow> bool list" where
  "payfast_demo md5 =
     (let (pfBody, pfSignature) = payfastBody md5
      in [payfast_verifyWebhookSignature md5 payfast pfBody pfSignature,
          payfast_verifyWebhookSignature md5 payfast (pfBody @ ''&signature='' @ pfSignature) [],
          payfast_verifyWebhookSignature md5 payfast (replace_first ''149.99'' ''1.99'' pfBody) pfSignature])"

definition ozow_demo :: "(string \<Rightarrow> string \<Rightarrow> string) \<Rightarrow> bool list" where
  "ozow_demo hmac_sha512 =
     (let ozowSignature = hmac_sha512 OZOW_API_SECRET ozowPayload
      in [ozow_verifyWebhookSignature hmac_sha512 ozow ozowPayload ozowSignature,
          ozow_verifyWebhookSignature hmac_sha512 ozow (replace_first ''149.99'' ''0.01'' ozowPayload) ozowSignature])"

text \<open>The handler counts its calls; the registry and the cache start empty.\<close>

definition demo_webhooks :: "nat webhooks" where
  "demo_webhooks = \<lparr>wh_cache = [], wh_handlers = handle_webhook ''stripe'' (\<lambda>event handled. (Inr (), handled + 1)) [], wh_world = 0\<rparr>"

definition demo_readings :: "(nat \<Rightarrow> int) \<Rightarrow> nat \<Rightarrow> readings" where
  "demo_readings clock i = \<lparr>t_evict = clock i, t_check = clock (i + 1), t_mark = clock (i + 2)\<rparr>"

definition delivery_demo :: "(string \<Rightarrow> json result) \<Rightarrow> nat list \<Rightarrow> (nat \<Rightarrow> int) \<Rightarrow> (webhook_result list \<times> nat) result" where
  "delivery_demo parse rnd clock =
     and_then (and_then (parse stripePayload) (stripe_parseWebhookEvent rnd (clock 8))) (\<lambda>pe.
     and_then (pipeline_event pe) (\<lambda>event.
       (let (r1, st1) = processWebhook (demo_readings clock 9) event demo_webhooks
        in and_then r1 (\<lambda>o1.
             (let (r2, st2) = processWebhook (demo_readings clock 12) event st1
              in and_then r2 (\<lambda>o2. Inr ([o1, o2], wh_world st2)))))))"

definition bank_demo :: "(nat \<Rightarrow> int) \<Rightarrow> (bool \<times> nat) \<times> transaction_state option \<times> bool" where
  "bank_demo clock =
     (let paymentId = ''pi_bank_timeout_1'';
          s = startBankRetry (clock 15) (clock 16) paymentId br_empty;
          s' = forceResolve paymentId COMMITTED s;
          resolvedState = (if br_resolutions s' = [] then None else Some (snd (last (br_resolutions s'))))
      in ((isRetrying paymentId s, getRetryAttempt paymentId s), resolvedState, isRetrying paymentId s'))"

definition webhooks_main :: "(string \<Rightarrow> string \<Rightarrow> string) \<Rightarrow> (string \<Rightarrow> string) \<Rightarrow> (string \<Rightarrow> string \<Rightarrow> string)
    \<Rightarrow> (string \<Rightarrow> json result) \<Rightarrow> nat list \<Rightarrow> (nat \<Rightarrow> int) \<Rightarrow> webhook_report result" where
  "webhooks_main hmac_sha256 md5 hmac_sha512 parse rnd clock =
     and_then (delivery_demo parse rnd clock) (\<lambda>(outcomes, handled).
       (let (retrying, resolved) = bank_demo clock
        in Inr \<lparr>wr_stripe = stripe_demo hmac_sha256 clock, wr_payfast = payfast_demo md5, wr_ozow = ozow_demo hmac_sha512,
                 wr_deliveries = outcomes, wr_handled = handled, wr_retrying = retrying, wr_resolved = resolved\<rparr>))"

section \<open>What is signed is accepted, and nothing else\<close>

text \<open>Digests have a fixed length and lower-case digits.\<close>

definition digest_ok :: "nat \<Rightarrow> string \<Rightarrow> bool" where
  "digest_ok n d \<longleftrightarrow> lower_hex d \<and> length d = n \<and> 0 < n"

lemma timing_safe_digests:
  assumes "digest_ok n a" "digest_ok n d"
  shows "timingSafeEqualHex a d \<longleftrightarrow> a = d"
proof -
  have "to_lower a = a" using assms(1)
    by (auto simp: digest_ok_def lower_hex_def list_all_iff to_lower_def dest: is_hex_char_val intro: map_idI)
  moreover have "hex_decode d \<noteq> []" using assms(2) length_hex_decode[of d]
    by (cases d rule: hex_decode.cases) (auto simp: digest_ok_def lower_hex_def)
  ultimately show ?thesis
    using hex_decode_eq[of d a] assms by (auto simp: timingSafeEqualHex_def digest_ok_def Let_def)
qed

lemma signed_header_accepted:
  assumes "\<And>k m. digest_ok n (hmac k m)" and "sc_webhookSecret config = Some secret" "secret \<noteq> []"
    and "sc_webhookToleranceSeconds config \<in> {None, Some (Fin 300)}"
    and "0 \<le> now" "now < 2 ^ 52" "0 \<le> t" "t < 2 ^ 52"
  shows "stripe_verifyWebhookSignature hmac now config body (signed_header hmac signer body' t) \<longleftrightarrow>
    \<bar>now div 1000 - t\<bar> \<le> 300 \<and>
    hmac signer (int_to_string t @ ''.'' @ body') = hmac secret (int_to_string t @ ''.'' @ body)"
proof -
  obtain k where k: "t = int k" using assms(7) nonneg_int_cases by blast
  let ?d = "hmac signer (int_to_string t @ ''.'' @ body')"
  have t: "int_to_string (int k) = nat_to_string k" by (simp add: int_to_string_def)
  have d: "lower_hex ?d" "?d \<noteq> []" using assms(1)[of signer "int_to_string t @ ''.'' @ body'"] by (auto simp: digest_ok_def)
  have p: "parseStripeSignatureHeader (signed_header hmac signer body' t) = \<lparr>ss_timestamp = Some (nat_to_string k), ss_signatures = [?d]\<rparr>"
    using parse_genuine_header[OF d, of k] by (simp add: signed_header_def k t Let_def)
  have "k < 2 ^ 52" using assms(8) by (simp add: k)
  note age = stripe_age_exact[OF assms(5,6) this]
  have n: "js_Number (nat_to_string k) = Fin (of_nat k)" using \<open>k < 2 ^ 52\<close> by (intro js_Number_nat) auto
  have tol: "js_less (Fin 300) (Fin (of_int \<bar>now div 1000 - int k\<bar>)) \<longleftrightarrow> \<not> \<bar>now div 1000 - int k\<bar> \<le> 300"
    unfolding js_less.simps not_le by (metis of_int_less_iff of_int_numeral)
  have "signed_header hmac signer body' t \<noteq> []" by (simp add: signed_header_def Let_def)
  then show ?thesis
    using assms(2-4) p age n tol timing_safe_digests[OF assms(1) assms(1)]
    by (auto simp: stripe_verifyWebhookSignature_def truthy_def is_finite_def hmacSha256Hex_def Let_def k t)
qed

lemmas stripeHeader_accepted = signed_header_accepted[where signer = STRIPE_WEBHOOK_SECRET, folded stripeHeader_def]

lemma ozow_accepted:
  assumes "\<And>k m. digest_ok n (hmac k m)"
  shows "ozow_verifyWebhookSignature hmac config body (hmac secret body') \<longleftrightarrow> hmac secret body' = hmac (oz_apiSecret config) body"
proof -
  have "hmac secret body' \<noteq> []" using assms[of secret body'] by (auto simp: digest_ok_def)
  then show ?thesis
    using timing_safe_digests[OF assms assms] by (simp add: ozow_verifyWebhookSignature_def hmacSha512Hex_def)
qed

subsection \<open>Forms\<close>

text \<open>Parsing a serialized form gives back its fields, whatever bytes the keys and values hold.\<close>

lemma form_char_decode: "form_decode (form_char c @ s) = c # form_decode s"
proof -
  obtain x y where e: "percent_escape c = [CHR ''%'', upper_char (digit_char x), upper_char (digit_char y)]"
    and b: "x < 16" "y < 16" "char_of (16 * x + y) = c"
    by (rule percent_escape_shape)
  have "form_decode (percent_escape c @ s) = c # form_decode s"
    using upper_digit_props[OF b(1)] upper_digit_props[OF b(2)] b(3) by (simp add: e)
  then show ?thesis by (auto simp: form_char_def dest: word_char_props)
qed

lemma form_decode_form: "form_decode (form_encode s) = s"
  by (induction s) (simp_all add: form_encode_def form_char_decode)

lemma percent_escape_no_sep: "set (percent_escape c) \<inter> {CHR ''&'', CHR ''='', CHR ''?''} = {}"
proof -
  obtain x y where e: "percent_escape c = [CHR ''%'', upper_char (digit_char x), upper_char (digit_char y)]"
    and b: "x < 16" "y < 16"
    by (rule percent_escape_shape)
  have "hex_val CHR ''&'' = None" "hex_val CHR ''='' = None" "hex_val CHR ''?'' = None" by code_simp+
  then show ?thesis using upper_digit_props[OF b(1)] upper_digit_props[OF b(2)] by (auto simp: e)
qed

lemma form_char_no_sep: "set (form_char c) \<inter> {CHR ''&'', CHR ''='', CHR ''?''} = {}"
  using percent_escape_no_sep[of c] by (auto simp: form_char_def dest: word_char_props)

lemma form_encode_no_sep: "set (form_encode s) \<inter> {CHR ''&'', CHR ''='', CHR ''?''} = {}"
proof (induction s)
  case (Cons c s)
  then show ?case using form_char_no_sep[of c] by (auto simp: form_encode_def)
qed (simp add: form_encode_def)

lemma form_field_form: "form_field (form_encode k @ ''='' @ form_encode v) = (k, v)"
proof -
  have "CHR ''='' \<notin> set (form_encode k)" using form_encode_no_sep[of k] by auto
  then have "index_of CHR ''='' (form_encode k @ CHR ''='' # form_encode v) = Some (length (form_encode k))"
    by (rule index_of_append)
  then show ?thesis by (simp add: form_field_def form_decode_form)
qed

lemma form_parts:
  assumes "\<And>p. p \<in> set parts \<Longrightarrow> CHR ''&'' \<notin> set p \<and> p \<noteq> [] \<and> hd p \<noteq> CHR ''?''"
  shows "URLSearchParams (join ''&'' parts) = map form_field parts"
proof (cases parts)
  case Nil
  then show ?thesis by (simp add: URLSearchParams_def)
next
  case (Cons p ps)
  then have "split_on CHR ''&'' (join ''&'' parts) = parts" using assms by (intro split_on_join) auto
  moreover have "hd (join ''&'' parts) \<noteq> CHR ''?''"
    using assms[of p] Cons by (cases ps; cases p) auto
  moreover have "filter (\<lambda>p. p \<noteq> []) parts = parts" using assms by (auto simp: filter_id_conv)
  ultimately show ?thesis by (simp add: URLSearchParams_def Let_def)
qed

lemma form_part_ok:
  "CHR ''&'' \<notin> set (form_encode k @ ''='' @ form_encode v) \<and> form_encode k @ ''='' @ form_encode v \<noteq> [] \<and>
    hd (form_encode k @ ''='' @ form_encode v) \<noteq> CHR ''?''"
proof -
  have "hd (form_encode k) \<noteq> CHR ''?''" if "form_encode k \<noteq> []"
    using hd_in_set[OF that] form_encode_no_sep[of k] by auto
  then show ?thesis using form_encode_no_sep[of k] form_encode_no_sep[of v] by (auto simp: hd_append)
qed

theorem form_roundtrip: "URLSearchParams (params_toString fvs) = fvs"
proof -
  have "URLSearchParams (params_toString fvs) = map form_field (map (\<lambda>(k, v). form_encode k @ ''='' @ form_encode v) fvs)"
    unfolding params_toString_def by (rule form_parts) (use form_part_ok in auto)
  also have "\<dots> = fvs"
    unfolding map_map by (rule map_idI) (auto simp only: comp_def form_field_form split: prod.splits)
  finally show ?thesis .
qed

definition no_signature :: "(string \<times> string) list \<Rightarrow> bool" where
  "no_signature fvs \<longleftrightarrow> ''signature'' \<notin> fst ` set fvs"

lemma signing_string_agrees:
  assumes "no_signature fvs" "pf_passphrase config = PAYFAST_PASSPHRASE"
  shows "payfast_signing_string fvs = buildPayFastSigningString fvs @ ''&passphrase='' @ encodePayFastValue (pf_passphrase config)"
proof -
  have "filter (\<lambda>(k, _). k \<noteq> ''signature'') fvs = fvs" using assms(1) by (force simp: no_signature_def filter_id_conv)
  then show ?thesis
    by (simp add: payfast_signing_string_def buildPayFastSigningString_def plus_spaces_chars encodePayFastValue_chars assms(2))
qed

lemma trim_digest: "digest_ok n d \<Longrightarrow> trim d = d"
  by (intro trim_word) (auto simp: digest_ok_def lower_hex_def list_all_iff dest: hex_char_props)

lemma form_encode_hex: "list_all is_hex_char d \<Longrightarrow> form_encode d = d"
proof -
  have "\<forall>c :: char. is_hex_char c \<longrightarrow> is_word_char c \<and> c \<noteq> CHR '' ''" by code_simp
  then have "is_hex_char c \<Longrightarrow> form_char c = [c]" for c by (simp add: form_char_def)
  then show "list_all is_hex_char d \<Longrightarrow> form_encode d = d" by (induction d) (simp_all add: form_encode_def)
qed

lemma signed_form:
  assumes "digest_ok n d" "fvs \<noteq> []"
  shows "params_toString fvs @ ''&signature='' @ d = params_toString (fvs @ [(''signature'', d)])"
proof -
  have "form_encode d = d" using assms(1) by (simp add: digest_ok_def lower_hex_def form_encode_hex)
  moreover have "form_encode ''signature'' = ''signature''" by code_simp
  ultimately show ?thesis using assms(2) by (simp add: params_toString_def join_snoc)
qed

text \<open>A form is accepted under the signature of a text exactly if the digest is that of its own signing
  string, whether the signature comes beside the body or in it.\<close>

lemma payfast_accepted:
  assumes "\<And>m. digest_ok n (md5 m)" "no_signature fvs"
  shows "payfast_verifyWebhookSignature md5 config (params_toString fvs) (md5 m) \<longleftrightarrow>
      md5 m = md5 (buildPayFastSigningString fvs @ ''&passphrase='' @ encodePayFastValue (pf_passphrase config))" (is ?A)
    and "fvs \<noteq> [] \<Longrightarrow> payfast_verifyWebhookSignature md5 config (params_toString fvs @ ''&signature='' @ md5 m) [] \<longleftrightarrow>
      md5 m = md5 (buildPayFastSigningString fvs @ ''&passphrase='' @ encodePayFastValue (pf_passphrase config))" (is "_ \<Longrightarrow> ?B")
proof -
  have ne: "md5 m \<noteq> []" using assms(1)[of m] by (auto simp: digest_ok_def)
  note td = trim_digest[OF assms(1)] and ts = timing_safe_digests[OF assms(1) assms(1)]
  show ?A using ne by (simp add: payfast_verifyWebhookSignature_def form_roundtrip td ts md5Hex_def Let_def)
  assume "fvs \<noteq> []"
  note body = signed_form[OF assms(1) this]
  have "map_of fvs ''signature'' = None" using assms(2) by (simp add: no_signature_def map_of_eq_None_iff)
  then have "params_get (fvs @ [(''signature'', md5 m)]) ''signature'' = Some (md5 m)" by (simp add: params_get_def map_add_def)
  moreover have "buildPayFastSigningString (fvs @ [(''signature'', md5 m)]) = buildPayFastSigningString fvs"
    by (simp add: buildPayFastSigningString_def)
  ultimately show ?B unfolding body
    using ne by (simp add: payfast_verifyWebhookSignature_def form_roundtrip td ts md5Hex_def Let_def)
qed

section \<open>What the program reports\<close>

lemma clock_seconds:
  fixes clock :: "nat \<Rightarrow> int"
  assumes "mono clock" "i \<le> j" "clock j \<le> clock i + 300000"
  shows "\<bar>clock j div 1000 - clock i div 1000\<bar> \<le> 300" "\<not> \<bar>clock j div 1000 - (clock i div 1000 - 3600)\<bar> \<le> 300"
proof -
  have "clock i \<le> clock j" using assms(1,2) by (rule monoD)
  then have "clock i div 1000 \<le> clock j div 1000" by (rule zdiv_mono1) simp
  moreover have "clock j div 1000 \<le> (clock i + 300000) div 1000" using assms(3) by (rule zdiv_mono1) simp
  moreover have "(clock i + 300000) div 1000 = clock i div 1000 + 300" by simp
  ultimately show "\<bar>clock j div 1000 - clock i div 1000\<bar> \<le> 300" "\<not> \<bar>clock j div 1000 - (clock i div 1000 - 3600)\<bar> \<le> 300" by auto
qed

lemma stripe_demo_report:
  assumes "\<And>k m. digest_ok n (hmac k m)" and "mono clock" "3600000 \<le> clock 0" "clock 7 < 2 ^ 52" "clock 7 \<le> clock 0 + 300000"
  shows "stripe_demo hmac clock =
    [True,
     hmac STRIPE_WEBHOOK_SECRET (int_to_string (clock 2 div 1000) @ ''.'' @ stripePayload) =
       hmac STRIPE_WEBHOOK_SECRET (int_to_string (clock 2 div 1000) @ ''.'' @ replace_first ''pi_demo_1'' ''pi_hacked'' stripePayload),
     hmac STRIPE_WEBHOOK_SECRET (int_to_string (clock 4 div 1000) @ ''.'' @ stripePayload) =
       hmac ''whsec_other'' (int_to_string (clock 4 div 1000) @ ''.'' @ stripePayload),
     False]"
proof -
  have c: "3600000 \<le> clock i \<and> clock i < 2 ^ 52" if "i \<le> 7" for i
    using monoD[OF assms(2), of 0 i] monoD[OF assms(2) that] assms(3,4) by simp
  have w: "clock (Suc i) \<le> clock i + 300000" if "i \<le> 6" for i
    using monoD[OF assms(2), of "Suc i" 7] monoD[OF assms(2), of 0 i] assms(5) that by simp
  have sec: "0 \<le> clock i div 1000 - 3600 \<and> clock i div 1000 < 2 ^ 52" if "i \<le> 7" for i
    using c[OF that] zdiv_mono1[of 3600000 "clock i" 1000] zdiv_mono1[of "clock i" "2 ^ 52" 1000] by auto
  have accepted: "stripe_verifyWebhookSignature hmac (clock (Suc i)) config body (stripeHeader hmac body' (clock i div 1000)) \<longleftrightarrow>
      hmac STRIPE_WEBHOOK_SECRET (int_to_string (clock i div 1000) @ ''.'' @ body') = hmac secret (int_to_string (clock i div 1000) @ ''.'' @ body)"
    if "i \<le> 6" "sc_webhookSecret config = Some secret" "secret \<noteq> []"
      "sc_webhookToleranceSeconds config \<in> {None, Some (Fin 300)}" for i config body body' secret
    using stripeHeader_accepted[OF assms(1) that(2-4), where now = "clock (Suc i)" and t = "clock i div 1000" and body = body and body' = body'] that(1)
      c[of i] c[of "Suc i"] sec[of i] clock_seconds(1)[OF assms(2) _ w[OF that(1)]] by auto
  have stale: "\<not> stripe_verifyWebhookSignature hmac (clock 7) stripe stripePayload
      (stripeHeader hmac stripePayload (clock 6 div 1000 - 3600))"
    using stripeHeader_accepted[OF assms(1), where config = stripe and secret = STRIPE_WEBHOOK_SECRET and now = "clock 7"
        and t = "clock 6 div 1000 - 3600"]
      c[of 6] c[of 7] sec[of 6] clock_seconds(2)[OF assms(2), of 6 7] w[of 6]
    by (auto simp: stripe_def STRIPE_WEBHOOK_SECRET_def)
  have "sc_webhookSecret stripe = Some STRIPE_WEBHOOK_SECRET" "STRIPE_WEBHOOK_SECRET \<noteq> []"
    "sc_webhookToleranceSeconds stripe \<in> {None, Some (Fin 300)}" by (simp_all add: stripe_def STRIPE_WEBHOOK_SECRET_def)
  note ours = accepted[OF _ this]
  have other: "sc_webhookSecret other_stripe = Some ''whsec_other''" "''whsec_other'' \<noteq> []"
    "sc_webhookToleranceSeconds other_stripe \<in> {None, Some (Fin 300)}" by (simp_all add: other_stripe_def)
  show ?thesis
    using ours[of 0] ours[of 2] accepted[OF _ other, of 4] stale by (simp add: stripe_demo_def Let_def numeral_eq_Suc)
qed

definition tampered_fields :: "(string \<times> string) list" where
  "tampered_fields = map (\<lambda>(k, v). if k = ''amount_gross'' then (k, ''1.99'') else (k, v)) payfast_fields"

lemma payfast_tampered_body:
  "replace_first ''149.99'' ''1.99'' (params_toString payfast_fields) = params_toString tampered_fields"
  by code_simp

lemma payfast_demo_report:
  assumes "\<And>m. digest_ok n (md5 m)"
  shows "payfast_demo md5 =
    [True, True, md5 (payfast_signing_string payfast_fields) = md5 (payfast_signing_string tampered_fields)]"
proof -
  have u: "no_signature payfast_fields" "no_signature tampered_fields" "payfast_fields \<noteq> []"
    by (simp_all add: no_signature_def payfast_fields_def tampered_fields_def)
  have "pf_passphrase payfast = PAYFAST_PASSPHRASE" by (simp add: payfast_def)
  note sign = signing_string_agrees[OF u(1) this] signing_string_agrees[OF u(2) this]
  have "payfast_verifyWebhookSignature md5 payfast (params_toString payfast_fields) (md5 m) \<longleftrightarrow>
      md5 m = md5 (payfast_signing_string payfast_fields)" for m
    unfolding sign(1) by (rule payfast_accepted(1)[OF assms u(1)])
  moreover have "payfast_verifyWebhookSignature md5 payfast (params_toString payfast_fields @ ''&signature='' @ md5 m) [] \<longleftrightarrow>
      md5 m = md5 (payfast_signing_string payfast_fields)" for m
    unfolding sign(1) by (rule payfast_accepted(2)[OF assms u(1) u(3)])
  moreover have "payfast_verifyWebhookSignature md5 payfast (params_toString tampered_fields) (md5 m) \<longleftrightarrow>
      md5 m = md5 (payfast_signing_string tampered_fields)" for m
    unfolding sign(2) by (rule payfast_accepted(1)[OF assms u(2)])
  ultimately show ?thesis
    unfolding payfast_demo_def payfastBody_def Let_def prod.case payfast_tampered_body by blast
qed

lemma delivery_demo_report:
  assumes "parse stripePayload = Inr stripe_event" "mono clock" "clock 13 < clock 11 + DEFAULT_TTL_MS"
  shows "delivery_demo parse rnd clock = Inr ([Processed, Duplicate], 1)"
proof -
  let ?we = "\<lparr>we_type = ''payment_intent.succeeded'', we_payload = [(''id'', JStr ''pi_demo_1''), (''orderId'', JStr ''ord_1001'')],
    we_eventId = ''evt_demo_1'', we_provider = ''stripe''\<rparr>"
  have event: "and_then (and_then (parse stripePayload) (stripe_parseWebhookEvent rnd (clock 8))) pipeline_event = Inr ?we"
    by (simp add: assms(1) stripe_event_def stripe_parseWebhookEvent_def read_body_field_def nullish_def pipeline_event_def)
  let ?cache = "markProcessed (clock 11) DEFAULT_TTL_MS ''evt_demo_1'' []"
  have first: "processWebhook (demo_readings clock 9) ?we demo_webhooks = (Inr Processed, demo_webhooks\<lparr>wh_world := 1, wh_cache := ?cache\<rparr>)"
    by (simp add: processWebhook_def demo_webhooks_def isDuplicate_def evictExpired_def handle_webhook_def demo_readings_def)
  have keep: "evictExpired (clock 12) ?cache = ?cache"
    using monoD[OF assms(2), of 12 13] assms(3) by (simp add: evictExpired_def markProcessed_def)
  have "processWebhook (demo_readings clock 12) ?we (demo_webhooks\<lparr>wh_world := 1, wh_cache := ?cache\<rparr>) =
      (Inr Duplicate, demo_webhooks\<lparr>wh_world := 1, wh_cache := ?cache\<rparr>)"
    using assms(3) by (simp add: processWebhook_def isDuplicate_def keep demo_readings_def Let_def)
      (simp add: markProcessed_def)
  with first event show ?thesis by (auto simp: delivery_demo_def and_then_Inr_iff)
qed

lemma bank_demo_report:
  assumes "clock 16 - clock 15 < MAX_POLL_DURATION_MS"
  shows "bank_demo clock = ((True, 1), Some COMMITTED, False)"
proof -
  have "(0 :: nat) < MAX_POLL_ATTEMPTS" by (simp add: MAX_POLL_ATTEMPTS_eq)
  with assms have "startBankRetry (clock 15) (clock 16) ''pi_bank_timeout_1'' br_empty =
      \<lparr>br_entries = [\<lparr>re_paymentId = ''pi_bank_timeout_1'', re_startTime = clock 15, re_attempt = 1, re_timer = Some 0,
         re_resolved = False\<rparr>],
       br_active = [(''pi_bank_timeout_1'', 0)], br_timers = [(0, 0)], br_fresh = 1, br_polls = [], br_checks = [],
       br_resolutions = []\<rparr>"
    by (simp add: startBankRetry_def schedulePoll_def br_empty_def jm_has_def entry_of_def update_entry_def Let_def)
  then show ?thesis
    by (simp add: bank_demo_def forceResolve_def resolve_entry_def clear_timer_def isRetrying_def getRetryAttempt_def
        jm_has_def entry_of_def update_entry_def Let_def)
qed

text \<open>C30: a notification signed the way its provider signs is accepted and runs its handler once. In the
  example's program the genuine notifications of the three providers pass their verifiers, a copy whose body, amount or
  secret was changed passes exactly if its digest is the genuine one's, the hour-old one never;
  the second delivery of the event is a duplicate and the handler has run once; the bank retry that was
  waiting in its first attempt is settled by hand as committed. The digests have a fixed length, and
  the program runs for less than five minutes.\<close>

theorem webhooks_report:
  assumes "\<And>k m. digest_ok n (hmac_sha256 k m)" "\<And>m. digest_ok n' (md5 m)" "\<And>k m. digest_ok n'' (hmac_sha512 k m)"
    and "parse stripePayload = Inr stripe_event"
    and "mono clock" "3600000 \<le> clock 0" "clock 16 < 2 ^ 52" "clock 16 \<le> clock 0 + 300000"
  shows "webhooks_main hmac_sha256 md5 hmac_sha512 parse rnd clock = Inr
    \<lparr>wr_stripe =
       [True,
        hmac_sha256 STRIPE_WEBHOOK_SECRET (int_to_string (clock 2 div 1000) @ ''.'' @ stripePayload) =
          hmac_sha256 STRIPE_WEBHOOK_SECRET (int_to_string (clock 2 div 1000) @ ''.'' @ replace_first ''pi_demo_1'' ''pi_hacked'' stripePayload),
        hmac_sha256 STRIPE_WEBHOOK_SECRET (int_to_string (clock 4 div 1000) @ ''.'' @ stripePayload) =
          hmac_sha256 ''whsec_other'' (int_to_string (clock 4 div 1000) @ ''.'' @ stripePayload),
        False],
     wr_payfast = [True, True, md5 (payfast_signing_string payfast_fields) = md5 (payfast_signing_string tampered_fields)],
     wr_ozow = [True, hmac_sha512 OZOW_API_SECRET ozowPayload = hmac_sha512 OZOW_API_SECRET (replace_first ''149.99'' ''0.01'' ozowPayload)],
     wr_deliveries = [Processed, Duplicate], wr_handled = 1,
     wr_retrying = (True, 1), wr_resolved = (Some COMMITTED, False)\<rparr>"
proof -
  have m: "clock i \<le> clock 16 \<and> clock 0 \<le> clock i" if "i \<le> 16" for i
    using monoD[OF assms(5), of i 16] monoD[OF assms(5), of 0 i] that by simp
  have d: "DEFAULT_TTL_MS = 86400000" "MAX_POLL_DURATION_MS = 86400000"
    by (simp_all add: DEFAULT_TTL_MS_def MAX_POLL_DURATION_MS_def)
  have "delivery_demo parse rnd clock = Inr ([Processed, Duplicate], 1)"
    using m[of 13] m[of 11] assms(8) by (intro delivery_demo_report assms(4,5)) (simp add: d)
  moreover have "bank_demo clock = ((True, 1), Some COMMITTED, False)"
    using m[of 15] assms(8) by (intro bank_demo_report) (simp add: d)
  moreover have "ozow_verifyWebhookSignature hmac_sha512 ozow body (hmac_sha512 OZOW_API_SECRET body') \<longleftrightarrow>
      hmac_sha512 OZOW_API_SECRET body' = hmac_sha512 OZOW_API_SECRET body" for body body'
    using ozow_accepted[of n'' hmac_sha512 ozow body OZOW_API_SECRET body'] assms(3) by (simp add: ozow_def)
  moreover note stripe_demo_report[of n hmac_sha256 clock] payfast_demo_report[of n' md5]
  ultimately show ?thesis
    using m[of 7] assms by (simp add: webhooks_main_def ozow_demo_def Let_def)
qed

text \<open>The witness: a digest of 64 digits, a clock that reads one hour and then every millisecond.\<close>

theorem webhooks_report_witness:
  "let clock = (\<lambda>i. 3600000 + int i); report = webhooks_main sample_hmac (sample_hmac []) sample_hmac (\<lambda>_. Inr stripe_event) [] clock
   in map_option (\<lambda>r. (hd (wr_stripe r), last (wr_stripe r), take 2 (wr_payfast r), hd (wr_ozow r))) (case report of Inr r \<Rightarrow> Some r | Inl _ \<Rightarrow> None)
        = Some (True, False, [True, True], True) \<and>
      map_option (\<lambda>r. (wr_deliveries r, wr_handled r, wr_retrying r, wr_resolved r)) (case report of Inr r \<Rightarrow> Some r | Inl _ \<Rightarrow> None)
        = Some ([Processed, Duplicate], 1, (True, 1), (Some COMMITTED, False))"
proof -
  have d: "digest_ok 64 (sample_hmac k m)" for k m
    using sample_hmac_digest[of k m] length_hex_digits[of 64 "length m"]
    by (simp add: digest_ok_def sample_hmac_def del: hex_digits.simps length_hex_digits)
  have "mono (\<lambda>i. 3600000 + int i)" by (simp add: mono_def)
  then show ?thesis
    using webhooks_report[of 64 sample_hmac 64 "sample_hmac []" 64 sample_hmac "\<lambda>_. Inr stripe_event" "\<lambda>i. 3600000 + int i" "[]"] d
    unfolding Let_def by simp
qed

end
