(* ===== verification/Boot.thy ===== *)
theory Boot
  imports Webhooks Config
begin

text \<open>
  The boot of the reference application: its configuration (examples/flagship-store/intellibiz.config.ts),
  the options its router is built with, its token helper and the payment provider it selects
  (examples/flagship-store/src/index.ts), and the webhook part of its demonstration: a signed event, the same
  event again, a forgery. \<open>None\<close> is an unset environment variable.
\<close>

section \<open>The configuration\<close>

definition dev_secret :: string where "dev_secret = ''dev-only-secret-change-me''"

definition flagship_config :: "string option \<Rightarrow> json" where
  "flagship_config JWT_SECRET = JObj
     [(''modules'', JArr [JStr ''commerce'', JStr ''finance'', JStr ''identity'', JStr ''db'', JStr ''inventory'']),
      (''tenancy'', JObj [(''strategy'', JStr ''column''), (''key'', JStr ''store_id''), (''type'', JStr ''uuid''),
         (''strict'', JBool True)]),
      (''auth'', JObj [(''provider'', JStr ''internal''),
         (''jwtSecret'', JStr (case JWT_SECRET of Some s \<Rightarrow> s | None \<Rightarrow> dev_secret)),
         (''algorithm'', JStr ''HS256''), (''tokenExpiry'', JStr ''24h'')]),
      (''finance'', JObj [(''baseCurrency'', JStr ''USD''), (''rounding'', JStr ''bankers''),
         (''taxation'', JObj [(''provider'', JStr ''internal''), (''autoCalculate'', JBool True)])]),
      (''commerce'', JObj [(''ledger'', JObj [(''mode'', JStr ''atomic'')]), (''invoicing'', JStr ''auto''),
         (''webhookDedup'', JObj [(''provider'', JStr ''memory''), (''ttlHours'', JNum 24)])]),
      (''ledger'', JObj [(''mode'', JStr ''atomic''), (''sync'', JArr [JStr ''db'']), (''retention'', JStr ''7y'')]),
      (''governance'', JObj [(''auditAll'', JBool True), (''allowSudo'', JBool False)]),
      (''database'', JObj [(''pool'', JObj [(''min'', JNum 2), (''max'', JNum 10)]), (''queryTimeout'', JNum 30000),
         (''defaultLimit'', JNum 100)]),
      (''inventory'', JObj [(''mode'', JStr ''strict''), (''lowStockAlert'', JNum 5), (''reservationTtl'', JStr ''15m'')]),
      (''environment'', JObj [(''dryRun'', JBool False), (''trace'', JBool True), (''logLevel'', JStr ''info'')]),
      (''eventBus'', JObj [(''provider'', JStr ''internal''), (''maxRetries'', JNum 3), (''deadLetterRetention'', JStr ''7d'')])]"

section \<open>What is built from it\<close>

text \<open>\<open>config.auth?.jwtSecret\<close>.\<close>

definition config_secret :: "json \<Rightarrow> string option" where
  "config_secret config = (case cfg_get config ''auth'' ''jwtSecret'' of Some (JStr s) \<Rightarrow> Some s | _ \<Rightarrow> None)"

definition router_options :: "json \<Rightarrow> middleware_options" where
  "router_options config = \<lparr>mo_jwtSecret = config_secret config, mo_jwtAlgorithm = None, mo_strictTenancy = False\<rparr>"

definition boot_env :: "json \<Rightarrow> 's app_env \<Rightarrow> 's app_env" where
  "boot_env config e = e\<lparr>ae_options := router_options config\<rparr>"

text \<open>\<open>process.env['STRIPE_SECRET_KEY']\<close> decides between the Stripe provider and the mock; the adapter of
  the webhook route is built in both cases.\<close>

definition flagship_stripe :: "string option \<Rightarrow> string option \<Rightarrow> stripe_config" where
  "flagship_stripe stripeKey webhookSecret =
     \<lparr>sc_secretKey = (case stripeKey of Some k \<Rightarrow> k | None \<Rightarrow> ''sk_test_dev''),
      sc_webhookSecret = Some (case webhookSecret of Some s \<Rightarrow> s | None \<Rightarrow> ''whsec_dev_only''),
      sc_apiVersion = None, sc_webhookToleranceSeconds = None\<rparr>"

definition chosen_provider :: "string option \<Rightarrow> string option \<Rightarrow> stripe_config option" where
  "chosen_provider stripeKey webhookSecret =
     (if truthy stripeKey then Some (flagship_stripe stripeKey webhookSecret) else None)"

text \<open>The secret of the token helper and the claims it signs; the signature is the JWT library's.\<close>

definition signing_key :: "json \<Rightarrow> string" where
  "signing_key config = (case config_secret config of Some s \<Rightarrow> s | None \<Rightarrow> dev_secret)"

definition mintToken :: "(jwt_claims \<Rightarrow> string \<Rightarrow> string) \<Rightarrow> json \<Rightarrow> string \<Rightarrow> string \<Rightarrow> string \<Rightarrow> string" where
  "mintToken signJWT config userId tenantId role =
     signJWT \<lparr>cl_sub = Some userId, cl_tenant_id = Some tenantId, cl_roles = Some [role], cl_role = None, cl_email = None\<rparr>
       (signing_key config)"

section \<open>Booting\<close>

text \<open>The configuration after validation: the same sections, in the schema's order, with one default.\<close>

lemma flagship_parsed:
  "\<exists>c. ref_parse (IntellibizConfigSchema is_url) (Some (flagship_config jwt)) = Some (Some c) \<and>
     config_secret c = Some (case jwt of Some s \<Rightarrow> s | None \<Rightarrow> dev_secret) \<and>
     cfg_get c ''auth'' ''provider'' = Some (JStr ''internal'') \<and> cfg_get c ''tenancy'' ''strict'' = Some (JBool True) \<and>
     cfg_get c ''auth'' ''algorithm'' = Some (JStr ''HS256'') \<and>
     cfg_get c ''governance'' ''allowSudo'' = Some (JBool False) \<and> cfg_get c ''environment'' ''dryRun'' = Some (JBool False) \<and>
     cfg_get c ''finance'' ''baseCurrency'' = Some (JStr ''USD'') \<and> cfg_truthy (jget c ''tenancy'')"
proof -
  have "is_retention ''7y''" "to_upper ''USD'' = ''USD''" by code_simp+
  then show ?thesis
    by (simp add: schema_defs flagship_config_def config_secret_def cfg_get_def cfg_truthy_def)
qed

text \<open>The application boots in every environment, without warnings, exactly when the secret is not the
  empty string; the router then checks tokens with the secret they are signed with.\<close>

lemma flagship_boots:
  assumes "schema_lib P"
  shows "(\<exists>c. defineConfig P is_url env (flagship_config jwt) = Inr (c, []) \<and>
       mo_jwtSecret (router_options c) = Some (signing_key c) \<and> signing_key c \<noteq> []) \<longleftrightarrow> jwt \<noteq> Some []"
proof -
  obtain c where c: "ref_parse (IntellibizConfigSchema is_url) (Some (flagship_config jwt)) = Some (Some c)"
     "config_secret c = Some (case jwt of Some s \<Rightarrow> s | None \<Rightarrow> dev_secret)"
     "cfg_get c ''auth'' ''provider'' = Some (JStr ''internal'')" "cfg_get c ''governance'' ''allowSudo'' = Some (JBool False)"
     "cfg_get c ''environment'' ''dryRun'' = Some (JBool False)" "cfg_get c ''finance'' ''baseCurrency'' = Some (JStr ''USD'')"
     "cfg_truthy (jget c ''tenancy'')"
    using flagship_parsed by blast
  then have "cfg_truthy (cfg_get c ''auth'' ''jwtSecret'') \<longleftrightarrow> jwt \<noteq> Some []"
    by (auto simp: config_secret_def cfg_truthy_def dev_secret_def split: option.splits json.splits)
  then have rules: "list_all (\<lambda>rule. \<not> dr_isViolated rule env c) DEPENDENCY_RULES \<longleftrightarrow> jwt \<noteq> Some []"
    using c by (auto simp: DEPENDENCY_RULES_def cfg_truthy_def)
  have "startup_warnings env c = []" using c by (simp add: startup_warnings_def cfg_truthy_def)
  with c rules show ?thesis
    unfolding defineConfig_Inr[OF assms] by (auto simp: router_options_def signing_key_def dev_secret_def split: option.splits)
qed

text \<open>The configuration asks for strict tenancy; the router is not told, so a request that names no
  tenant runs as the tenant \<open>system\<close>.\<close>

lemma strict_tenancy_not_enforced:
  assumes "schema_lib P" "defineConfig P is_url env (flagship_config jwt) = Inr (c, ws)"
    and "req_header c' ''x-tenant-id'' = None" "req_header c' ''authorization'' = None" "req_header c' ''host'' = Some ''localhost''"
  shows "cfg_get c ''tenancy'' ''strict'' = Some (JBool True) \<and>
    (\<exists>st. kernelMiddleware jwtVerify url_host (router_options c) traceId startTime c' = Inr st \<and>
       st_tenantId st = ''system'' \<and> st_role st = ''anonymous'')"
proof -
  have "ref_parse (IntellibizConfigSchema is_url) (Some (flagship_config jwt)) = Some (Some c)"
    using assms(2) by (simp add: defineConfig_Inr[OF assms(1)])
  then have "cfg_get c ''tenancy'' ''strict'' = Some (JBool True)" using flagship_parsed[of is_url jwt] by auto
  moreover have "host_tenant (hd (split_on CHR '':'' ''localhost'')) = None" by code_simp
  ultimately show ?thesis
    using assms(3-5) by (simp add: kernelMiddleware_def middleware_claims_def extractBearerToken_def resolveTenant_def
        resolveHost_def truthy_def router_options_def Let_def)
qed

text \<open>The token library's promise: a token it signed verifies with the same key, and is a non-empty word.\<close>

definition token_roundtrip :: "jwt_lib \<Rightarrow> (jwt_claims \<Rightarrow> string \<Rightarrow> string) \<Rightarrow> bool" where
  "token_roundtrip jwtVerify signJWT \<longleftrightarrow> (\<forall>claims key. jwtVerify (signJWT claims key) key HS256 = Inr claims \<and>
     signJWT claims key \<noteq> [] \<and> list_all (\<lambda>c. \<not> is_space_char c \<and> \<not> is_line_end c) (signJWT claims key))"

text \<open>A request with a minted token runs as the user, the tenant and the role the token was minted for.\<close>

lemma bearer_word:
  assumes "tok \<noteq> []" "list_all (\<lambda>c. \<not> is_space_char c \<and> \<not> is_line_end c) tok"
  shows "extractBearerToken (Some (''Bearer '' @ tok)) = Some tok"
proof -
  have "to_upper ''Bearer'' = ''BEARER''" "is_space_char (CHR '' '')" by code_simp+
  moreover have "dropWhile is_space_char tok = tok" "takeWhile is_space_char tok = []"
    using assms by (cases tok; simp)+
  moreover have "list_all (\<lambda>c. \<not> is_line_end c) tok" using assms(2) by (auto simp: list_all_iff)
  ultimately show ?thesis using assms(1) by (simp add: extractBearerToken_def truthy_def Let_def)
qed

lemma minted_identity:
  assumes "token_roundtrip jwtVerify signJWT" "config_secret c = Some secret" "secret \<noteq> []" "userId \<noteq> []" "tenantId \<noteq> []"
    and "req_header q ''x-tenant-id'' = None"
    and "req_header q ''authorization'' = Some (''Bearer '' @ mintToken signJWT c userId tenantId role)"
  shows "\<exists>st. kernelMiddleware jwtVerify url_host (router_options c) traceId startTime q = Inr st \<and>
    st_userId st = Some userId \<and> st_tenantId st = tenantId \<and> st_role st = role"
proof -
  let ?tok = "mintToken signJWT c userId tenantId role"
  have "?tok \<noteq> []" "list_all (\<lambda>c. \<not> is_space_char c \<and> \<not> is_line_end c) ?tok"
    and v: "jwtVerify ?tok secret HS256 =
      Inr \<lparr>cl_sub = Some userId, cl_tenant_id = Some tenantId, cl_roles = Some [role], cl_role = None, cl_email = None\<rparr>"
    using assms(1,2) by (simp_all add: token_roundtrip_def mintToken_def signing_key_def)
  then have "extractBearerToken (req_header q ''authorization'') = Some ?tok" using assms(7) bearer_word by simp
  then show ?thesis
    using assms(2-6) v \<open>?tok \<noteq> []\<close>
    by (simp add: kernelMiddleware_def middleware_claims_def router_options_def truthy_def verifyJWT_def claims_role_def
        resolveTenant_def Let_def)
qed

section \<open>The demonstration\<close>

text \<open>The state at the start: one handler, which logs and is counted here.\<close>

definition boot_shop :: "'p \<Rightarrow> ('p, nat) shop" where
  "boot_shop pay = \<lparr>sh_pay = pay, sh_events = [], sh_webhooks = demo_webhooks\<rparr>"

definition boot_fetch :: "'d decimal_lib \<Rightarrow> ('p, 'd money) provider \<Rightarrow> (string \<Rightarrow> string \<Rightarrow> string) \<Rightarrow> (string \<Rightarrow> json result)
    \<Rightarrow> string option \<Rightarrow> string option \<Rightarrow> checkout_input validator \<Rightarrow> json \<Rightarrow> context_db app_env \<Rightarrow> platform request
    \<Rightarrow> ('p, nat) shop \<Rightarrow> response \<times> ('p, nat) shop" where
  "boot_fetch D p hmac_sha256 parse stripeKey webhookSecret CheckoutInput config e =
     shop_fetch D p hmac_sha256 parse (flagship_stripe stripeKey webhookSecret) CheckoutInput (boot_env config e)"

text \<open>A delivery signed at \<open>now\<close> with the shop's secret. The body sent need not be the one signed.\<close>

definition signed_delivery :: "(string \<Rightarrow> string \<Rightarrow> string) \<Rightarrow> context_db app_env \<Rightarrow> string \<Rightarrow> int \<Rightarrow> string \<Rightarrow> string
    \<Rightarrow> platform request \<Rightarrow> bool" where
  "signed_delivery hmac_sha256 e secret now orig sent q \<longleftrightarrow>
     stripe_delivery e q (signed_header hmac_sha256 secret orig (now div 1000)) sent \<and>
     0 \<le> now \<and> now \<le> pl_now (aq_random q) \<and> pl_now (aq_random q) \<le> now + 300000"

lemma signed_delivery_verifies:
  assumes "\<And>k m. digest_ok n (hmac k m)" "signed_delivery hmac e secret now orig sent q" "clock_ok (aq_random q)"
    and "sc_webhookSecret config = Some secret" "secret \<noteq> []" "sc_webhookToleranceSeconds config = None"
  shows "stripe_verifyWebhookSignature hmac (pl_now (aq_random q)) config sent (signed_header hmac secret orig (now div 1000)) \<longleftrightarrow>
    hmac secret (int_to_string (now div 1000) @ ''.'' @ orig) = hmac secret (int_to_string (now div 1000) @ ''.'' @ sent)"
proof -
  let ?q = "pl_now (aq_random q)"
  have b: "0 \<le> now" "now \<le> ?q" "?q \<le> now + 300000" "0 \<le> ?q" "?q < 2 ^ 52"
    using assms(2,3) by (simp_all add: signed_delivery_def clock_ok_def)
  have "?q div 1000 \<le> (now + 300000) div 1000" "now div 1000 \<le> ?q div 1000" using b by (simp_all add: zdiv_mono1)
  moreover have "(now + 300000) div 1000 = now div 1000 + 300" by simp
  moreover have "now div 1000 \<le> now" using b(1) by simp
  ultimately show ?thesis
    using signed_header_accepted[OF assms(1,4,5), where now = ?q and t = "now div 1000" and body = sent and signer = secret and body' = orig] b assms(6) by auto
qed

text \<open>The routes, as the demonstration reaches them: under the booted options a request always gets a context.\<close>

lemma boot_request: "\<not> isl (request_store (boot_env c e) q)"
  by (auto simp: request_store_def kernelMiddleware_def resolveTenant_def boot_env_def router_options_def Let_def
      split: option.splits)

lemma boot_delivery:
  assumes "signed_delivery hmac e secret now orig sent q" "parse sent = Inr parsed" "jget parsed ''id'' = Some (JStr i)"
    and "boot_fetch D p hmac parse key whsec CheckoutInput c e q w = (r, w')"
  shows "(let verified = stripe_verifyWebhookSignature hmac (pl_now (aq_random q)) (flagship_stripe key whsec) sent
            (signed_header hmac secret orig (now div 1000))
     in \<not> verified \<and> outcome_of r = None \<and> w' = w \<or>
        verified \<and> (\<exists>event res st. we_eventId event = i \<and> we_provider event = ''stripe'' \<and>
          processWebhook (pl_readings (aq_random q)) event (sh_webhooks w) = (res, st) \<and> w' = w\<lparr>sh_webhooks := st\<rparr> \<and>
          outcome_of r = (case res of Inl _ \<Rightarrow> None | Inr o' \<Rightarrow> Some (JStr (outcome_name o')))))"
proof -
  have "signed_header hmac secret orig (now div 1000) \<noteq> []" by (simp add: signed_header_def Let_def)
  moreover have "stripe_delivery (boot_env c e) q (signed_header hmac secret orig (now div 1000)) sent"
    using assms(1) by (simp add: signed_delivery_def stripe_delivery_def boot_env_def)
  ultimately show ?thesis
    using delivery_cases[OF _ assms(2,3) assms(4)[unfolded boot_fetch_def]] boot_request[of c e q]
    unfolding Let_def by blast
qed

text \<open>A correctly signed event is processed, the same event again is a duplicate though it carries a new
  signature, and a body that was changed after signing is refused, unless the digests collide.\<close>

lemma flagship_demo:
  assumes "\<And>k m. digest_ok n (hmac k m)" "sc_webhookSecret (flagship_stripe key whsec) = Some secret" "secret \<noteq> []"
    and "parse body = Inr parsed" "jget parsed ''id'' = Some (JStr i)" "parse body' = Inr parsed'" "jget parsed' ''id'' = Some (JStr i)"
    and "signed_delivery hmac e secret ta body body qa" "signed_delivery hmac e secret tb body body qb"
    and "signed_delivery hmac e secret tc body body' qc" "handled_in_order [qa, qb, qc]"
    and "pl_now (aq_random qb) < pl_now (aq_random qa) + 3600000"
    and "boot_fetch D p hmac parse key whsec CheckoutInput c e qa (boot_shop pay) = (ra, w1)"
    and "boot_fetch D p hmac parse key whsec CheckoutInput c e qb w1 = (rb, w2)"
    and "boot_fetch D p hmac parse key whsec CheckoutInput c e qc w2 = (rc, w3)"
  shows "outcome_of ra = Some (JStr ''processed'') \<and> outcome_of rb = Some (JStr ''duplicate'') \<and> wh_world (sh_webhooks w2) = 1 \<and>
    (hmac secret (int_to_string (tc div 1000) @ ''.'' @ body) \<noteq> hmac secret (int_to_string (tc div 1000) @ ''.'' @ body') \<longrightarrow>
       outcome_of rc = None \<and> w3 = w2)"
proof -
  let ?config = "flagship_stripe key whsec" and ?a = "aq_random qa" and ?b = "aq_random qb"
  have tol: "sc_webhookToleranceSeconds ?config = None" by (simp add: flagship_stripe_def)
  have ok: "clock_ok ?a" "clock_ok ?b" "clock_ok (aq_random qc)" using assms(11) by (simp_all add: handled_in_order_def)
  note ver = signed_delivery_verifies[OF assms(1) _ _ assms(2,3) tol]
  obtain ev res st where a: "we_eventId ev = i" "we_provider ev = ''stripe''"
      "processWebhook (pl_readings ?a) ev demo_webhooks = (res, st)"
      "w1 = (boot_shop pay)\<lparr>sh_webhooks := st\<rparr>" "outcome_of ra = (case res of Inl _ \<Rightarrow> None | Inr o' \<Rightarrow> Some (JStr (outcome_name o')))"
    using boot_delivery[OF assms(8,4,5,13)] ver[OF assms(8) ok(1)] by (auto simp: boot_shop_def)
  from a(1-3) have st: "res = Inr Processed" "st = demo_webhooks\<lparr>wh_world := 1,
      wh_cache := markProcessed (t_mark (pl_readings ?a)) DEFAULT_TTL_MS i []\<rparr>"
    by (auto simp: processWebhook_def demo_webhooks_def isDuplicate_def evictExpired_def handle_webhook_def)
  have known: "known_until i (t_mark (pl_readings ?a) + DEFAULT_TTL_MS) (sh_webhooks w1)"
    using processed_is_known[OF a(3)[unfolded st(1)]] a(1,4) by (simp add: demo_webhooks_def)
  have before: "read_before (t_mark (pl_readings ?a) + DEFAULT_TTL_MS) (pl_readings ?b)"
    using ok(1,2) assms(12) by (auto simp: read_before_def clock_ok_def DEFAULT_TTL_MS_def)
  obtain ev' res' st' where b: "we_eventId ev' = i" "processWebhook (pl_readings ?b) ev' (sh_webhooks w1) = (res', st')"
      "w2 = w1\<lparr>sh_webhooks := st'\<rparr>" "outcome_of rb = (case res' of Inl _ \<Rightarrow> None | Inr o' \<Rightarrow> Some (JStr (outcome_name o')))"
    using boot_delivery[OF assms(9,4,5,14)] ver[OF assms(9) ok(2)] by auto
  from known_is_duplicate[OF known before b(1)] b(2) have "res' = Inr Duplicate" "wh_world st' = wh_world (sh_webhooks w1)"
    by auto
  moreover have "outcome_of rc = None \<and> w3 = w2"
    if "hmac secret (int_to_string (tc div 1000) @ ''.'' @ body) \<noteq> hmac secret (int_to_string (tc div 1000) @ ''.'' @ body')"
    using boot_delivery[OF assms(10,6,7,15)] ver[OF assms(10) ok(3)] that by auto
  ultimately show ?thesis using a(4,5) b(3,4) st by (simp add: outcome_name_def)
qed

end
