(* ===== verification/Starters.thy ===== *)
theory Starters
  imports App EventBus Plugins Printing Signature
begin

text \<open>
  Three small applications: the greeter (examples/hello-world/src/index.ts), the event demonstration
  (examples/events/src/index.ts) and the plugin demonstration (examples/ai-assistant/src/index.ts). They
  join the router, the actions, the event bus and the plugin registry. \<open>deliver\<close> is what the bus
  answers to an event; the lemmas take it from a run of EventBus. The state of the actions is the list of
  emitted events.
\<close>

section \<open>The greeter\<close>

text \<open>One listener, which logs.\<close>

definition hello_bus :: bus where
  "hello_bus = bus_on ''hello.greeted'' 0 None \<lparr>bus_listeners = [], bus_maxRetries = []\<rparr>"

record greet_input =
  gi_name :: string
  gi_enthusiasm :: number

text \<open>\<open>s.repeat(count)\<close>: the count is truncated; a negative or infinite one is a range error.\<close>

definition js_repeat :: "string \<Rightarrow> number \<Rightarrow> string result" where
  "js_repeat s n = (case n of
     NaN \<Rightarrow> Inr []
   | Fin r \<Rightarrow> if r \<le> - 1 then Inl (Err (plain_error ''RangeError'' (''Invalid count value: '' @ number_to_string n)))
       else Inr (concat (replicate (nat \<lfloor>r\<rfloor>) s))
   | _ \<Rightarrow> Inl (Err (plain_error ''RangeError'' (''Invalid count value: '' @ number_to_string n))))"

definition ctx_json :: "('s, 'd) ctx_object \<Rightarrow> string \<Rightarrow> json" where
  "ctx_json ctx k = (case ctx_str ctx k of Some s \<Rightarrow> JStr s | None \<Rightarrow> JNull)"

definition greet_handler :: "(string \<times> json \<Rightarrow> delivery_result) \<Rightarrow> string \<Rightarrow> greet_input \<Rightarrow> ('s, greet_input) ctx_object
    \<Rightarrow> als \<Rightarrow> (string \<times> json) list \<Rightarrow> json option result \<times> (string \<times> json) list" where
  "greet_handler deliver isoNow data action s w =
     (case js_repeat ''!'' (gi_enthusiasm data) of
        Inl e \<Rightarrow> (Inl e, w)
      | Inr marks \<Rightarrow>
          (let message = ''Hello, '' @ gi_name data @ marks;
               event = (''hello.greeted'', JObj [(''name'', JStr (gi_name data)), (''at'', JStr isoNow)]);
               delivery = deliver event
           in (Inr (Some (JObj [(''message'', JStr message), (''traceId'', ctx_json action ''traceId''),
                 (''listenersReached'', JNum (of_nat (dr_delivered delivery)))])), w @ [event])))"

definition greet :: "'s factories \<Rightarrow> string \<Rightarrow> greet_input validator \<Rightarrow> (string \<times> json \<Rightarrow> delivery_result) \<Rightarrow> string
    \<Rightarrow> json option \<Rightarrow> als \<Rightarrow> (string \<times> json) list \<Rightarrow> json option result \<times> (string \<times> json) list" where
  "greet fs level GreetInput deliver isoNow = state_action fs level GreetInput (with_data (greet_handler deliver isoNow))"

definition hello_root :: "'s request_context \<Rightarrow> als \<Rightarrow> 'w \<Rightarrow> handler_outcome \<times> 'w" where
  "hello_root req s w = (respond (Inr (Some (JObj [(''service'', JStr ''intellibiz-hello-world''),
     (''routes'', JArr [JStr ''GET /health'', JStr ''GET /greet'', JStr ''POST /greet''])]))), w)"

definition hello_health :: "int \<Rightarrow> 's request_context \<Rightarrow> als \<Rightarrow> 'w \<Rightarrow> handler_outcome \<times> 'w" where
  "hello_health hr req s w = (respond (and_then (getElapsedMs hr s) (\<lambda>ms.
     Inr (Some (JObj [(''status'', JStr ''ok''), (''tenantId'', ctx_json (rc_context req) ''tenantId''),
       (''userId'', ctx_json (rc_context req) ''userId''), (''traceId'', ctx_json (rc_context req) ''traceId''),
       (''elapsedMs'', number_json (js_Number (to_fixed 3 ms)))])))), w)"

definition hello_hint :: "'s request_context \<Rightarrow> als \<Rightarrow> 'w \<Rightarrow> handler_outcome \<times> 'w" where
  "hello_hint req s w = (respond (Inr (Some (JObj [(''hint'', JStr (''POST a JSON body, e.g. {'' @ [CHR 0x22] @ ''name'' @
     [CHR 0x22] @ '':'' @ [CHR 0x22] @ ''Ada'' @ [CHR 0x22] @ '','' @ [CHR 0x22] @ ''enthusiasm'' @ [CHR 0x22] @ '':3}''))]))), w)"

text \<open>What a request's handlers read from the platform.\<close>

record hello_platform =
  hp_isoNow :: string
  hp_hr :: int

definition hello_routes :: "'s factories \<Rightarrow> string \<Rightarrow> greet_input validator \<Rightarrow> (string \<times> json \<Rightarrow> delivery_result)
    \<Rightarrow> hello_platform \<Rightarrow> ((string \<times> json) list, 's) app_routes" where
  "hello_routes fs level GreetInput deliver p =
     [(''GET'', ''/'', AppPlain hello_root), (''GET'', ''/health'', AppPlain (hello_health (hp_hr p))),
      (''POST'', ''/greet'', AppAction (greet fs level GreetInput deliver (hp_isoNow p))), (''GET'', ''/greet'', AppPlain hello_hint)]"

section \<open>Events\<close>

text \<open>The four listeners in their order: two that log, one that fails on its first call, one that always fails
  and may not be retried.\<close>

definition events_bus :: bus where
  "events_bus = bus_on ''user.registered'' 3 (Some 0) (bus_on ''user.registered'' 2 None
     (bus_on ''user.registered'' 1 None (bus_on ''user.registered'' 0 None \<lparr>bus_listeners = [], bus_maxRetries = []\<rparr>)))"

definition events_behaviour :: behaviour where
  "events_behaviour l k =
     (if l = 2 \<and> k = 1 then Some ''analytics sink unavailable''
      else if l = 3 then Some ''billing export endpoint is down'' else None)"

section \<open>A plugin\<close>

record completion_request =
  cq_prompt :: string
  cq_maxTokens :: number

record completion_result =
  cl_model :: string
  cl_text :: string
  cl_tokens :: nat

text \<open>\<open>s.length\<close> counts UTF-16 units: one for each byte that starts a character, two for four bytes.\<close>

definition utf16_length :: "string \<Rightarrow> nat" where
  "utf16_length s = (\<Sum>c\<leftarrow>s. let b = of_char c :: nat in if 128 \<le> b \<and> b < 192 then 0 else if 240 \<le> b then 2 else 1)"

definition completion :: "completion_request \<Rightarrow> completion_result" where
  "completion request =
     (let txt = ''You asked: '' @ [CHR 0x22] @ cq_prompt request @ [CHR 0x22] @ ''. This is a deterministic stub standing in for Claude.''
      in \<lparr>cl_model = ''claude-sonnet-4-5'', cl_text = txt, cl_tokens = (utf16_length txt + 3) div 4\<rparr>)"

definition anthropicPlugin :: "(completion_request \<Rightarrow> completion_result) plugin" where
  "anthropicPlugin = definePlugin
     \<lparr>pl_name = ''anthropic-ai'', pl_version = ''1.0.0'', pl_description = Some ''Anthropic Claude provider for Intellibiz'',
      pl_dependencies = Some [], pl_services = Some [(''completion'', \<lambda>deps. Inr completion)]\<rparr>"

definition app_register :: "string \<Rightarrow> 'v \<Rightarrow> 'v container \<Rightarrow> 'v container result" where
  "app_register name val c = (if \<not> di_has name c then di_register name val c else Inr c)"

text \<open>Boot: load the plugin, look its service up, list the keys it can be found under.\<close>

definition assistant_boot :: "(completion_request \<Rightarrow> completion_result) registry
    \<Rightarrow> ((completion_request \<Rightarrow> completion_result) \<times> string list \<times> string list) result" where
  "assistant_boot r =
     (case loadAll [anthropicPlugin] r of
        (Inl e, _) \<Rightarrow> Inl e
      | (Inr _, r') \<Rightarrow> and_then (di_get ''anthropic-ai.completion'' (rg_container r')) (\<lambda>run_completion.
          Inr (run_completion, rg_loaded r', filter (\<lambda>key. di_has key (rg_container r')) [''anthropic-ai.completion'', ''completion''])))"

definition completion_json :: "completion_result \<Rightarrow> json" where
  "completion_json r = JObj [(''model'', JStr (cl_model r)), (''text'', JStr (cl_text r)), (''tokens'', JNum (of_nat (cl_tokens r)))]"

definition askAssistant_handler :: "(completion_request \<Rightarrow> completion_result) \<Rightarrow> completion_request
    \<Rightarrow> ('s, completion_request) ctx_object \<Rightarrow> als \<Rightarrow> (string \<times> json) list \<Rightarrow> json option result \<times> (string \<times> json) list" where
  "askAssistant_handler run_completion data action s w =
     (let result = run_completion \<lparr>cq_prompt = cq_prompt data, cq_maxTokens = cq_maxTokens data\<rparr>
      in (Inr (Some (completion_json result)),
          w @ [(''ai.completion.ready'', JObj [(''model'', JStr (cl_model result)), (''prompt'', JStr (cq_prompt data)),
            (''tokens'', JNum (of_nat (cl_tokens result)))])]))"

definition askAssistant :: "'s factories \<Rightarrow> string \<Rightarrow> completion_request validator \<Rightarrow> (completion_request \<Rightarrow> completion_result)
    \<Rightarrow> json option \<Rightarrow> als \<Rightarrow> (string \<times> json) list \<Rightarrow> json option result \<times> (string \<times> json) list" where
  "askAssistant fs level AskInput run_completion = state_action fs level AskInput (with_data (askAssistant_handler run_completion))"

section \<open>A greeting reaches its listener\<close>

text \<open>With a delivery that is a complete run of the bus, whatever its scheduling and however often the
  listener fails before it succeeds within its budget, the answer says one listener was reached.\<close>

lemma hello_delivered:
  assumes "(emit_step behave ^^ k) (emit_start hello_bus ''hello.greeted'' dlq) s" "emit_done s"
    and "\<exists>j \<in> {1..4}. behave 0 j = None"
  shows "emit_result s = \<lparr>dr_delivered = 1, dr_failed = 0, dr_deadLettered = 0\<rparr>"
proof -
  have ls: "jm_get (bus_listeners hello_bus) ''hello.greeted'' = Some [0]" by (simp add: hello_bus_def bus_on_def Let_def)
  have r: "retries_of hello_bus 0 = 3" by (simp add: hello_bus_def bus_on_def retries_of_def DEFAULT_MAX_RETRIES_def Let_def)
  have "outcome_from behave 0 3 0 = Some Delivered"
    using assms(3) by (auto simp: outcome_from_def list_ex_iff)
  with emit_done_counts[OF assms(1,2) ls refl] show ?thesis by (simp add: r emit_result_def)
qed

lemma js_repeat_whole: "js_repeat s (Fin (of_nat n)) = Inr (concat (replicate n s))"
  by (simp add: js_repeat_def)

theorem greeting:
  assumes "(emit_step behave ^^ k) (emit_start hello_bus ''hello.greeted'' dlq) s'" "emit_done s'"
    and "\<exists>j \<in> {1..4}. behave 0 j = None"
    and "GreetInput body = Inr \<lparr>gi_name = name, gi_enthusiasm = Fin (of_nat n)\<rparr>" "jm_wf fs" "jm_get fs ''traceId'' = None"
  shows "greet fs level GreetInput (\<lambda>event. emit_result s') isoNow body (Some st) w =
    (Inr (Some (JObj [(''message'', JStr (''Hello, '' @ name @ replicate n CHR ''!'')), (''traceId'', JStr (st_traceId st)),
       (''listenersReached'', JNum 1)])),
     w @ [(''hello.greeted'', JObj [(''name'', JStr name), (''at'', JStr isoNow)])])"
proof -
  have "concat (replicate n ''!'') = replicate n CHR ''!''" by (induction n) auto
  then show ?thesis
    unfolding greet_def state_action_accepted[where schema = GreetInput and data = body, OF assms(4,5)]
    by (simp add: greet_handler_def js_repeat_whole ctx_json_def action_context(3)[OF assms(5,6)] hello_delivered[OF assms(1-3)] Let_def)
qed

section \<open>The event demonstration\<close>

text \<open>Whatever the scheduling: three listeners are served, the flaky one on its second call, and the broken one
  is the only dead letter, after its single call.\<close>

theorem events_report:
  assumes "(emit_step events_behaviour ^^ k) (emit_start events_bus ''user.registered'' []) s" "emit_done s"
  shows "emit_result s = \<lparr>dr_delivered = 3, dr_failed = 1, dr_deadLettered = 1\<rparr>"
    and "getDeadLetterQueue s = [\<lparr>dd_listener = 3, dd_reason = ''billing export endpoint is down'', dd_attempts = 1\<rparr>]"
proof -
  have ls: "jm_get (bus_listeners events_bus) ''user.registered'' = Some [0, 1, 2, 3]"
    by (simp add: events_bus_def bus_on_def Let_def)
  have r: "retries_of events_bus l = (if l = 3 then 0 else 3)" for l
    by (simp add: events_bus_def bus_on_def retries_of_def DEFAULT_MAX_RETRIES_def Let_def)
  have out: "outcome_from events_behaviour 0 3 0 = Some Delivered" "outcome_from events_behaviour 1 3 0 = Some Delivered"
    "outcome_from events_behaviour 2 3 0 = Some Delivered"
    "outcome_from events_behaviour 3 0 0 =
       Some (DeadLettered \<lparr>dd_listener = 3, dd_reason = ''billing export endpoint is down'', dd_attempts = 1\<rparr>)"
    by (simp_all add: outcome_from_def events_behaviour_def upt_rec)
  note c = emit_done_counts[OF assms ls refl]
  have "mset (em_dlq s) = {#\<lparr>dd_listener = 3, dd_reason = ''billing export endpoint is down'', dd_attempts = 1\<rparr>#}"
    using c(2) by (simp add: r out out(2)[simplified] dead_of_def)
  then show "getDeadLetterQueue s = [\<lparr>dd_listener = 3, dd_reason = ''billing export endpoint is down'', dd_attempts = 1\<rparr>]"
    by (simp add: getDeadLetterQueue_def)
  have "em_delivered s = 3" "em_delivered s + em_failed s = 4"
    using c(1,4) by (simp_all add: r out out(2)[simplified])
  with c(3) show "emit_result s = \<lparr>dr_delivered = 3, dr_failed = 1, dr_deadLettered = 1\<rparr>" by (simp add: emit_result_def)
qed

section \<open>The plugin demonstration\<close>

text \<open>Booting on a fresh registry finds the service under its qualified and its short key, and the action
  returns the completion and announces it once.\<close>

lemma assistant_boots:
  "assistant_boot empty_registry = Inr (completion, [''anthropic-ai''], [''anthropic-ai.completion'', ''completion''])"
proof -
  have d: "detectCircular [anthropicPlugin] = Inr ()" by code_simp
  show ?thesis
    unfolding assistant_boot_def loadAll_def d
    by (simp add: load_plugin_def anthropicPlugin_def definePlugin_def plugin_deps_def
        empty_registry_def di_register_def di_get_def di_has_def jm_has_def jm_spread_def sandboxedView_def)
qed

theorem assistant_answers:
  assumes "assistant_boot empty_registry = Inr (run_completion, loaded, ks)" "AskInput body = Inr data" "jm_wf fs"
  shows "\<exists>r. askAssistant fs level AskInput run_completion body (Some st) w =
      (Inr (Some (completion_json r)), w @ [(''ai.completion.ready'', JObj [(''model'', JStr ''claude-sonnet-4-5''),
         (''prompt'', JStr (cq_prompt data)), (''tokens'', JNum (of_nat (cl_tokens r)))])]) \<and>
    4 * cl_tokens r \<in> {utf16_length (cl_text r) ..< utf16_length (cl_text r) + 4}"
proof -
  have "run_completion = completion" using assms(1) by (simp add: assistant_boots)
  then show ?thesis
    unfolding askAssistant_def state_action_accepted[where schema = AskInput and data = body, OF assms(2,3)]
    by (auto simp: askAssistant_handler_def completion_def Let_def)
qed

end
