(* ===== verification/Tasks.thy ===== *)
theory Tasks
  imports App Testing Accounting
begin

text \<open>
  The scheduled task example (examples/scheduled-tasks/src/index.ts): a task that closes the ledger of the
  invoices that are overdue by the virtual clock of Testing. \<open>parse_date\<close> and \<open>iso\<close> are the platform's parsing and
  formatting of dates (\<open>None\<close> is an invalid date, which is before nothing), \<open>intl\<close> its number formatter.
\<close>

section \<open>The task\<close>

record invoice =
  nv_id :: string
  nv_amount :: string
  nv_dueAt :: string

definition INVOICES :: "invoice list" where
  "INVOICES = [\<lparr>nv_id = ''inv_1'', nv_amount = ''1200.00'', nv_dueAt = ''2026-02-01T00:00:00.000Z''\<rparr>,
     \<lparr>nv_id = ''inv_2'', nv_amount = ''450.50'', nv_dueAt = ''2026-02-15T00:00:00.000Z''\<rparr>,
     \<lparr>nv_id = ''inv_3'', nv_amount = ''9999.99'', nv_dueAt = ''2026-03-10T00:00:00.000Z''\<rparr>]"

record dates =
  dt_parse :: "string \<Rightarrow> int option"
  dt_iso :: "int \<Rightarrow> string"

record ledger_closing =
  lc_period :: string
  lc_total :: string
  lc_overdue :: "string list"

definition overdue_at :: "dates \<Rightarrow> int \<Rightarrow> invoice list \<Rightarrow> invoice list" where
  "overdue_at dt now invoices = filter (\<lambda>inv. case dt_parse dt (nv_dueAt inv) of Some due \<Rightarrow> due < now | None \<Rightarrow> False) invoices"

definition invoices_total :: "'d decimal_lib \<Rightarrow> invoice list \<Rightarrow> 'd money result" where
  "invoices_total D invoices = and_then (money D (StrArg ''0'') ''USD'')
     (\<lambda>zero. foldl_result (\<lambda>acc inv. and_then (money D (StrArg (nv_amount inv)) ''USD'') (money_add D acc)) zero invoices)"

datatype task_value = TaskString string | TaskDate "int option"

definition task_scheduled :: "('s, task_value) ctx_object \<Rightarrow> int option" where
  "task_scheduled task = (case jm_get task ''scheduledAt'' of Some (CData (TaskDate d)) \<Rightarrow> d | _ \<Rightarrow> None)"

text \<open>\<open>now\<close> is \<open>Date.now()\<close>. The log line formats the scheduled date, which throws on an invalid one; the
  event is emitted before the total is formatted.\<close>

definition closeLedger :: "'d decimal_lib \<Rightarrow> (string \<Rightarrow> string \<Rightarrow> (number \<Rightarrow> string) result) \<Rightarrow> dates \<Rightarrow> int \<Rightarrow> invoice list
    \<Rightarrow> ('s, task_value) ctx_object \<Rightarrow> (string \<times> json) list \<Rightarrow> ledger_closing result \<times> (string \<times> json) list" where
  "closeLedger D intl dt now invoices task w =
     (case task_scheduled task of
        None \<Rightarrow> (Inl (Err (plain_error ''RangeError'' ''Invalid time value'')), w)
      | Some scheduledAt \<Rightarrow>
          (let overdue = overdue_at dt now invoices
           in case invoices_total D overdue of
                Inl e \<Rightarrow> (Inl e, w)
              | Inr owing \<Rightarrow>
                  (let period = take 10 (dt_iso dt scheduledAt);
                       w' = w @ [(''ledger.closed'', JObj [(''period'', JStr period), (''total'', JStr (amount D owing))])]
                   in (and_then (money_format intl D owing ''en-US'') (\<lambda>txt.
                         Inr \<lparr>lc_period = period, lc_total = txt, lc_overdue = map nv_id overdue\<rparr>), w'))))"

definition makeTask :: "'s factories \<Rightarrow> string \<Rightarrow> string \<Rightarrow> int \<Rightarrow> string \<Rightarrow> int option \<Rightarrow> ('s, task_value) ctx_object" where
  "makeTask fs level fresh hr tenantId scheduledAt = buildTaskContext fs level
     (createTenantStore fresh hr \<lparr>tn_tenantId = tenantId, tn_userId = None, tn_role = Some ''system'', tn_traceId = None,
        tn_origin = Some OriginCron\<rparr>)
     \<lparr>tk_jobId = TaskString ''job_ledger_close'', tk_cronExpression = TaskString ''0 2 * * *'', tk_scheduledAt = TaskDate scheduledAt\<rparr>"

section \<open>The program\<close>

text \<open>One run of the task at the clock's date; \<open>rnow\<close> is the real clock.\<close>

definition run_task :: "'d decimal_lib \<Rightarrow> (string \<Rightarrow> string \<Rightarrow> (number \<Rightarrow> string) result) \<Rightarrow> dates \<Rightarrow> 's factories \<Rightarrow> string \<Rightarrow> string
    \<Rightarrow> int \<Rightarrow> int \<Rightarrow> virtual_clock \<Rightarrow> invoice list \<Rightarrow> (string \<times> json) list \<Rightarrow> ledger_closing result \<times> (string \<times> json) list" where
  "run_task D intl dt fs level fresh hr rnow c invoices =
     closeLedger D intl dt (date_now rnow c) invoices
       (makeTask fs level fresh hr ''org_acme'' (virtualDate rnow c))"

text \<open>The clocks of the three runs: pinned, fifteen days on, thirty more. A start that does not parse pins the
  clock to no time, and the first run throws.\<close>

definition demo_clocks :: "dates \<Rightarrow> int \<Rightarrow> virtual_clock \<Rightarrow> (virtual_clock \<times> virtual_clock \<times> virtual_clock) result" where
  "demo_clocks dt rnow c0 =
     (case dt_parse dt ''2026-02-01T02:00:00.000Z'' of
        None \<Rightarrow> Inl (Err (plain_error ''RangeError'' ''Invalid time value''))
      | Some start \<Rightarrow>
          (let c1 = freeze rnow start (installVirtualClock c0)
           in and_then (advanceFromFrozen ''15d'' c1) (\<lambda>c2. and_then (advanceFromFrozen ''30d'' c2) (\<lambda>c3. Inr (c1, c2, c3)))))"

text \<open>The three runs; before the third the first two invoices are removed.\<close>

definition tasks_main :: "'d decimal_lib \<Rightarrow> (string \<Rightarrow> string \<Rightarrow> (number \<Rightarrow> string) result) \<Rightarrow> dates \<Rightarrow> 's factories \<Rightarrow> string \<Rightarrow> string
    \<Rightarrow> int \<Rightarrow> (nat \<Rightarrow> int) \<Rightarrow> virtual_clock \<Rightarrow> ledger_closing list result" where
  "tasks_main D intl dt fs level fresh hr rnow c0 =
     and_then (demo_clocks dt (rnow 0) c0) (\<lambda>(c1, c2, c3).
     and_then (fst (run_task D intl dt fs level fresh hr (rnow 1) c1 INVOICES [])) (\<lambda>r1.
     and_then (fst (run_task D intl dt fs level fresh hr (rnow 2) c2 INVOICES [])) (\<lambda>r2.
     and_then (fst (run_task D intl dt fs level fresh hr (rnow 3) c3 (drop 2 INVOICES) [])) (\<lambda>r3. Inr [r1, r2, r3]))))"

section \<open>A pinned clock makes the task reproducible\<close>

lemma task_date: "jm_wf fs \<Longrightarrow> task_scheduled (makeTask fs level fresh hr tenantId d) = d"
  by (simp add: task_scheduled_def makeTask_def buildTaskContext_def build_context_def jm_get_spread jm_wf_def jm_keys_def)

lemma pinned_clock:
  "date_now rnow (freeze rnow' t (installVirtualClock c)) = t"
  by (simp add: date_now_def freeze_def installVirtualClock_def virtualNow_def)

lemma run_task_pinned:
  assumes "vc_installed c" "vc_frozenAt c = Some t"
  shows "run_task D intl dt fs level fresh hr rnow c invoices = run_task D intl dt fs level fresh hr rnow' c invoices"
  using assms by (simp add: run_task_def date_now_def virtualDate_def virtualNow_def)

text \<open>As time goes on invoices only become overdue.\<close>

lemma overdue_grows: "now \<le> now' \<Longrightarrow> set (overdue_at dt now invoices) \<subseteq> set (overdue_at dt now' invoices)"
  by (auto simp: overdue_at_def split: option.splits)

lemma demo_clocks_dates:
  assumes "dt_parse dt ''2026-02-01T02:00:00.000Z'' = Some start"
  shows "\<exists>c1 c2 c3. demo_clocks dt rnow c0 = Inr (c1, c2, c3) \<and>
    list_all (\<lambda>(c, t). vc_installed c \<and> vc_frozenAt c = Some t)
      [(c1, start), (c2, start + 15 * 86400000), (c3, start + 45 * 86400000)]"
proof -
  have "parseDuration ''15d'' = Inr (15 * 86400000)" "parseDuration ''30d'' = Inr (30 * 86400000)" by code_simp+
  then show ?thesis
    by (simp add: demo_clocks_def assms freeze_def installVirtualClock_def advanceFromFrozen_def)
qed

context decimal_arith
begin

lemma invoices_total_exact:
  assumes "list_all2 (\<lambda>inv a. decimal_literal (nv_amount inv) = Some a) invoices xs" "\<forall>n. fits28 (sum_list (take n xs))"
  shows "\<exists>m. invoices_total D invoices = Inr m \<and> v (m_amount m) = Some (sum_list xs) \<and> m_currency m = ''USD''"
proof -
  have up: "to_upper ''USD'' = ''USD''" by code_simp
  have fold: "list_all2 (\<lambda>inv a. decimal_literal (nv_amount inv) = Some a) invs ys \<Longrightarrow>
      \<forall>n. fits28 (s + sum_list (take n ys)) \<Longrightarrow> v (m_amount acc) = Some s \<Longrightarrow> m_currency acc = ''USD'' \<Longrightarrow>
      \<exists>m. foldl_result (\<lambda>acc inv. and_then (money D (StrArg (nv_amount inv)) ''USD'') (money_add D acc)) acc invs = Inr m \<and>
        v (m_amount m) = Some (s + sum_list ys) \<and> m_currency m = ''USD''" for invs ys s acc
  proof (induction invs arbitrary: ys s acc)
    case (Cons i invs)
    then obtain a ys' where ys: "ys = a # ys'" "decimal_literal (nv_amount i) = Some a"
        "list_all2 (\<lambda>inv a. decimal_literal (nv_amount inv) = Some a) invs ys'"
      unfolding list_all2_Cons1 by blast
    obtain p where p: "money D (StrArg (nv_amount i)) ''USD'' = Inr p" "v (m_amount p) = Some a" "m_currency p = ''USD''"
      using money_of_arg[of "StrArg (nv_amount i)" a "''USD''"] ys(2) up by auto
    have "fits28 (s + a)" using Cons.prems(2)[rule_format, of 1] ys(1) by simp
    then obtain acc' where acc': "money_add D acc p = Inr acc'" "v (m_amount acc') = Some (s + a)" "m_currency acc' = ''USD''"
      using money_add_exact[OF Cons.prems(3) p(2)] Cons.prems(4) p(3) up by auto
    have "\<forall>n. fits28 (s + a + sum_list (take n ys'))"
      using Cons.prems(2)[rule_format, of "Suc _"] ys(1) by (simp add: add.assoc)
    from Cons.IH[OF ys(3) this acc'(2,3)] show ?case by (simp add: ys(1) p(1) acc'(1) add.assoc)
  qed simp
  obtain zero where zero: "money D (StrArg ''0'') ''USD'' = Inr zero" "v (m_amount zero) = Some 0" "m_currency zero = ''USD''"
    using money_of_arg[of "StrArg ''0''" 0 "''USD''"] up by (auto simp: decimal_literal_zero)
  from fold[OF assms(1) _ zero(2,3)] assms(2) show ?thesis by (simp add: invoices_total_def zero(1))
qed

lemma run_task_exact:
  assumes "vc_installed c" "vc_frozenAt c = Some t" "\<bar>t\<bar> \<le> 8640000000000000" "jm_wf fs"
    and "overdue_at dt t invoices = od" "list_all2 (\<lambda>inv a. decimal_literal (nv_amount inv) = Some a) od xs"
    and "\<forall>n. fits28 (sum_list (take n xs))" "sum_list xs * 100 = of_int k" "intl ''en-US'' ''USD'' = Inr fmt"
  shows "fst (run_task D intl dt fs level fresh hr rnow c invoices w) =
    Inr \<lparr>lc_period = take 10 (dt_iso dt t), lc_total = fmt (js_Number (fixed_str k 2)), lc_overdue = map nv_id od\<rparr>"
proof -
  obtain m where m: "invoices_total D od = Inr m" "v (m_amount m) = Some (sum_list xs)" "m_currency m = ''USD''"
    using invoices_total_exact[OF assms(6,7)] by blast
  have "getCurrencyDecimals ''USD'' = 2" by code_simp
  then have "amount D m = fixed_str k 2" using amount_rounded[OF m(2)] assms(8) m(3) by simp
  moreover have "date_now rnow c = t" "virtualDate rnow c = Some t"
    using assms(1-3) by (simp_all add: date_now_def virtualDate_def virtualNow_def)
  ultimately show ?thesis
    using assms(5,9) m(1,3) by (simp add: run_task_def closeLedger_def task_date[OF assms(4)] money_format_def Let_def)
qed

end

section \<open>The report\<close>

text \<open>With a date parser that reads the four dates of the program, the three runs report, whatever the real
  clock: the first invoice; fifteen days later the first two; thirty days later, those being settled,
  the third.\<close>

theorem tasks_report:
  assumes "decimal_arith D v" "jm_wf fs" "intl ''en-US'' ''USD'' = Inr fmt"
    and "dt_parse dt ''2026-02-01T00:00:00.000Z'' = Some 1769904000000" "dt_parse dt ''2026-02-01T02:00:00.000Z'' = Some 1769911200000"
    and "dt_parse dt ''2026-02-15T00:00:00.000Z'' = Some 1771113600000" "dt_parse dt ''2026-03-10T00:00:00.000Z'' = Some 1773100800000"
  shows "tasks_main D intl dt fs level fresh hr rnow c0 = Inr
    [\<lparr>lc_period = take 10 (dt_iso dt 1769911200000), lc_total = fmt (js_Number ''1200.00''), lc_overdue = [''inv_1'']\<rparr>,
     \<lparr>lc_period = take 10 (dt_iso dt 1771207200000), lc_total = fmt (js_Number ''1650.50''), lc_overdue = [''inv_1'', ''inv_2'']\<rparr>,
     \<lparr>lc_period = take 10 (dt_iso dt 1773799200000), lc_total = fmt (js_Number ''9999.99''), lc_overdue = [''inv_3'']\<rparr>]"
proof -
  obtain c1 c2 c3 where c: "demo_clocks dt (rnow 0) c0 = Inr (c1, c2, c3)"
      "vc_installed c1" "vc_frozenAt c1 = Some 1769911200000" "vc_installed c2" "vc_frozenAt c2 = Some 1771207200000"
      "vc_installed c3" "vc_frozenAt c3 = Some 1773799200000"
    using demo_clocks_dates[OF assms(5), of "rnow 0" c0] by auto
  note run = decimal_arith.run_task_exact[OF assms(1), where intl = intl and fmt = fmt and dt = dt and fs = fs]
  have lits: "decimal_literal ''1200.00'' = Some 1200" "decimal_literal ''450.50'' = Some (45050 / 100)"
    "decimal_literal ''9999.99'' = Some (999999 / 100)" by code_simp+
  have od: "overdue_at dt 1769911200000 INVOICES = take 1 INVOICES" "overdue_at dt 1771207200000 INVOICES = take 2 INVOICES"
    "overdue_at dt 1773799200000 (drop 2 INVOICES) = drop 2 INVOICES"
    by (simp_all add: overdue_at_def INVOICES_def assms(4,6,7))
  have sums: "\<forall>n. fits28 (sum_list (take n [1200]))" "\<forall>n. fits28 (sum_list (take n [1200, 45050 / 100]))"
    "\<forall>n. fits28 (sum_list (take n [999999 / 100]))"
    using fits28_cents[of 0 0] fits28_cents[of 1200 0] fits28_cents[of 165050 2] fits28_cents[of 999999 2]
    by (intro fits28_sums; simp add: upt_rec)+
  have str: "fixed_str 120000 2 = ''1200.00''" "fixed_str 165050 2 = ''1650.50''" "fixed_str 999999 2 = ''9999.99''" by code_simp+
  have "fst (run_task D intl dt fs level fresh hr (rnow 1) c1 INVOICES []) =
      Inr \<lparr>lc_period = take 10 (dt_iso dt 1769911200000), lc_total = fmt (js_Number ''1200.00''), lc_overdue = map nv_id (take 1 INVOICES)\<rparr>"
    using run[OF c(2,3) _ assms(2) od(1) _ sums(1), of 120000] assms(3) lits by (simp add: INVOICES_def str)
  moreover have "fst (run_task D intl dt fs level fresh hr (rnow 2) c2 INVOICES []) =
      Inr \<lparr>lc_period = take 10 (dt_iso dt 1771207200000), lc_total = fmt (js_Number ''1650.50''), lc_overdue = map nv_id (take 2 INVOICES)\<rparr>"
    using run[OF c(4,5) _ assms(2) od(2) _ sums(2), of 165050] assms(3) lits by (simp add: INVOICES_def str[unfolded numeral_2_eq_2] numeral_2_eq_2)
  moreover have "fst (run_task D intl dt fs level fresh hr (rnow 3) c3 (drop 2 INVOICES) []) =
      Inr \<lparr>lc_period = take 10 (dt_iso dt 1773799200000), lc_total = fmt (js_Number ''9999.99''), lc_overdue = map nv_id (drop 2 INVOICES)\<rparr>"
    using run[OF c(6,7) _ assms(2) od(3) _ sums(3), of 999999] assms(3) lits by (simp add: INVOICES_def str[unfolded numeral_2_eq_2] numeral_2_eq_2)
  ultimately show ?thesis by (simp add: tasks_main_def c(1) INVOICES_def numeral_2_eq_2)
qed

end
