(* ===== verification/Spec2Isabelle.thy ===== *)
theory Spec2Isabelle
  imports Testing ScaffoldConfig Commands Site Smoke Crm MultiTenant Inventory Storefront Chat Boot Starters Tasks
begin

text \<open>
  A verification library for intellibiz, a TypeScript framework for multi-tenant business
  applications (src/packages), its project generator (packages/cli, tools/create-intellibiz) and
  applications written with it (src/examples). A request enters the HTTP kernel (packages/http), which resolves a
  tenant and a user (packages/identity), opens an execution context (packages/core) and runs a
  handler or an action; the handler queries through SQL templates that carry the tenant filter
  (packages/db), computes with exact money (packages/finance), charges and compensates in
  transactions and receives payment webhooks (packages/commerce), emits events and uses plugins
  (packages/core).

  Theories, in the order they build on each other:

  \<^item> Prelude: results as sums, strings, numerals, JavaScript maps as insertion-ordered lists with
    the contract \<open>keyed_store\<close>, JSON values.
  \<^item> Rounding, JsNumber, Printing: nearest-even rounding, binary64 numbers, their shortest decimal
    strings and the proof that decimal fractions print exactly.
  \<^item> Errors: the error classes of packages/core/src/errors.ts.
  \<^item> DecimalLib: the contract \<open>decimal_arith\<close> of the arbitrary-precision decimal library, which is a
    dependency and not part of the sources, with a reference interpretation.
  \<^item> Money, Tax: packages/finance. Allocation against an integer specification, conservation of
    minor units, round trips, totals.
  \<^item> Context: store, trace ids, logger, service registry, job, task and socket contexts
    (packages/core/src/context, trace.ts, logger.ts).
  \<^item> Sql: packages/db. Placeholders stay aligned with parameters through nested fragments, the
    tenant filter, the governance log.
  \<^item> Identity, Native: packages/identity; the fallback of the native bridge.
  \<^item> Http, Router: actions, middleware, handler wrapper, and the router with its groups, resources and
    options (packages/core/src/define-action.ts, packages/http).
  \<^item> EventBus, Plugins: packages/core/src/events/bus.ts and plugin/registry.ts.
  \<^item> Transaction, Dedup, Signature: packages/commerce. The orchestrator over the contract
    \<open>payment_provider\<close>, which the mock gateway of packages/testing provides; webhook
    deduplication against a set; digests, Stripe and PayFast signatures.
  \<^item> Config: packages/core/src/config over the contract \<open>schema_lib\<close> of the validation library; what
    an accepted configuration guarantees, and that validating it again changes nothing.
  \<^item> BankRetry: the bank reconciliation state machine as a run of operations over entries, timers
    and requests in flight; its invariant, its bound and the outcome of a retry.
  \<^item> Testing: packages/testing. Tenant contexts, the virtual clock, the test ledger and what its
    assertions decide, the inspection of the mock gateway.
  \<^item> Names, ScaffoldText, Scaffold: packages/cli/src/scaffold.ts. Names, options, and every generated
    file as text. ScaffoldImports shows that the relative imports of a generated project resolve and its
    packages are declared, ScaffoldConfig that its configuration is one Config accepts.
  \<^item> Cli, Commands: the writer of a project over a file system of directories and files, the two
    commands that create one (packages/cli/src/project.ts, commands/init.ts, tools/create-intellibiz) and
    the other commands of packages/cli/src/commands.
  \<^item> Docs: website/src/lib/docs.ts, the index of the documentation over the file system of Cli. Every
    markdown file has its page, addresses are unique, the navigation lists each page once. Site: the
    pages around it (website/src/lib/nav.ts, app/docs, components): the navigation with the guides, the
    pager, the marking of the current page, the contents list, the chained journal of the front page.
  \<^item> App: applications as routes whose handlers change a state, run behind the router and the
    middleware request by request. The locale \<open>tenant_app\<close> is the contract of a multi-tenant
    application and shows non-interference of its tenants.
  \<^item> Crm, MultiTenant, Inventory, Subscribe, Chat, Flagship: src/examples/crm, multi-tenant, inventory,
    ecommerce, websocket-chat, flagship-store. The CRM and the orders are interpretations of
    \<open>tenant_app\<close>; the stock keeps its books to the cent over Money; a subscription costs the catalogue
    price and the tax of its destination; a chat message reaches each member of its room once; the store
    answers a replayed webhook without handling it again, which joins Router, Signature and Dedup.
    Storefront runs the program around the subscription on the mock gateway to its printed receipt; Boot
    takes the store's configuration through Config to its router, its tokens and its demonstration.
  \<^item> Webhooks, Accounting, Starters, Tasks: src/examples/webhooks, accounting, hello-world, events, ai-assistant,
    scheduled-tasks. Webhooks signs the way the providers do and shows what their verifiers accept, with
    the round trip of forms; Accounting formats amounts and shows when its reconciliation succeeds; Starters
    takes a greeting and a demonstration of events through every scheduling of EventBus; Tasks runs under
    the virtual clock of Testing.
  \<^item> Smoke: scripts/smoke-examples.mjs, which starts every example and judges it by the first event that settles it.

  Conventions. A thrown value is \<open>Inl\<close>; a promise that rejects is a thrown value. Strings are lists
  of UTF-8 bytes; case mapping and white space are those of ASCII. The clock, random bytes, the token
  library, the digests, JSON and URL parsing and the application's handlers are arguments. Asynchronous
  code whose interleaving matters is a step function or a step relation (EventBus, Dedup, Context); elsewhere an awaited call is a call.

  Fuel. The depth-first search of Plugins recurses on fuel, and its correctness theorem shows that
  one more than the number of names suffices. \<open>shortest_from\<close> in JsNumber tries at most 17
  significant digits, which is what binary64 needs.

  Not modelled: the Rust crates (another language), the markup of the documentation website, locale-dependent
  formatting, path matching and serving (the framework hono), argument parsing of the command line (the
  framework citty), the layout of what the examples print, and everything listed so in
  PROJECT.json.
\<close>

end
